(* ===== verification/PM_Prelude.thy ===== *)
theory PM_Prelude
  imports Main
begin

text \<open>
  Shared vocabulary of the payment-method development: the theorem collections
  that the component theories fill, results as sum values, the predicate
  ``at most one element of a list satisfies \<open>P\<close>'' with its algebra,
  removal of a list position, and how \<open>list_all\<close> and \<open>list_ex\<close> behave under
  update and removal. Nothing here models code; every component theory
  imports it.
\<close>

section \<open>Theorem collections\<close>

named_theorems doc_defs "the GraphQL documents and the hooks bound to them"
named_theorems store_defs "operations of the remote store"
named_theorems inv_defs "invariants and well-formedness predicates"
named_theorems handler_defs "event handlers of the component"
named_theorems view_defs "pieces of the rendered element tree"

section \<open>Results\<close>

text \<open>
  A fallible operation returns \<open>'e + 'a\<close>: \<open>Inl\<close> carries the error, \<open>Inr\<close>
  the value.
\<close>

type_synonym ('e, 'a) result = "'e + 'a"

abbreviation Err :: "'e \<Rightarrow> ('e, 'a) result" where
  "Err \<equiv> Inl"

abbreviation Ok :: "'a \<Rightarrow> ('e, 'a) result" where
  "Ok \<equiv> Inr"

definition is_ok :: "('e, 'a) result \<Rightarrow> bool" where
  "is_ok r = (case r of Inl _ \<Rightarrow> False | Inr _ \<Rightarrow> True)"

lemma is_ok_simps [simp]: "is_ok (Inr x)" "\<not> is_ok (Inl e)"
  by (simp_all add: is_ok_def)

lemma is_ok_iff: "is_ok r \<longleftrightarrow> (\<exists>x. r = Inr x)"
  by (cases r) simp_all

section \<open>At most one element with a property\<close>

definition at_most_one :: "('a \<Rightarrow> bool) \<Rightarrow> 'a list \<Rightarrow> bool" where
  "at_most_one P xs \<longleftrightarrow> length (filter P xs) \<le> 1"

lemma at_most_one_Nil [simp]: "at_most_one P []"
  by (simp add: at_most_one_def)

lemma at_most_one_Cons [simp]:
  "at_most_one P (x # xs) \<longleftrightarrow>
     (if P x then (\<forall>y \<in> set xs. \<not> P y) else at_most_one P xs)"
  by (auto simp: at_most_one_def filter_empty_conv)

lemma at_most_one_none: "(\<And>x. x \<in> set xs \<Longrightarrow> \<not> P x) \<Longrightarrow> at_most_one P xs"
  by (induction xs) auto

lemma at_most_one_append:
  "at_most_one P (xs @ ys) \<longleftrightarrow>
     at_most_one P xs \<and> at_most_one P ys \<and>
     \<not> ((\<exists>x \<in> set xs. P x) \<and> (\<exists>y \<in> set ys. P y))"
  by (induction xs) (auto intro: at_most_one_none)

lemma at_most_one_snoc_none [simp]:
  "\<not> P y \<Longrightarrow> at_most_one P (xs @ [y]) \<longleftrightarrow> at_most_one P xs"
  by (simp add: at_most_one_append)

lemma at_most_one_map: "at_most_one P (map f xs) \<longleftrightarrow> at_most_one (\<lambda>x. P (f x)) xs"
  by (induction xs) auto

lemma at_most_one_filter: "at_most_one P xs \<Longrightarrow> at_most_one P (filter Q xs)"
  by (induction xs) (auto intro: at_most_one_none)

lemma at_most_one_cong:
  "(\<And>x. x \<in> set xs \<Longrightarrow> P x = Q x) \<Longrightarrow> at_most_one P xs = at_most_one Q xs"
  by (induction xs) auto

text \<open>In a list whose keys are distinct, at most one element has a given key.\<close>

lemma at_most_one_key: "distinct (map f xs) \<Longrightarrow> at_most_one (\<lambda>x. f x = k) xs"
  by (induction xs) (auto simp: image_iff)

text \<open>Two members with the property have the same key under any key function.\<close>

lemma at_most_one_same:
  "at_most_one P xs \<Longrightarrow> x \<in> set xs \<Longrightarrow> y \<in> set xs \<Longrightarrow> P x \<Longrightarrow> P y \<Longrightarrow> x = y"
  by (induction xs) (auto split: if_splits)

section \<open>Lists with keys\<close>

lemma find_Some_inD: "find P xs = Some x \<Longrightarrow> x \<in> set xs \<and> P x"
  by (induction xs) (auto split: if_splits)

lemma map_key_filter_key:
  "distinct (map f xs) \<Longrightarrow> k \<in> f ` set xs \<Longrightarrow> map f (filter (\<lambda>x. f x = k) xs) = [k]"
  by (induction xs) (auto simp: image_iff filter_empty_conv)

lemma map_filter_neq_key: "map f (filter (\<lambda>x. f x \<noteq> k) xs) = removeAll k (map f xs)"
  by (induction xs) auto

text \<open>Two views of a list differ as soon as they differ on one member.\<close>

lemma map_neqI: "x \<in> set xs \<Longrightarrow> f x \<noteq> g x \<Longrightarrow> map f xs \<noteq> map g xs"
  by (auto simp: map_eq_conv)

text \<open>Dropping the members that contribute nothing does not change a concatenation.\<close>

lemma concat_map_filter_empty:
  "(\<And>x. x \<in> set xs \<Longrightarrow> \<not> P x \<Longrightarrow> f x = []) \<Longrightarrow>
   concat (map f (filter P xs)) = concat (map f xs)"
  by (induction xs) auto

section \<open>Removing one position of a list\<close>

definition remove_at :: "nat \<Rightarrow> 'a list \<Rightarrow> 'a list" where
  "remove_at i xs = take i xs @ drop (Suc i) xs"

lemma remove_at_Nil [simp]: "remove_at i [] = []"
  by (simp add: remove_at_def)

lemma remove_at_0 [simp]: "remove_at 0 (x # xs) = xs"
  by (simp add: remove_at_def)

lemma remove_at_Suc [simp]: "remove_at (Suc i) (x # xs) = x # remove_at i xs"
  by (simp add: remove_at_def)

lemma set_remove_at_subset: "set (remove_at i xs) \<subseteq> set xs"
  by (induction xs arbitrary: i) (auto simp: remove_at_def dest: in_set_takeD in_set_dropD)

lemma in_set_remove_atD: "x \<in> set (remove_at i xs) \<Longrightarrow> x \<in> set xs"
  using set_remove_at_subset by fastforce

lemma length_remove_at: "i < length xs \<Longrightarrow> length (remove_at i xs) = length xs - 1"
  by (simp add: remove_at_def)

lemma in_set_remove_at_other:
  "x \<in> set xs \<Longrightarrow> x \<noteq> xs ! i \<Longrightarrow> x \<in> set (remove_at i xs)"
proof (induction xs arbitrary: i)
  case Nil
  then show ?case by simp
next
  case (Cons a xs)
  then show ?case by (cases i) auto
qed

lemma in_set_update_other:
  "x \<in> set xs \<Longrightarrow> x \<noteq> xs ! i \<Longrightarrow> x \<in> set (xs[i := y])"
proof (induction xs arbitrary: i)
  case Nil
  then show ?case by simp
next
  case (Cons a xs)
  then show ?case by (cases i) auto
qed

lemma in_set_updateD: "x \<in> set (xs[i := y]) \<Longrightarrow> x = y \<or> x \<in> set xs"
  by (metis in_set_conv_nth length_list_update nth_list_update_eq nth_list_update_neq)

section \<open>Predicates on all elements\<close>

lemma list_all_update: "list_all P xs \<Longrightarrow> P y \<Longrightarrow> list_all P (xs[i := y])"
  by (auto simp: list_all_iff dest: in_set_updateD)

lemma list_all_remove_at: "list_all P xs \<Longrightarrow> list_all P (remove_at i xs)"
  by (auto simp: list_all_iff dest: in_set_remove_atD)

lemma list_all_nth: "list_all P xs \<Longrightarrow> i < length xs \<Longrightarrow> P (xs ! i)"
  by (simp add: list_all_length)

lemma list_ex_update:
  assumes "list_ex P xs" and "P (xs ! i) \<Longrightarrow> P y"
  shows "list_ex P (xs[i := y])"
proof -
  from assms(1) obtain x where x: "x \<in> set xs" "P x"
    by (auto simp: list_ex_iff)
  show ?thesis
  proof (cases "x = xs ! i \<and> i < length xs")
    case True
    with x assms(2) have "P y" by simp
    with True show ?thesis
      by (auto simp: list_ex_iff intro: set_update_memI)
  next
    case False
    then have "x \<in> set (xs[i := y])"
      using x(1) by (cases "i < length xs") (auto simp: list_update_beyond intro: in_set_update_other)
    with x(2) show ?thesis
      by (auto simp: list_ex_iff)
  qed
qed

lemma list_ex_remove_at:
  assumes "list_ex P xs" and "\<not> P (xs ! i)"
  shows "list_ex P (remove_at i xs)"
proof -
  from assms(1) obtain x where x: "x \<in> set xs" "P x"
    by (auto simp: list_ex_iff)
  with assms(2) have "x \<noteq> xs ! i" by auto
  with x show ?thesis
    by (auto simp: list_ex_iff intro: in_set_remove_at_other)
qed

lemma list_ex_remove_atD: "list_ex P (remove_at i xs) \<Longrightarrow> list_ex P xs"
  by (auto simp: list_ex_iff dest: in_set_remove_atD)

lemma list_ex_updateD: "list_ex P (xs[i := y]) \<Longrightarrow> P y \<or> list_ex P xs"
  by (auto simp: list_ex_iff dest: in_set_updateD)

section \<open>Counting elements with a property\<close>

lemma length_filter_update:
  "i < length xs \<Longrightarrow> P y = P (xs ! i) \<Longrightarrow>
   length (filter P (xs[i := y])) = length (filter P xs)"
proof (induction xs arbitrary: i)
  case Nil
  then show ?case by simp
next
  case (Cons a xs)
  then show ?case by (cases i) auto
qed

lemma length_filter_nth: "i < length xs \<Longrightarrow> P (xs ! i) \<Longrightarrow> 0 < length (filter P xs)"
  using nth_mem [of i xs] by (auto simp: filter_empty_conv)

lemma length_filter_remove_at:
  "i < length xs \<Longrightarrow>
   length (filter P (remove_at i xs)) = length (filter P xs) - (if P (xs ! i) then 1 else 0)"
proof (induction xs arbitrary: i)
  case Nil
  then show ?case by simp
next
  case (Cons a xs)
  then show ?case
    by (cases i) (auto dest: length_filter_nth [where P = P])
qed

end
