(* ===== verification/JS_String.thy ===== *)
theory JS_String
  imports PM_Prelude "HOL-Library.Word"
begin

text \<open>
  JavaScript strings as the component uses them: sequences of UTF-16 code
  units, the white space that \<open>String.prototype.trim\<close> strips, \<open>trim\<close> itself,
  and truthiness of a string (the test \<open>if (newMethod.trim())\<close>). The lemmas
  characterise \<open>trim\<close> by what it returns: the unique middle part of the input
  that is empty or starts and ends with a non-space unit.
\<close>

section \<open>Code units and literals\<close>

type_synonym code_unit = "16 word"

type_synonym js_string = "code_unit list"

text \<open>An ASCII literal of the source text, unit by unit.\<close>

definition js :: "string \<Rightarrow> js_string" where
  "js s = map of_char s"

section \<open>White space and trimming\<close>

text \<open>
  The units removed by \<open>trim\<close>: ECMAScript \<open>WhiteSpace\<close> (TAB, VT, FF, SP, NBSP,
  ZWNBSP and the Unicode space separators) and \<open>LineTerminator\<close> (LF, CR, LS,
  PS). All of them lie in the basic plane, so each is one code unit.
\<close>

definition is_trim_space :: "code_unit \<Rightarrow> bool" where
  "is_trim_space c \<longleftrightarrow>
     c \<in> set [0x9, 0xA, 0xB, 0xC, 0xD, 0x20, 0xA0, 0x1680,
              0x2028, 0x2029, 0x202F, 0x205F, 0x3000, 0xFEFF]
     \<or> (0x2000 \<le> c \<and> c \<le> 0x200A)"

definition trimStart :: "js_string \<Rightarrow> js_string" where
  "trimStart s = dropWhile is_trim_space s"

definition trimEnd :: "js_string \<Rightarrow> js_string" where
  "trimEnd s = rev (dropWhile is_trim_space (rev s))"

definition trim :: "js_string \<Rightarrow> js_string" where
  "trim s = trimEnd (trimStart s)"

text \<open>\<open>ToBoolean\<close> on a string: only the empty string is falsy.\<close>

definition truthy :: "js_string \<Rightarrow> bool" where
  "truthy s \<longleftrightarrow> s \<noteq> []"

text \<open>What a trimmed string looks like: empty, or non-space at both ends.\<close>

definition trimmed :: "js_string \<Rightarrow> bool" where
  "trimmed s \<longleftrightarrow> s = [] \<or> (\<not> is_trim_space (hd s) \<and> \<not> is_trim_space (last s))"

lemmas trim_defs = trim_def trimStart_def trimEnd_def

section \<open>Literals\<close>

lemma js_Nil [simp]: "js [] = []"
  by (simp add: js_def)

lemma js_Cons [simp]: "js (c # cs) = of_char c # js cs"
  by (simp add: js_def)

lemma length_js [simp]: "length (js s) = length s"
  by (simp add: js_def)

lemma js_eq_Nil_iff [simp]: "js s = [] \<longleftrightarrow> s = []"
  by (simp add: js_def)

lemma truthy_simps [simp]: "\<not> truthy []" "truthy (x # xs)"
  by (simp_all add: truthy_def)

section \<open>Recursion equations of the two halves\<close>

lemma trimStart_Nil [simp]: "trimStart [] = []"
  by (simp add: trimStart_def)

lemma trimStart_Cons:
  "trimStart (x # xs) = (if is_trim_space x then trimStart xs else x # xs)"
  by (simp add: trimStart_def)

lemma trimEnd_Nil [simp]: "trimEnd [] = []"
  by (simp add: trimEnd_def)

lemma trimEnd_snoc:
  "trimEnd (xs @ [x]) = (if is_trim_space x then trimEnd xs else xs @ [x])"
  by (simp add: trimEnd_def)

lemma trimEnd_eq_Nil_iff: "trimEnd s = [] \<longleftrightarrow> (\<forall>c \<in> set s. is_trim_space c)"
  by (simp add: trimEnd_def dropWhile_eq_Nil_conv)

lemma trimStart_eq_Nil_iff: "trimStart s = [] \<longleftrightarrow> (\<forall>c \<in> set s. is_trim_space c)"
  by (simp add: trimStart_def dropWhile_eq_Nil_conv)

lemma trimEnd_Cons:
  "trimEnd (x # xs) = (if trimEnd xs = [] \<and> is_trim_space x then [] else x # trimEnd xs)"
  by (auto simp: trimEnd_def dropWhile_append dropWhile_eq_Nil_conv)

lemma set_trimStart: "set (trimStart s) \<subseteq> set s"
  by (simp add: trimStart_def set_dropWhileD subsetI)

lemma set_trimEnd: "set (trimEnd s) \<subseteq> set s"
  using set_dropWhileD [of _ is_trim_space "rev s"] by (auto simp: trimEnd_def)

lemma hd_trimStart: "trimStart s \<noteq> [] \<Longrightarrow> \<not> is_trim_space (hd (trimStart s))"
  by (simp add: trimStart_def hd_dropWhile)

lemma last_trimEnd: "trimEnd s \<noteq> [] \<Longrightarrow> \<not> is_trim_space (last (trimEnd s))"
  by (simp add: trimEnd_def last_rev hd_dropWhile)

lemma hd_trimEnd: "trimEnd s \<noteq> [] \<Longrightarrow> hd (trimEnd s) = hd s"
  by (induction s) (auto simp: trimEnd_Cons split: if_splits)

section \<open>What trim returns\<close>

lemma trim_Nil [simp]: "trim [] = []"
  by (simp add: trim_def)

lemma trim_eq_Nil_iff: "trim s = [] \<longleftrightarrow> (\<forall>c \<in> set s. is_trim_space c)"
proof
  assume "trim s = []"
  then have "\<forall>c \<in> set (trimStart s). is_trim_space c"
    by (simp add: trim_def trimEnd_eq_Nil_iff)
  then have "trimStart s = []"
    using hd_trimStart [of s] by (cases "trimStart s") auto
  then show "\<forall>c \<in> set s. is_trim_space c"
    by (simp add: trimStart_eq_Nil_iff)
next
  assume "\<forall>c \<in> set s. is_trim_space c"
  then show "trim s = []"
    by (simp add: trim_def trimStart_eq_Nil_iff [THEN iffD2])
qed

lemma truthy_trim_iff: "truthy (trim s) \<longleftrightarrow> (\<exists>c \<in> set s. \<not> is_trim_space c)"
  by (simp add: truthy_def trim_eq_Nil_iff)

lemma trimmed_trim: "trimmed (trim s)"
proof (cases "trim s = []")
  case True
  then show ?thesis by (simp add: trimmed_def)
next
  case False
  then have ne: "trimStart s \<noteq> []"
    by (auto simp: trim_def)
  from False have "hd (trim s) = hd (trimStart s)"
    by (simp add: trim_def hd_trimEnd)
  with False ne show ?thesis
    by (simp add: trimmed_def hd_trimStart) (simp add: trim_def last_trimEnd)
qed

lemma trimStart_id: "s = [] \<or> \<not> is_trim_space (hd s) \<Longrightarrow> trimStart s = s"
  by (cases s) (auto simp: trimStart_Cons)

lemma trimEnd_id: "s = [] \<or> \<not> is_trim_space (last s) \<Longrightarrow> trimEnd s = s"
  by (cases s rule: rev_cases) (auto simp: trimEnd_snoc)

lemma trim_id: "trimmed s \<Longrightarrow> trim s = s"
  by (auto simp: trimmed_def trim_def trimStart_id trimEnd_id)

lemma trim_idem: "trim (trim s) = trim s"
  by (rule trim_id) (rule trimmed_trim)

lemma trimStart_spaces_append:
  "\<forall>c \<in> set pre. is_trim_space c \<Longrightarrow> trimStart (pre @ s) = trimStart s"
  by (induction pre) (auto simp: trimStart_Cons)

lemma trimEnd_append_spaces:
  "\<forall>c \<in> set post. is_trim_space c \<Longrightarrow> trimEnd (s @ post) = trimEnd s"
  by (simp add: trimEnd_def dropWhile_append)

text \<open>
  The contract of \<open>trim\<close>: whenever the input splits into white space, a
  trimmed middle and white space, the middle is the result.
\<close>

lemma trim_unique:
  assumes "s = pre @ m @ post"
    and "\<forall>c \<in> set pre. is_trim_space c" and "\<forall>c \<in> set post. is_trim_space c"
    and "trimmed m"
  shows "trim s = m"
proof (cases "m = []")
  case True
  with assms(1-3) show ?thesis by (auto simp: trim_eq_Nil_iff)
next
  case False
  with assms(4) have m: "\<not> is_trim_space (hd m)" "\<not> is_trim_space (last m)"
    by (simp_all add: trimmed_def)
  from assms(1,2) have "trimStart s = trimStart (m @ post)"
    by (simp add: trimStart_spaces_append)
  also from False m(1) have "\<dots> = m @ post"
    by (intro trimStart_id) simp
  finally have "trim s = trimEnd (m @ post)"
    by (simp add: trim_def)
  also from assms(3) have "\<dots> = trimEnd m"
    by (rule trimEnd_append_spaces)
  also from m(2) have "\<dots> = m"
    by (simp add: trimEnd_id)
  finally show ?thesis .
qed

text \<open>Such a split always exists, so \<open>trim_unique\<close> determines \<open>trim\<close>.\<close>

lemma trimEnd_split: "\<exists>post. s = trimEnd s @ post \<and> (\<forall>c \<in> set post. is_trim_space c)"
proof (induction s rule: rev_induct)
  case Nil
  then show ?case by simp
next
  case (snoc x xs)
  then obtain post where post: "xs = trimEnd xs @ post" "\<forall>c \<in> set post. is_trim_space c"
    by blast
  show ?case
  proof (cases "is_trim_space x")
    case True
    with post have "xs @ [x] = trimEnd (xs @ [x]) @ (post @ [x])"
      and "\<forall>c \<in> set (post @ [x]). is_trim_space c"
      by (simp_all add: trimEnd_snoc)
    then show ?thesis by blast
  next
    case False
    then show ?thesis by (simp add: trimEnd_snoc)
  qed
qed

lemma trim_split:
  "\<exists>pre post. s = pre @ trim s @ post \<and>
     (\<forall>c \<in> set pre. is_trim_space c) \<and> (\<forall>c \<in> set post. is_trim_space c)"
proof -
  obtain post where post: "trimStart s = trim s @ post" "\<forall>c \<in> set post. is_trim_space c"
    using trimEnd_split [of "trimStart s"] by (auto simp: trim_def)
  have "s = takeWhile is_trim_space s @ trimStart s"
    by (simp add: trimStart_def)
  with post(1) have "s = takeWhile is_trim_space s @ trim s @ post"
    by simp
  moreover have "\<forall>c \<in> set (takeWhile is_trim_space s). is_trim_space c"
    by (auto dest: set_takeWhileD)
  ultimately show ?thesis
    using post(2) by blast
qed

lemma length_trim_le: "length (trim s) \<le> length s"
proof -
  obtain pre post where "s = pre @ trim s @ post"
    using trim_split by blast
  then have "length s = length pre + length (trim s) + length post"
    by (metis length_append add.assoc)
  then show ?thesis by simp
qed

lemma set_trim_subset: "set (trim s) \<subseteq> set s"
  using set_trimEnd [of "trimStart s"] set_trimStart [of s] by (auto simp: trim_def)

text \<open>The order of the two halves does not matter.\<close>

lemma trimStart_trimEnd_commute: "trimStart (trimEnd s) = trimEnd (trimStart s)"
proof (induction s)
  case Nil
  then show ?case by simp
next
  case (Cons x xs)
  show ?case
  proof (cases "is_trim_space x")
    case True
    with Cons show ?thesis
      by (auto simp: trimEnd_Cons trimStart_Cons)
  next
    case False
    then show ?thesis
      by (simp add: trimEnd_Cons trimStart_Cons)
  qed
qed

section \<open>The contract of trim\<close>

text \<open>
  Property C18. \<open>trim\<close> meets the contract of \<open>String.prototype.trim\<close> and
  nothing else does: \<open>m\<close> is the result exactly when \<open>m\<close> is empty or has no
  white space at either end, and the input is \<open>m\<close> with white space before
  and after it.
\<close>

theorem trim_characterisation:
  "trim s = m \<longleftrightarrow>
     trimmed m \<and>
     (\<exists>pre post. s = pre @ m @ post \<and> list_all is_trim_space pre \<and> list_all is_trim_space post)"
proof
  assume "trim s = m"
  with trim_split [of s] trimmed_trim [of s] show
    "trimmed m \<and>
     (\<exists>pre post. s = pre @ m @ post \<and> list_all is_trim_space pre \<and> list_all is_trim_space post)"
    by (auto simp: list_all_iff)
next
  assume "trimmed m \<and>
     (\<exists>pre post. s = pre @ m @ post \<and> list_all is_trim_space pre \<and> list_all is_trim_space post)"
  then show "trim s = m"
    by (auto simp: list_all_iff intro: trim_unique)
qed

end
