(* ===== verification/JS_Value.thy ===== *)
theory JS_Value
  imports JS_String
begin

text \<open>
  The untyped values the component handles: a row of the query result is
  declared \<open>method: any\<close>, so its fields are read by name from an object and may
  be missing. This theory holds the value type, objects as association lists,
  field access, \<open>ToBoolean\<close>, and the operators \<open>!\<close> and \<open>||\<close> that the render
  function applies to row fields.
\<close>

section \<open>Values and objects\<close>

text \<open>
  Numbers are restricted to integers: the only numbers in the program are
  identifiers, which the API declares as \<open>Long\<close>.
\<close>

datatype js_value =
    JUndefined
  | JNull
  | JBool bool
  | JNumber int
  | JString js_string

type_synonym js_object = "(string \<times> js_value) list"

text \<open>\<open>obj.f\<close>: the value stored under \<open>f\<close>, \<open>undefined\<close> when there is none.\<close>

definition get_field :: "js_object \<Rightarrow> string \<Rightarrow> js_value" where
  "get_field obj f = (case map_of obj f of None \<Rightarrow> JUndefined | Some v \<Rightarrow> v)"

section \<open>Truthiness and the operators built on it\<close>

fun to_boolean :: "js_value \<Rightarrow> bool" where
  "to_boolean JUndefined = False"
| "to_boolean JNull = False"
| "to_boolean (JBool b) = b"
| "to_boolean (JNumber n) = (n \<noteq> 0)"
| "to_boolean (JString s) = truthy s"

definition js_not :: "js_value \<Rightarrow> bool" where
  "js_not v = (\<not> to_boolean v)"

definition js_or :: "js_value \<Rightarrow> js_value \<Rightarrow> js_value" where
  "js_or a b = (if to_boolean a then a else b)"

section \<open>Field access\<close>

lemma get_field_Nil [simp]: "get_field [] f = JUndefined"
  by (simp add: get_field_def)

lemma get_field_Cons [simp]:
  "get_field ((k, v) # obj) f = (if f = k then v else get_field obj f)"
  by (simp add: get_field_def)

lemma get_field_absent: "f \<notin> fst ` set obj \<Longrightarrow> get_field obj f = JUndefined"
  by (simp add: get_field_def map_of_eq_None_iff [THEN iffD2])

lemma get_field_filter:
  "P f \<Longrightarrow> get_field (filter (\<lambda>(k, v). P k) obj) f = get_field obj f"
  by (induction obj) auto

lemma get_field_filter_out:
  "\<not> P f \<Longrightarrow> get_field (filter (\<lambda>(k, v). P k) obj) f = JUndefined"
  by (induction obj) auto

section \<open>Operators\<close>

lemma js_not_simps [simp]:
  "js_not JUndefined" "js_not JNull" "js_not (JBool b) = (\<not> b)"
  "js_not (JNumber n) = (n = 0)" "js_not (JString s) = (s = [])"
  by (simp_all add: js_not_def truthy_def)

lemma js_or_simps [simp]:
  "js_or JUndefined d = d"
  "js_or JNull d = d"
  "js_or (JString []) d = d"
  "js_or (JString (x # xs)) d = JString (x # xs)"
  by (simp_all add: js_or_def)

lemma js_or_truthy: "to_boolean d \<Longrightarrow> to_boolean (js_or v d)"
  by (simp add: js_or_def)

lemma js_or_cases: "js_or v d = v \<or> js_or v d = d"
  by (simp add: js_or_def)

end
