(* ===== verification/GraphQL_Documents.thy ===== *)
theory GraphQL_Documents
  imports JS_Value
begin

text \<open>
  The four GraphQL operations the component sends (\<open>GET_PAYMENT_METHODS\<close>,
  \<open>SET_ACTIVE_PAYMENT_METHOD\<close>, \<open>ADD_PAYMENT_METHOD\<close>, \<open>DELETE_PAYMENT_METHOD\<close>)
  as data: operation type and name, declared variables with their types, the
  root field with its arguments, and the selection set. On top of them: the
  validation rules a document has to pass, the coercion check of a variables
  object against the declarations, and the requests that travel to the
  server. The lemmas show that the four documents are valid and tell what a
  conforming variables object contains.
\<close>

section \<open>Documents\<close>

datatype operation_type = QueryOp | MutationOp

text \<open>The two variable types that occur, \<open>Long!\<close> and \<open>String!\<close>.\<close>

datatype gql_type = Long_NonNull | String_NonNull

record document =
  operation :: operation_type
  op_name :: string
  variable_defs :: "(string \<times> gql_type) list"
  root_field :: string
  arguments :: "(string \<times> string) list"
  selection :: "string list"

definition GET_PAYMENT_METHODS :: document where
  "GET_PAYMENT_METHODS =
     \<lparr>operation = QueryOp, op_name = ''GetPaymentMethods'',
      variable_defs = [(''parentId'', Long_NonNull)],
      root_field = ''paymentMethods'',
      arguments = [(''parentId'', ''parentId'')],
      selection = [''id'', ''method'', ''isActive'', ''dateCreated'']\<rparr>"

definition SET_ACTIVE_PAYMENT_METHOD :: document where
  "SET_ACTIVE_PAYMENT_METHOD =
     \<lparr>operation = MutationOp, op_name = ''SetActivePaymentMethod'',
      variable_defs =
        [(''userId'', Long_NonNull), (''parentId'', Long_NonNull), (''methodId'', Long_NonNull)],
      root_field = ''setActivePaymentMethod'',
      arguments =
        [(''userId'', ''userId''), (''parentId'', ''parentId''), (''methodId'', ''methodId'')],
      selection = [''id'', ''method'', ''isActive'']\<rparr>"

definition ADD_PAYMENT_METHOD :: document where
  "ADD_PAYMENT_METHOD =
     \<lparr>operation = MutationOp, op_name = ''AddPaymentMethod'',
      variable_defs =
        [(''userId'', Long_NonNull), (''parentId'', Long_NonNull),
         (''method'', String_NonNull), (''dateCreated'', String_NonNull)],
      root_field = ''addPaymentMethod'',
      arguments =
        [(''userId'', ''userId''), (''parentId'', ''parentId''),
         (''method'', ''method''), (''dateCreated'', ''dateCreated'')],
      selection = [''id'', ''method'', ''isActive'', ''dateCreated'']\<rparr>"

definition DELETE_PAYMENT_METHOD :: document where
  "DELETE_PAYMENT_METHOD =
     \<lparr>operation = MutationOp, op_name = ''DeletePaymentMethod'',
      variable_defs =
        [(''userId'', Long_NonNull), (''parentId'', Long_NonNull), (''methodId'', Long_NonNull)],
      root_field = ''deletePaymentMethod'',
      arguments =
        [(''userId'', ''userId''), (''parentId'', ''parentId''), (''methodId'', ''methodId'')],
      selection = []\<rparr>"

lemmas document_defs [doc_defs] =
  GET_PAYMENT_METHODS_def SET_ACTIVE_PAYMENT_METHOD_def ADD_PAYMENT_METHOD_def
  DELETE_PAYMENT_METHOD_def

section \<open>Validation and variable coercion\<close>

text \<open>
  The validation rules that bear on these documents: variable names are
  unique, argument names are unique, every variable used is declared, every
  declared variable is used, and no field is selected twice.
\<close>

definition document_wf :: "document \<Rightarrow> bool" where
  "document_wf d \<longleftrightarrow>
     distinct (map fst (variable_defs d)) \<and>
     distinct (map fst (arguments d)) \<and>
     set (map snd (arguments d)) = set (map fst (variable_defs d)) \<and>
     distinct (selection d)"

type_synonym variables = js_object

fun has_type :: "js_value \<Rightarrow> gql_type \<Rightarrow> bool" where
  "has_type (JNumber n) Long_NonNull = True"
| "has_type (JString s) String_NonNull = True"
| "has_type _ _ = False"

text \<open>
  A variables object conforms to a document when it gives every declared
  variable a value of the declared type and nothing else.
\<close>

definition variables_conform :: "document \<Rightarrow> variables \<Rightarrow> bool" where
  "variables_conform d vs \<longleftrightarrow>
     list_all (\<lambda>(n, t). case map_of vs n of None \<Rightarrow> False | Some v \<Rightarrow> has_type v t)
       (variable_defs d) \<and>
     list_all (\<lambda>(n, v). n \<in> set (map fst (variable_defs d))) vs \<and>
     distinct (map fst vs)"

text \<open>What is sent: a document with the variables object for it.\<close>

record request =
  req_document :: document
  req_variables :: variables

definition request_ok :: "request \<Rightarrow> bool" where
  "request_ok r \<longleftrightarrow> document_wf (req_document r) \<and>
     variables_conform (req_document r) (req_variables r)"

section \<open>The four documents are valid\<close>

lemma document_wf_GET [simp]: "document_wf GET_PAYMENT_METHODS"
  by (simp add: document_wf_def GET_PAYMENT_METHODS_def)

lemma document_wf_SET_ACTIVE [simp]: "document_wf SET_ACTIVE_PAYMENT_METHOD"
  by (simp add: document_wf_def SET_ACTIVE_PAYMENT_METHOD_def)

lemma document_wf_ADD [simp]: "document_wf ADD_PAYMENT_METHOD"
  by (simp add: document_wf_def ADD_PAYMENT_METHOD_def)

lemma document_wf_DELETE [simp]: "document_wf DELETE_PAYMENT_METHOD"
  by (simp add: document_wf_def DELETE_PAYMENT_METHOD_def)

text \<open>The operation names tell the four documents apart.\<close>

lemma op_names_distinct:
  "distinct (map op_name
     [GET_PAYMENT_METHODS, SET_ACTIVE_PAYMENT_METHOD, ADD_PAYMENT_METHOD,
      DELETE_PAYMENT_METHOD])"
  by (simp add: doc_defs)

lemma document_neq [simp]:
  "GET_PAYMENT_METHODS \<noteq> SET_ACTIVE_PAYMENT_METHOD"
  "GET_PAYMENT_METHODS \<noteq> ADD_PAYMENT_METHOD"
  "GET_PAYMENT_METHODS \<noteq> DELETE_PAYMENT_METHOD"
  "SET_ACTIVE_PAYMENT_METHOD \<noteq> ADD_PAYMENT_METHOD"
  "SET_ACTIVE_PAYMENT_METHOD \<noteq> DELETE_PAYMENT_METHOD"
  "ADD_PAYMENT_METHOD \<noteq> DELETE_PAYMENT_METHOD"
  by (simp_all add: doc_defs)

section \<open>What conformance gives\<close>

lemma has_type_Long: "has_type v Long_NonNull \<longleftrightarrow> (\<exists>n. v = JNumber n)"
  by (cases v) simp_all

lemma has_type_String: "has_type v String_NonNull \<longleftrightarrow> (\<exists>s. v = JString s)"
  by (cases v) simp_all

lemma variables_conform_lookup:
  assumes "variables_conform d vs" and "(n, t) \<in> set (variable_defs d)"
  shows "\<exists>v. map_of vs n = Some v \<and> has_type v t"
proof -
  from assms have "case map_of vs n of None \<Rightarrow> False | Some v \<Rightarrow> has_type v t"
    unfolding variables_conform_def list_all_iff by fast
  then show ?thesis by (cases "map_of vs n") simp_all
qed

lemma variables_conform_Long:
  assumes "variables_conform d vs" and "(n, Long_NonNull) \<in> set (variable_defs d)"
  shows "\<exists>i. get_field vs n = JNumber i"
  using variables_conform_lookup [OF assms] by (auto simp: get_field_def has_type_Long)

lemma variables_conform_String:
  assumes "variables_conform d vs" and "(n, String_NonNull) \<in> set (variable_defs d)"
  shows "\<exists>s. get_field vs n = JString s"
  using variables_conform_lookup [OF assms] by (auto simp: get_field_def has_type_String)

lemma variables_conform_names:
  "variables_conform d vs \<Longrightarrow> set (map fst vs) = set (map fst (variable_defs d))"
  by (force simp: variables_conform_def list_all_iff split: option.splits dest: map_of_SomeD)

end
