(* ===== verification/React_Elements.thy ===== *)
theory React_Elements
  imports JS_Value
begin

text \<open>
  The element trees a render function returns: an element has a type name,
  props and children; a prop value is a string, an expression value, a bare
  flag, an event handler, an element or an object of further props. The type
  of handlers is a parameter, so the component theory supplies its own
  callbacks. The functions below read a tree the way a user meets it: which
  handlers can fire (those of elements that are not disabled), which elements
  of a given type it contains, which values it shows, and what of it reaches
  the page.
\<close>

section \<open>Trees\<close>

datatype 'h element =
    Element string "(string \<times> 'h prop_value) list" "'h element list"
  | Text js_string
  | Expr js_value
and 'h prop_value =
    PString string
  | PValue js_value
  | PTrue
  | PHandler 'h
  | PElement "'h element"
  | PProps "(string \<times> 'h prop_value) list"

type_synonym 'h props = "(string \<times> 'h prop_value) list"

section \<open>Reading a tree\<close>

text \<open>
  The handlers a user can trigger, each with the event prop it is bound to, in
  document order. A disabled element fires none of its own handlers.
\<close>

fun enabled_handlers :: "'h element \<Rightarrow> (string \<times> 'h) list"
  and prop_handlers :: "string \<times> 'h prop_value \<Rightarrow> (string \<times> 'h) list" where
  "enabled_handlers (Element t ps cs) =
     (if (''disabled'', PTrue) \<in> set ps then [] else concat (map prop_handlers ps))
     @ concat (map enabled_handlers cs)"
| "enabled_handlers (Text s) = []"
| "enabled_handlers (Expr v) = []"
| "prop_handlers (n, PHandler h) = [(n, h)]"
| "prop_handlers (n, PElement e) = enabled_handlers e"
| "prop_handlers (n, PString s) = []"
| "prop_handlers (n, PValue v) = []"
| "prop_handlers (n, PTrue) = []"
| "prop_handlers (n, PProps ps) = []"

text \<open>All elements of a tree, the root first, props before children.\<close>

fun subelements :: "'h element \<Rightarrow> 'h element list"
  and prop_subelements :: "string \<times> 'h prop_value \<Rightarrow> 'h element list" where
  "subelements (Element t ps cs) =
     Element t ps cs # concat (map prop_subelements ps) @ concat (map subelements cs)"
| "subelements (Text s) = []"
| "subelements (Expr v) = []"
| "prop_subelements (n, PElement e) = subelements e"
| "prop_subelements (n, PHandler h) = []"
| "prop_subelements (n, PString s) = []"
| "prop_subelements (n, PValue v) = []"
| "prop_subelements (n, PTrue) = []"
| "prop_subelements (n, PProps ps) = []"

fun element_type :: "'h element \<Rightarrow> string" where
  "element_type (Element t ps cs) = t"
| "element_type (Text s) = []"
| "element_type (Expr v) = []"

fun element_props :: "'h element \<Rightarrow> 'h props" where
  "element_props (Element t ps cs) = ps"
| "element_props (Text s) = []"
| "element_props (Expr v) = []"

fun element_children :: "'h element \<Rightarrow> 'h element list" where
  "element_children (Element t ps cs) = cs"
| "element_children (Text s) = []"
| "element_children (Expr v) = []"

definition elements_of_type :: "string \<Rightarrow> 'h element \<Rightarrow> 'h element list" where
  "elements_of_type t e = filter (\<lambda>x. element_type x = t) (subelements e)"

definition is_disabled :: "'h element \<Rightarrow> bool" where
  "is_disabled e \<longleftrightarrow> (''disabled'', PTrue) \<in> set (element_props e)"

text \<open>The \<open>key\<close> prop of an element, \<open>undefined\<close> when it has none.\<close>

definition element_key :: "'h element \<Rightarrow> js_value" where
  "element_key e = (case map_of (element_props e) ''key'' of Some (PValue v) \<Rightarrow> v | _ \<Rightarrow> JUndefined)"

text \<open>
  The text a tree puts on the page through its children, in document order:
  literal text and the strings and numbers of expressions, in children and in
  element-valued props; booleans, \<open>null\<close> and \<open>undefined\<close> render nothing.
  Values handed to a component as a prop (the \<open>primary\<close> label of a list item,
  the \<open>value\<close> of a text field) are not part of it; \<open>rendered\<close> below keeps
  them.
\<close>

fun shown :: "'h element \<Rightarrow> js_value list"
  and prop_shown :: "string \<times> 'h prop_value \<Rightarrow> js_value list" where
  "shown (Element t ps cs) = concat (map prop_shown ps) @ concat (map shown cs)"
| "shown (Text s) = [JString s]"
| "shown (Expr (JString s)) = [JString s]"
| "shown (Expr (JNumber n)) = [JNumber n]"
| "shown (Expr JUndefined) = []"
| "shown (Expr JNull) = []"
| "shown (Expr (JBool b)) = []"
| "prop_shown (n, PElement e) = shown e"
| "prop_shown (n, PHandler h) = []"
| "prop_shown (n, PString s) = []"
| "prop_shown (n, PValue v) = []"
| "prop_shown (n, PTrue) = []"
| "prop_shown (n, PProps ps) = []"

text \<open>
  The tree as it reaches the page: children that are booleans, \<open>null\<close> or
  \<open>undefined\<close> are dropped, everything else is kept, props included. Two
  trees with the same \<open>rendered\<close> tree are the same page.
\<close>

fun renders_nothing :: "'h element \<Rightarrow> bool" where
  "renders_nothing (Expr JUndefined) = True"
| "renders_nothing (Expr JNull) = True"
| "renders_nothing (Expr (JBool b)) = True"
| "renders_nothing (Expr (JNumber n)) = False"
| "renders_nothing (Expr (JString s)) = False"
| "renders_nothing (Text s) = False"
| "renders_nothing (Element t ps cs) = False"

fun rendered :: "'h element \<Rightarrow> 'h element"
  and rendered_prop :: "string \<times> 'h prop_value \<Rightarrow> string \<times> 'h prop_value" where
  "rendered (Element t ps cs) =
     Element t (map rendered_prop ps) (filter (\<lambda>c. \<not> renders_nothing c) (map rendered cs))"
| "rendered (Text s) = Text s"
| "rendered (Expr v) = Expr v"
| "rendered_prop (n, PElement e) = (n, PElement (rendered e))"
| "rendered_prop (n, PHandler h) = (n, PHandler h)"
| "rendered_prop (n, PString s) = (n, PString s)"
| "rendered_prop (n, PValue v) = (n, PValue v)"
| "rendered_prop (n, PTrue) = (n, PTrue)"
| "rendered_prop (n, PProps ps) = (n, PProps ps)"

section \<open>Lemmas\<close>

lemma enabled_handlers_leaf [simp]:
  "\<forall>p \<in> set ps. prop_handlers p = [] \<Longrightarrow> enabled_handlers (Element t ps []) = []"
  by simp

lemma enabled_handlers_disabled [simp]:
  "(''disabled'', PTrue) \<in> set ps \<Longrightarrow>
     enabled_handlers (Element t ps cs) = concat (map enabled_handlers cs)"
  by simp

lemma is_disabled_Element [simp]:
  "is_disabled (Element t ps cs) \<longleftrightarrow> (''disabled'', PTrue) \<in> set ps"
  by (simp add: is_disabled_def)

lemma elements_of_type_Element:
  "elements_of_type t (Element t' ps cs) =
     (if t' = t then [Element t' ps cs] else []) @
     concat (map (\<lambda>p. filter (\<lambda>x. element_type x = t) (prop_subelements p)) ps) @
     concat (map (elements_of_type t) cs)"
  unfolding elements_of_type_def by (simp add: filter_concat comp_def)

lemma elements_of_type_leaf [simp]:
  "elements_of_type t (Text s) = []" "elements_of_type t (Expr v) = []"
  by (simp_all add: elements_of_type_def)

lemma element_type_elements_of_type:
  "x \<in> set (elements_of_type t e) \<Longrightarrow> element_type x = t"
  by (simp add: elements_of_type_def)

section \<open>The rendered tree offers the same controls\<close>

lemma renders_nothing_rendered [simp]: "renders_nothing (rendered e) = renders_nothing e"
  by (cases e rule: renders_nothing.cases) simp_all

lemma rendered_prop_eq_PTrue [simp]: "rendered_prop p = (n, PTrue) \<longleftrightarrow> p = (n, PTrue)"
  by (cases p rule: rendered_prop.cases) auto

lemma PTrue_in_rendered_props [simp]:
  "(n, PTrue) \<in> rendered_prop ` set ps \<longleftrightarrow> (n, PTrue) \<in> set ps"
  by (induction ps) (auto simp: eq_commute [of "(n, PTrue)"])

lemma enabled_handlers_nothing: "renders_nothing c \<Longrightarrow> enabled_handlers c = []"
  by (cases c rule: renders_nothing.cases) simp_all

lemma enabled_handlers_rendered:
  "enabled_handlers (rendered (e :: 'h element)) = enabled_handlers e"
  "prop_handlers (rendered_prop (p :: string \<times> 'h prop_value)) = prop_handlers p"
proof (induction e and p rule: rendered_rendered_prop.induct)
  case (1 t ps cs)
  have "concat (map enabled_handlers (filter (\<lambda>c. \<not> renders_nothing c) (map rendered cs))) =
      concat (map enabled_handlers (map rendered cs))"
    by (rule concat_map_filter_empty) (simp add: enabled_handlers_nothing)
  also have "\<dots> = concat (map enabled_handlers cs)"
    using 1(2) by (simp add: comp_def cong: map_cong)
  finally show ?case
    using 1(1) by (simp add: comp_def cong: map_cong)
qed simp_all

end
