(* ===== verification/Payment_Methods.thy ===== *)
theory Payment_Methods
  imports GraphQL_Documents React_Elements
begin

text \<open>
  The component \<open>PaymentMethods\<close> of \<open>src/frontend/src/PaymentMethods.tsx\<close>: its
  local state (\<open>newMethod\<close>), the query result it reads (\<open>loading\<close>, \<open>data\<close>), the
  three mutation hooks with their \<open>refetchQueries\<close>, the handlers
  \<open>handleActivate\<close>, \<open>handleAddMethod\<close> and \<open>handleDeleteMethod\<close>, and the element
  tree it returns. A handler returns the effects it performs, in order; the
  tree carries callbacks that say which handler a control calls with which
  argument. The lemmas give the behaviour of every handler on every branch and
  read the controls off the tree: which are offered, which are disabled, and
  what each of them calls.
\<close>

section \<open>State and hooks\<close>

record component_state =
  newMethod :: js_string

definition initial_state :: component_state where
  "initial_state = \<lparr>newMethod = []\<rparr>"

definition setNewMethod :: "js_string \<Rightarrow> component_state \<Rightarrow> component_state" where
  "setNewMethod v st = st\<lparr>newMethod := v\<rparr>"

text \<open>
  The object under \<open>data\<close>: its field \<open>paymentMethods\<close> is an array of rows, or
  is missing (\<open>None\<close>).
\<close>

record query_data =
  paymentMethods :: "js_object list option"

record query_result =
  loading :: bool
  data :: "query_data option"

text \<open>The request behind \<open>useQuery(GET_PAYMENT_METHODS, {variables: {parentId}})\<close>.\<close>

definition useQuery_request :: "int \<Rightarrow> request" where
  "useQuery_request parentId =
     \<lparr>req_document = GET_PAYMENT_METHODS,
      req_variables = [(''parentId'', JNumber parentId)]\<rparr>"

record mutation_hook =
  mutation :: document
  refetchQueries :: "document list"

definition setActivePaymentMethod :: mutation_hook where
  "setActivePaymentMethod =
     \<lparr>mutation = SET_ACTIVE_PAYMENT_METHOD, refetchQueries = [GET_PAYMENT_METHODS]\<rparr>"

definition addPaymentMethod :: mutation_hook where
  "addPaymentMethod =
     \<lparr>mutation = ADD_PAYMENT_METHOD, refetchQueries = [GET_PAYMENT_METHODS]\<rparr>"

definition deletePaymentMethod :: mutation_hook where
  "deletePaymentMethod =
     \<lparr>mutation = DELETE_PAYMENT_METHOD, refetchQueries = [GET_PAYMENT_METHODS]\<rparr>"

lemmas hook_defs [doc_defs] =
  setActivePaymentMethod_def addPaymentMethod_def deletePaymentMethod_def
  useQuery_request_def

section \<open>Handlers\<close>

text \<open>
  What a handler does: cancel the browser's default action, or call a mutation
  hook with a variables object and, for \<open>handleAddMethod\<close>, a callback for the
  promise's fulfilment.
\<close>

datatype then_callback = NoThen | ThenSetNewMethod js_string

datatype effect =
    PreventDefault
  | Mutate mutation_hook variables then_callback

definition handleActivate :: "int \<Rightarrow> js_value \<Rightarrow> effect list" where
  "handleActivate parentId methodId =
     [Mutate setActivePaymentMethod
        [(''userId'', JNumber parentId), (''parentId'', JNumber parentId),
         (''methodId'', methodId)]
        NoThen]"

text \<open>
  \<open>now\<close> is the value of \<open>new Date().toLocaleString()\<close> when the handler runs.
\<close>

definition handleAddMethod :: "int \<Rightarrow> js_string \<Rightarrow> js_string \<Rightarrow> effect list" where
  "handleAddMethod parentId newMethod_now now =
     PreventDefault #
     (if truthy (trim newMethod_now)
      then [Mutate addPaymentMethod
              [(''userId'', JNumber parentId), (''parentId'', JNumber parentId),
               (''method'', JString (trim newMethod_now)), (''dateCreated'', JString now)]
              (ThenSetNewMethod [])]
      else [])"

definition handleDeleteMethod :: "int \<Rightarrow> js_value \<Rightarrow> effect list" where
  "handleDeleteMethod parentId methodId =
     [Mutate deletePaymentMethod
        [(''userId'', JNumber parentId), (''parentId'', JNumber parentId),
         (''methodId'', methodId)]
        NoThen]"

lemmas handle_defs [handler_defs] =
  handleActivate_def handleAddMethod_def handleDeleteMethod_def

text \<open>
  The functions the tree binds to events: the two named handlers of the form,
  and for each row the closures \<open>() => handleActivate(method.id)\<close> and
  \<open>() => handleDeleteMethod(method.id)\<close> with the captured identifier.
\<close>

datatype callback =
    CallHandleAddMethod
  | CallSetNewMethod
  | CallHandleActivate js_value
  | CallHandleDeleteMethod js_value

text \<open>
  Running a callback: \<open>input\<close> is \<open>e.target.value\<close> of the event, \<open>now\<close> the clock.
  The result is the state after the handler returns and the effects it left.
\<close>

fun invoke :: "int \<Rightarrow> component_state \<Rightarrow> callback \<Rightarrow> js_string \<Rightarrow> js_string \<Rightarrow>
    component_state \<times> effect list" where
  "invoke parentId st CallHandleAddMethod input now =
     (st, handleAddMethod parentId (newMethod st) now)"
| "invoke parentId st CallSetNewMethod input now = (setNewMethod input st, [])"
| "invoke parentId st (CallHandleActivate methodId) input now =
     (st, handleActivate parentId methodId)"
| "invoke parentId st (CallHandleDeleteMethod methodId) input now =
     (st, handleDeleteMethod parentId methodId)"

text \<open>The fulfilment callback of a mutation's promise.\<close>

fun run_then :: "then_callback \<Rightarrow> component_state \<Rightarrow> component_state" where
  "run_then NoThen st = st"
| "run_then (ThenSetNewMethod v) st = setNewMethod v st"

section \<open>The returned tree\<close>

datatype js_error = TypeError

definition header_view :: "callback element" where
  "header_view =
     Element ''div'' [(''className'', PString ''header'')]
       [Element ''div'' []
          [Element ''Typography'' [(''variant'', PString ''h5'')]
             [Text (js ''Payment Methods'')],
           Element ''Typography''
             [(''variant'', PString ''subtitle1''),
              (''style'', PProps [(''color'', PString ''grey[700]'')])]
             [Text (js ''Manage and select your preferred payment options'')]]]"

definition add_form :: "js_string \<Rightarrow> callback element" where
  "add_form newMethod_now =
     Element ''form''
       [(''onSubmit'', PHandler CallHandleAddMethod), (''className'', PString ''addMethodForm'')]
       [Element ''TextField''
          [(''className'', PString ''addMethodInput''),
           (''value'', PValue (JString newMethod_now)),
           (''onChange'', PHandler CallSetNewMethod),
           (''placeholder'', PString ''Add new payment method''),
           (''variant'', PString ''outlined''),
           (''size'', PString ''small'')]
          [],
        Element ''Button''
          [(''type'', PString ''submit''), (''variant'', PString ''contained''),
           (''className'', PString ''button''), (''size'', PString ''small'')]
          [Text (js ''Add Method'')]]"

definition status_view :: "js_object \<Rightarrow> callback element" where
  "status_view m =
     Element ''Typography''
       [(''component'', PString ''span''),
        (''className'',
           PString (if to_boolean (get_field m ''isActive'') then ''activeText''
                    else ''inactiveText''))]
       [Expr (JString (if to_boolean (get_field m ''isActive'') then js ''Active''
                       else js ''Inactive''))]"

definition created_view :: "js_object \<Rightarrow> callback element" where
  "created_view m =
     Element ''Typography''
       [(''component'', PString ''span''), (''className'', PString ''infoText'')]
       [Text (js ''Created ''),
        Expr (js_or (get_field m ''dateCreated'') (JString (js ''(unknown)'')))]"

definition activate_control :: "js_object \<Rightarrow> callback element" where
  "activate_control m =
     (if js_not (get_field m ''isActive'')
      then Element ''Button''
             [(''variant'', PString ''contained''), (''className'', PString ''button''),
              (''onClick'', PHandler (CallHandleActivate (get_field m ''id''))),
              (''size'', PString ''small'')]
             [Text (js ''Activate'')]
      else Expr (JBool False))"

definition delete_control :: "js_object \<Rightarrow> callback element" where
  "delete_control m =
     (if js_not (get_field m ''isActive'')
      then Element ''IconButton''
             [(''className'', PString ''deleteButton''),
              (''onClick'', PHandler (CallHandleDeleteMethod (get_field m ''id''))),
              (''size'', PString ''small'')]
             [Element ''DeleteIcon'' [] []]
      else Element ''IconButton''
             [(''className'', PString ''deleteButton''), (''disabled'', PTrue),
              (''size'', PString ''small'')]
             [Element ''DeleteIcon'' [] []])"

definition method_item :: "js_object \<Rightarrow> callback element" where
  "method_item m =
     Element ''ListItem''
       [(''key'', PValue (get_field m ''id'')), (''className'', PString ''listItem'')]
       [Element ''ListItemIcon'' [] [Element ''CreditCardIcon'' [] []],
        Element ''ListItemText''
          [(''primary'', PValue (get_field m ''method'')),
           (''secondary'',
              PElement (Element ''Fragment'' []
                [status_view m, Element ''br'' [] [], created_view m])),
           (''primaryTypographyProps'', PProps [(''className'', PString ''primaryText'')])]
          [],
        activate_control m,
        delete_control m]"

text \<open>
  \<open>data?.paymentMethods.map(...)\<close>: \<open>undefined\<close> without \<open>data\<close>, a \<open>TypeError\<close> when
  \<open>data\<close> has no array under \<open>paymentMethods\<close>, else one item per row in the
  order of the array.
\<close>

definition methods_list :: "query_data option \<Rightarrow> (js_error, callback element) result" where
  "methods_list d =
     (case d of
        None \<Rightarrow> Ok (Element ''List'' [] [Expr JUndefined])
      | Some qd \<Rightarrow>
          (case paymentMethods qd of
             None \<Rightarrow> Err TypeError
           | Some rows \<Rightarrow> Ok (Element ''List'' [] (map method_item rows))))"

definition PaymentMethods ::
    "component_state \<Rightarrow> query_result \<Rightarrow> (js_error, callback element) result" where
  "PaymentMethods st q =
     (if loading q then Ok (Element ''p'' [] [Text (js ''Loading...'')])
      else case methods_list (data q) of
             Err e \<Rightarrow> Err e
           | Ok list_view \<Rightarrow>
               Ok (Element ''div'' [(''className'', PString ''container'')]
                     [header_view, add_form (newMethod st), list_view]))"

lemmas item_defs [view_defs] =
  status_view_def created_view_def activate_control_def delete_control_def method_item_def

lemmas page_defs [view_defs] =
  header_view_def add_form_def methods_list_def PaymentMethods_def

section \<open>What the handlers do\<close>

text \<open>
  Property C7. \<open>handleAddMethod\<close> calls no mutation exactly when the input
  consists of white space only (the empty input included); it then only
  cancels the default action of the submit event.
\<close>

theorem handleAddMethod_blank_iff:
  "handleAddMethod parentId s now = [PreventDefault] \<longleftrightarrow> (\<forall>c \<in> set s. is_trim_space c)"
  by (simp add: handleAddMethod_def truthy_def trim_eq_Nil_iff)

theorem handleAddMethod_blank_iff_witness:
  "handleAddMethod 7 (js ''   '') (js ''1/1/2024'') = [PreventDefault] \<and>
   list_all is_trim_space (js ''   '') \<and>
   handleAddMethod 7 [] (js ''1/1/2024'') = [PreventDefault]"
  using handleAddMethod_blank_iff [of 7 "js ''   ''" "js ''1/1/2024''"]
    handleAddMethod_blank_iff [of 7 "[]" "js ''1/1/2024''"]
  by (simp add: is_trim_space_def)

text \<open>
  Property C12. Every mutation that \<open>handleAddMethod\<close> calls is \<open>addPaymentMethod\<close>,
  carries as \<open>method\<close> the trimmed input, which is non-empty and has no white
  space at either end, and clears the input field when the promise is
  fulfilled.
\<close>

theorem handleAddMethod_trims:
  assumes "Mutate h vs k \<in> set (handleAddMethod parentId s now)"
  shows "h = addPaymentMethod \<and> get_field vs ''method'' = JString (trim s) \<and>
         trim s \<noteq> [] \<and> trimmed (trim s) \<and>
         get_field vs ''dateCreated'' = JString now \<and> k = ThenSetNewMethod []"
  using assms by (auto simp: handleAddMethod_def truthy_def trimmed_trim split: if_splits)

theorem handleAddMethod_trims_witness:
  "Mutate addPaymentMethod
     [(''userId'', JNumber 7), (''parentId'', JNumber 7),
      (''method'', JString (js ''Visa'')), (''dateCreated'', JString (js ''now''))]
     (ThenSetNewMethod [])
     \<in> set (handleAddMethod 7 (js ''  Visa  '') (js ''now'')) \<and>
   trim (js ''  Visa  '') = js ''Visa''"
proof -
  have t: "trim (js ''  Visa  '') = js ''Visa''"
    by (simp add: trim_defs is_trim_space_def)
  then have m: "Mutate addPaymentMethod
     [(''userId'', JNumber 7), (''parentId'', JNumber 7),
      (''method'', JString (js ''Visa'')), (''dateCreated'', JString (js ''now''))]
     (ThenSetNewMethod [])
     \<in> set (handleAddMethod 7 (js ''  Visa  '') (js ''now''))"
    by (simp add: handleAddMethod_def)
  from handleAddMethod_trims [OF m] t m show ?thesis by simp
qed

lemma Mutate_in_invoke:
  "Mutate h vs k \<in> set (snd (invoke parentId st c input now)) \<longleftrightarrow>
     (case c of
        CallHandleAddMethod \<Rightarrow> Mutate h vs k \<in> set (handleAddMethod parentId (newMethod st) now)
      | CallSetNewMethod \<Rightarrow> False
      | CallHandleActivate v \<Rightarrow> Mutate h vs k \<in> set (handleActivate parentId v)
      | CallHandleDeleteMethod v \<Rightarrow> Mutate h vs k \<in> set (handleDeleteMethod parentId v))"
  by (cases c) simp_all

text \<open>
  Property C25. Whatever callback runs, every mutation it calls is one of the
  three hooks, and each hook refetches \<open>GET_PAYMENT_METHODS\<close> after the mutation
  (refetch on write): no handler changes the list by itself.
\<close>

theorem every_mutation_refetches:
  assumes "Mutate h vs k \<in> set (snd (invoke parentId st c input now))"
  shows "h \<in> {setActivePaymentMethod, addPaymentMethod, deletePaymentMethod} \<and>
         refetchQueries h = [GET_PAYMENT_METHODS] \<and> operation (mutation h) = MutationOp"
  using assms
  by (cases c) (auto simp: handler_defs doc_defs split: if_splits)

theorem every_mutation_refetches_witness:
  "Mutate deletePaymentMethod
     [(''userId'', JNumber 7), (''parentId'', JNumber 7), (''methodId'', JNumber 2)] NoThen
     \<in> set (snd (invoke 7 initial_state (CallHandleDeleteMethod (JNumber 2)) [] [])) \<and>
   refetchQueries deletePaymentMethod = [GET_PAYMENT_METHODS]"
proof -
  have m: "Mutate deletePaymentMethod
     [(''userId'', JNumber 7), (''parentId'', JNumber 7), (''methodId'', JNumber 2)] NoThen
     \<in> set (snd (invoke 7 initial_state (CallHandleDeleteMethod (JNumber 2)) [] []))"
    by (simp add: handleDeleteMethod_def)
  from every_mutation_refetches [OF m] m show ?thesis by simp
qed

text \<open>
  Property C26. The variables of every mutation a handler calls conform to the
  declarations of the hook's document, provided the identifier captured by a
  row's closure is a number; and the \<open>userId\<close> sent is always the \<open>parentId\<close>.
\<close>

theorem mutation_variables_conform:
  assumes "Mutate h vs k \<in> set (snd (invoke parentId st c input now))"
    and "\<And>v. c = CallHandleActivate v \<or> c = CallHandleDeleteMethod v \<Longrightarrow> \<exists>n. v = JNumber n"
  shows "variables_conform (mutation h) vs \<and>
         get_field vs ''userId'' = JNumber parentId \<and>
         get_field vs ''parentId'' = JNumber parentId"
  using assms
  by (cases c) (auto simp: handler_defs doc_defs variables_conform_def split: if_splits)

theorem mutation_variables_conform_witness:
  "variables_conform (mutation setActivePaymentMethod)
     [(''userId'', JNumber 7), (''parentId'', JNumber 7), (''methodId'', JNumber 2)] \<and>
   Mutate setActivePaymentMethod
     [(''userId'', JNumber 7), (''parentId'', JNumber 7), (''methodId'', JNumber 2)] NoThen
     \<in> set (snd (invoke 7 initial_state (CallHandleActivate (JNumber 2)) [] []))"
proof -
  have m: "Mutate setActivePaymentMethod
     [(''userId'', JNumber 7), (''parentId'', JNumber 7), (''methodId'', JNumber 2)] NoThen
     \<in> set (snd (invoke 7 initial_state (CallHandleActivate (JNumber 2)) [] []))"
    by (simp add: handleActivate_def)
  from mutation_variables_conform [OF m] m show ?thesis by auto
qed

section \<open>The controls a page offers\<close>

text \<open>
  The specification of the controls: the form always offers submit and
  change; a row offers \<open>Activate\<close> and \<open>Delete\<close>, both bound to its identifier,
  exactly when its \<open>isActive\<close> is falsy.
\<close>

definition form_callbacks :: "(string \<times> callback) list" where
  "form_callbacks = [(''onSubmit'', CallHandleAddMethod), (''onChange'', CallSetNewMethod)]"

definition row_callbacks :: "js_object \<Rightarrow> (string \<times> callback) list" where
  "row_callbacks m =
     (if js_not (get_field m ''isActive'')
      then [(''onClick'', CallHandleActivate (get_field m ''id'')),
            (''onClick'', CallHandleDeleteMethod (get_field m ''id''))]
      else [])"

text \<open>The rows a query result holds, none when there is no array.\<close>

definition rows_of :: "query_result \<Rightarrow> js_object list" where
  "rows_of q =
     (case data q of None \<Rightarrow> []
      | Some qd \<Rightarrow> (case paymentMethods qd of None \<Rightarrow> [] | Some rows \<Rightarrow> rows))"

text \<open>What a user can trigger in a state: nothing when rendering fails.\<close>

definition offered :: "component_state \<Rightarrow> query_result \<Rightarrow> (string \<times> callback) list" where
  "offered st q = (case PaymentMethods st q of Err e \<Rightarrow> [] | Ok page \<Rightarrow> enabled_handlers page)"

lemma enabled_handlers_header [simp]: "enabled_handlers header_view = []"
  by (simp add: header_view_def)

lemma enabled_handlers_add_form [simp]: "enabled_handlers (add_form s) = form_callbacks"
  by (simp add: add_form_def form_callbacks_def)

lemma enabled_handlers_method_item [simp]: "enabled_handlers (method_item m) = row_callbacks m"
  by (simp add: item_defs row_callbacks_def)

lemma rows_of_simps [simp]:
  "rows_of \<lparr>loading = l, data = None\<rparr> = []"
  "rows_of \<lparr>loading = l, data = Some \<lparr>paymentMethods = None\<rparr>\<rparr> = []"
  "rows_of \<lparr>loading = l, data = Some \<lparr>paymentMethods = Some rows\<rparr>\<rparr> = rows"
  by (simp_all add: rows_of_def)

lemma PaymentMethods_cases:
  "PaymentMethods st q =
     (if loading q then Ok (Element ''p'' [] [Text (js ''Loading...'')])
      else case data q of
        None \<Rightarrow> Ok (Element ''div'' [(''className'', PString ''container'')]
                  [header_view, add_form (newMethod st), Element ''List'' [] [Expr JUndefined]])
      | Some qd \<Rightarrow>
          (case paymentMethods qd of
             None \<Rightarrow> Err TypeError
           | Some rows \<Rightarrow>
               Ok (Element ''div'' [(''className'', PString ''container'')]
                  [header_view, add_form (newMethod st),
                   Element ''List'' [] (map method_item rows)])))"
  by (simp add: PaymentMethods_def methods_list_def split: option.splits)

text \<open>
  Property C13. The handlers that can fire on the returned tree are exactly the
  specified controls, in document order: none while loading, the form's two
  when there is no data, the form's and each row's \<open>row_callbacks\<close> otherwise;
  rendering fails with a \<open>TypeError\<close> when \<open>data\<close> has no \<open>paymentMethods\<close> array.
\<close>

theorem page_controls:
  "map_sum id enabled_handlers (PaymentMethods st q) =
     (if loading q then Ok []
      else case data q of
        None \<Rightarrow> Ok form_callbacks
      | Some qd \<Rightarrow>
          (case paymentMethods qd of
             None \<Rightarrow> Err TypeError
           | Some rows \<Rightarrow> Ok (form_callbacks @ concat (map row_callbacks rows))))"
  by (simp add: PaymentMethods_cases comp_def split: option.splits)

lemma offered_eq:
  "offered st q =
     (if loading q \<or> (\<exists>qd. data q = Some qd \<and> paymentMethods qd = None) then []
      else form_callbacks @ concat (map row_callbacks (rows_of q)))"
  by (auto simp: offered_def PaymentMethods_cases rows_of_def comp_def split: option.splits)

lemma in_row_callbacks_iff:
  "(ev, c) \<in> set (row_callbacks m) \<longleftrightarrow>
     ev = ''onClick'' \<and> js_not (get_field m ''isActive'') \<and>
     (c = CallHandleActivate (get_field m ''id'') \<or> c = CallHandleDeleteMethod (get_field m ''id''))"
  by (auto simp: row_callbacks_def)

text \<open>
  Property C5. Delete guard: if the page lets the user call
  \<open>handleDeleteMethod\<close> with an identifier, then some row of the list has that
  identifier and is not active. No control deletes through an active row.
\<close>

theorem delete_only_inactive:
  assumes "PaymentMethods st q = Ok page"
    and "(ev, CallHandleDeleteMethod v) \<in> set (enabled_handlers page)"
  shows "\<exists>m \<in> set (rows_of q). get_field m ''id'' = v \<and> \<not> to_boolean (get_field m ''isActive'')"
proof -
  from assms have "(ev, CallHandleDeleteMethod v) \<in> set (offered st q)"
    by (simp add: offered_def)
  then show ?thesis
    by (auto simp: offered_eq form_callbacks_def in_row_callbacks_iff js_not_def
        split: if_splits)
qed

text \<open>The list of the specification's example: Visa is active, Amex is not.\<close>

definition visa_amex :: "js_object list" where
  "visa_amex =
     [[(''id'', JNumber 1), (''method'', JString (js ''Visa'')), (''isActive'', JBool True),
       (''dateCreated'', JNull)],
      [(''id'', JNumber 2), (''method'', JString (js ''Amex'')), (''isActive'', JBool False),
       (''dateCreated'', JString (js ''1/2/2024''))]]"

theorem delete_only_inactive_witness:
  "\<exists>page. PaymentMethods initial_state
       \<lparr>loading = False, data = Some \<lparr>paymentMethods = Some visa_amex\<rparr>\<rparr> = Ok page \<and>
     (''onClick'', CallHandleDeleteMethod (JNumber 2)) \<in> set (enabled_handlers page) \<and>
     (''onClick'', CallHandleDeleteMethod (JNumber 1)) \<notin> set (enabled_handlers page)"
proof -
  let ?q = "\<lparr>loading = False, data = Some \<lparr>paymentMethods = Some visa_amex\<rparr>\<rparr>"
  obtain page where page: "PaymentMethods initial_state ?q = Ok page"
    by (simp add: PaymentMethods_cases)
  then have h: "enabled_handlers page = offered initial_state ?q"
    by (simp add: offered_def)
  have 2: "(''onClick'', CallHandleDeleteMethod (JNumber 2)) \<in> set (enabled_handlers page)"
    unfolding h by (simp add: offered_eq visa_amex_def row_callbacks_def)
  have "(''onClick'', CallHandleDeleteMethod (JNumber 1)) \<notin> set (enabled_handlers page)"
    using delete_only_inactive [OF page, of "''onClick''" "JNumber 1"]
    by (auto simp: visa_amex_def)
  with page 2 show ?thesis by blast
qed

text \<open>
  Property C31. Every row renders exactly one delete control, whether the row
  is active or not; the control is disabled exactly when the row is active,
  and an \<open>Activate\<close> button exists exactly when it is not.
\<close>

theorem delete_control_always_rendered:
  "elements_of_type ''IconButton'' (method_item m) = [delete_control m] \<and>
   is_disabled (delete_control m) = to_boolean (get_field m ''isActive'') \<and>
   elements_of_type ''Button'' (method_item m) =
     (if to_boolean (get_field m ''isActive'') then [] else [activate_control m])"
  by (simp add: elements_of_type_def item_defs js_not_def)

text \<open>
  Property C32. The list shows the rows in the order of the array, one
  \<open>ListItem\<close> per row, keyed by the row's \<open>id\<close>: the component does not reorder,
  drop or merge rows.
\<close>

theorem items_follow_rows:
  "map_sum id (\<lambda>l. map element_key (element_children l))
     (methods_list (Some \<lparr>paymentMethods = Some rows\<rparr>)) =
   Ok (map (\<lambda>m. get_field m ''id'') rows)"
  by (simp add: methods_list_def comp_def element_key_def method_item_def)

lemma shown_status_view:
  "shown (status_view m) =
     [JString (if to_boolean (get_field m ''isActive'') then js ''Active'' else js ''Inactive'')]"
  by (simp add: status_view_def)

lemma shown_created_view:
  "shown (created_view m) =
     JString (js ''Created '') #
     shown (Expr (js_or (get_field m ''dateCreated'') (JString (js ''(unknown)''))) :: callback element)"
  by (simp add: created_view_def)

text \<open>
  Property C33. A row whose \<open>dateCreated\<close> is missing, \<open>null\<close> or empty shows
  \<open>Created (unknown)\<close>; a row with a non-empty date string shows that string.
  The status line reads \<open>Active\<close> or \<open>Inactive\<close> by the truthiness of \<open>isActive\<close>,
  and an inactive row also shows the caption of its \<open>Activate\<close> button.
\<close>

theorem item_text:
  assumes "get_field m ''dateCreated'' \<in> {JUndefined, JNull, JString []} \<and> d = js ''(unknown)'' \<or>
           get_field m ''dateCreated'' = JString d \<and> d \<noteq> []"
  shows "shown (method_item m) =
     [JString (if to_boolean (get_field m ''isActive'') then js ''Active'' else js ''Inactive''),
      JString (js ''Created ''), JString d] @
     (if to_boolean (get_field m ''isActive'') then [] else [JString (js ''Activate'')])"
proof -
  from assms have "js_or (get_field m ''dateCreated'') (JString (js ''(unknown)'')) = JString d"
    by (auto simp: js_or_def truthy_def)
  moreover from assms have "d \<noteq> []" by auto
  ultimately show ?thesis
    by (cases d) (simp_all add: method_item_def activate_control_def delete_control_def
        shown_status_view shown_created_view js_not_def)
qed

theorem item_text_witness:
  "map shown (map method_item visa_amex) =
     [[JString (js ''Active''), JString (js ''Created ''), JString (js ''(unknown)'')],
      [JString (js ''Inactive''), JString (js ''Created ''), JString (js ''1/2/2024''),
       JString (js ''Activate'')]]"
  using item_text [of "visa_amex ! 0" "js ''(unknown)''"] item_text [of "visa_amex ! 1" "js ''1/2/2024''"]
  by (simp add: visa_amex_def)

end
