(* ===== verification/Remote_Store.thy ===== *)
theory Remote_Store
  imports GraphQL_Documents
begin

text \<open>
  The remote store behind the API, as the specification describes it: the
  authoritative list of payment methods with their parents, and the four
  operations list, set-active, add and delete with their errors. The store is
  not part of the repository's sources; it is modelled from the
  specification so that the component can be run against it. \<open>serve\<close> is the
  API: it resolves the root field of a request with the arguments bound to
  the request's variables and answers with the selected fields. The lemmas
  give the invariant of the store (unique identifiers, at most one active
  method per parent), its preservation by every operation, and the effect of
  each operation on the list of a parent, errors included.
\<close>

section \<open>State\<close>

datatype remote_error = RemoteUnavailable | NotFound | Forbidden | InvalidInput | Rejected

record payment_method =
  pm_id :: int
  pm_label :: js_string
  pm_isActive :: bool
  pm_createdAt :: "js_string option"
  pm_parentId :: int

text \<open>
  \<open>acl\<close> holds the pairs of a user and a parent on which that user may act;
  identifiers are handed out from \<open>next_id\<close>.
\<close>

record store =
  methods :: "payment_method list"
  next_id :: int
  acl :: "(int \<times> int) list"

section \<open>The four operations\<close>

definition list_methods :: "store \<Rightarrow> int \<Rightarrow> payment_method list" where
  "list_methods s p = filter (\<lambda>m. pm_parentId m = p) (methods s)"

definition find_method :: "store \<Rightarrow> int \<Rightarrow> int \<Rightarrow> payment_method option" where
  "find_method s p i = find (\<lambda>m. pm_id m = i) (list_methods s p)"

definition set_active ::
    "store \<Rightarrow> int \<Rightarrow> int \<Rightarrow> int \<Rightarrow> (remote_error, store \<times> payment_method) result" where
  "set_active s u p i =
     (if (u, p) \<notin> set (acl s) then Err Forbidden
      else case find_method s p i of
        None \<Rightarrow> Err NotFound
      | Some m \<Rightarrow>
          Ok (s\<lparr>methods :=
                  map (\<lambda>x. if pm_parentId x = p then x\<lparr>pm_isActive := (pm_id x = i)\<rparr> else x)
                    (methods s)\<rparr>,
              m\<lparr>pm_isActive := True\<rparr>))"

definition add_method ::
    "store \<Rightarrow> int \<Rightarrow> int \<Rightarrow> js_string \<Rightarrow> js_string \<Rightarrow>
     (remote_error, store \<times> payment_method) result" where
  "add_method s u p l c =
     (if (u, p) \<notin> set (acl s) then Err Forbidden
      else if l = [] then Err InvalidInput
      else let m = \<lparr>pm_id = next_id s, pm_label = l, pm_isActive = False,
                     pm_createdAt = Some c, pm_parentId = p\<rparr>
           in Ok (s\<lparr>methods := methods s @ [m], next_id := next_id s + 1\<rparr>, m))"

definition delete_method :: "store \<Rightarrow> int \<Rightarrow> int \<Rightarrow> int \<Rightarrow> (remote_error, store) result" where
  "delete_method s u p i =
     (if (u, p) \<notin> set (acl s) then Err Forbidden
      else case find_method s p i of
        None \<Rightarrow> Err NotFound
      | Some m \<Rightarrow>
          if pm_isActive m then Err Rejected
          else Ok (s\<lparr>methods := filter (\<lambda>x. \<not> (pm_parentId x = p \<and> pm_id x = i)) (methods s)\<rparr>))"

lemmas store_op_defs [store_defs] =
  list_methods_def find_method_def set_active_def add_method_def delete_method_def

section \<open>The API\<close>

text \<open>
  A method as the API presents it, under the field names of the schema, and
  the part of it that a selection set asks for.
\<close>

definition to_object :: "payment_method \<Rightarrow> js_object" where
  "to_object m =
     [(''id'', JNumber (pm_id m)), (''method'', JString (pm_label m)),
      (''isActive'', JBool (pm_isActive m)),
      (''dateCreated'', case pm_createdAt m of None \<Rightarrow> JNull | Some c \<Rightarrow> JString c)]"

definition select_fields :: "string list \<Rightarrow> js_object \<Rightarrow> js_object" where
  "select_fields sel obj = filter (\<lambda>(k, v). k \<in> set sel) obj"

text \<open>The value of an argument of the root field: that of the variable bound to it.\<close>

definition arg_value :: "request \<Rightarrow> string \<Rightarrow> js_value" where
  "arg_value r a =
     (case map_of (arguments (req_document r)) a of
        None \<Rightarrow> JUndefined
      | Some v \<Rightarrow> get_field (req_variables r) v)"

definition long_arg :: "request \<Rightarrow> string \<Rightarrow> int option" where
  "long_arg r a = (case arg_value r a of JNumber n \<Rightarrow> Some n | _ \<Rightarrow> None)"

definition string_arg :: "request \<Rightarrow> string \<Rightarrow> js_string option" where
  "string_arg r a = (case arg_value r a of JString x \<Rightarrow> Some x | _ \<Rightarrow> None)"

datatype response_data = Rows "js_object list" | Row js_object | Deleted

type_synonym response = "(remote_error, response_data) result"

text \<open>The answer to a mutation that returns a method: the store moves on success only.\<close>

fun reply :: "store \<Rightarrow> string list \<Rightarrow> (remote_error, store \<times> payment_method) result \<Rightarrow>
    store \<times> response" where
  "reply s sel (Inl e) = (s, Err e)"
| "reply s sel (Inr (s', m)) = (s', Ok (Row (select_fields sel (to_object m))))"

fun reply_deleted :: "store \<Rightarrow> (remote_error, store) result \<Rightarrow> store \<times> response" where
  "reply_deleted s (Inl e) = (s, Err e)"
| "reply_deleted s (Inr s') = (s', Ok Deleted)"

text \<open>
  \<open>serve\<close> resolves the root field. An argument that is missing or of the
  wrong type, and an unknown field, are answered with \<open>InvalidInput\<close>.
\<close>

definition serve :: "store \<Rightarrow> request \<Rightarrow> store \<times> response" where
  "serve s r =
     (let sel = selection (req_document r); f = root_field (req_document r) in
      if f = ''paymentMethods'' then
        (case long_arg r ''parentId'' of
           None \<Rightarrow> (s, Err InvalidInput)
         | Some p \<Rightarrow>
             (s, Ok (Rows (map (\<lambda>m. select_fields sel (to_object m)) (list_methods s p)))))
      else if f = ''setActivePaymentMethod'' then
        (case (long_arg r ''userId'', long_arg r ''parentId'', long_arg r ''methodId'') of
           (Some u, Some p, Some i) \<Rightarrow> reply s sel (set_active s u p i)
         | _ \<Rightarrow> (s, Err InvalidInput))
      else if f = ''addPaymentMethod'' then
        (case (long_arg r ''userId'', long_arg r ''parentId'', string_arg r ''method'',
               string_arg r ''dateCreated'') of
           (Some u, Some p, Some l, Some c) \<Rightarrow> reply s sel (add_method s u p l c)
         | _ \<Rightarrow> (s, Err InvalidInput))
      else if f = ''deletePaymentMethod'' then
        (case (long_arg r ''userId'', long_arg r ''parentId'', long_arg r ''methodId'') of
           (Some u, Some p, Some i) \<Rightarrow> reply_deleted s (delete_method s u p i)
         | _ \<Rightarrow> (s, Err InvalidInput))
      else (s, Err InvalidInput))"

section \<open>Invariant\<close>

text \<open>
  Identifiers are unique and below \<open>next_id\<close>, labels are non-empty, and among
  the methods of one parent at most one is active.
\<close>

definition store_inv :: "store \<Rightarrow> bool" where
  "store_inv s \<longleftrightarrow>
     distinct (map pm_id (methods s)) \<and>
     list_all (\<lambda>m. pm_id m < next_id s \<and> pm_label m \<noteq> []) (methods s) \<and>
     list_all (\<lambda>m. at_most_one pm_isActive (list_methods s (pm_parentId m))) (methods s)"

definition empty_store :: "(int \<times> int) list \<Rightarrow> store" where
  "empty_store a = \<lparr>methods = [], next_id = 1, acl = a\<rparr>"

section \<open>Abstract registry\<close>

text \<open>
  What the store promises about one parent: the identifiers of its methods in
  order, and which of them, if any, is active. Activation sets \<open>active\<close>;
  deletion of the active method is refused.
\<close>

record registry =
  members :: "int list"
  active :: "int option"

definition active_of :: "payment_method list \<Rightarrow> int option" where
  "active_of xs = (case filter pm_isActive xs of [] \<Rightarrow> None | m # _ \<Rightarrow> Some (pm_id m))"

definition registry_of :: "store \<Rightarrow> int \<Rightarrow> registry" where
  "registry_of s p =
     \<lparr>members = map pm_id (list_methods s p), active = active_of (list_methods s p)\<rparr>"

definition reg_set_active :: "int \<Rightarrow> registry \<Rightarrow> (remote_error, registry) result" where
  "reg_set_active i r = (if i \<in> set (members r) then Ok (r\<lparr>active := Some i\<rparr>) else Err NotFound)"

definition reg_add :: "int \<Rightarrow> registry \<Rightarrow> registry" where
  "reg_add i r = r\<lparr>members := members r @ [i]\<rparr>"

definition reg_delete :: "int \<Rightarrow> registry \<Rightarrow> (remote_error, registry) result" where
  "reg_delete i r =
     (if i \<notin> set (members r) then Err NotFound
      else if active r = Some i then Err Rejected
      else Ok (r\<lparr>members := removeAll i (members r)\<rparr>))"

section \<open>Effect of the operations on a parent's list\<close>

lemma find_method_Some:
  "find_method s p i = Some m \<Longrightarrow> m \<in> set (list_methods s p) \<and> pm_id m = i"
  unfolding find_method_def by (auto dest: find_Some_inD)

lemma find_method_None_iff:
  "find_method s p i = None \<longleftrightarrow> i \<notin> pm_id ` set (list_methods s p)"
  by (auto simp: find_method_def find_None_iff)

lemma in_list_methods [simp]:
  "m \<in> set (list_methods s p) \<longleftrightarrow> m \<in> set (methods s) \<and> pm_parentId m = p"
  by (auto simp: list_methods_def)

lemma filter_parent_map:
  "filter (\<lambda>m. pm_parentId m = q)
     (map (\<lambda>x. if pm_parentId x = p then x\<lparr>pm_isActive := b x\<rparr> else x) xs) =
   (if q = p then map (\<lambda>x. x\<lparr>pm_isActive := b x\<rparr>) (filter (\<lambda>m. pm_parentId m = p) xs)
    else filter (\<lambda>m. pm_parentId m = q) xs)"
  by (induction xs) auto

lemma filter_parent_filter:
  "filter (\<lambda>m. pm_parentId m = q) (filter (\<lambda>x. \<not> (pm_parentId x = p \<and> pm_id x = i)) xs) =
   (if q = p then filter (\<lambda>x. pm_id x \<noteq> i) (filter (\<lambda>m. pm_parentId m = p) xs)
    else filter (\<lambda>m. pm_parentId m = q) xs)"
  by (induction xs) auto

lemma set_active_OkD:
  assumes "set_active s u p i = Ok (s', m)"
  shows "(u, p) \<in> set (acl s)" and "find_method s p i = Some (m\<lparr>pm_isActive := pm_isActive (the (find_method s p i))\<rparr>)"
    and "s' = s\<lparr>methods :=
      map (\<lambda>x. if pm_parentId x = p then x\<lparr>pm_isActive := (pm_id x = i)\<rparr> else x) (methods s)\<rparr>"
  using assms by (auto simp: set_active_def split: if_splits option.splits)

lemma list_methods_set_active:
  assumes "set_active s u p i = Ok (s', m)"
  shows "list_methods s' q =
     (if q = p then map (\<lambda>x. x\<lparr>pm_isActive := (pm_id x = i)\<rparr>) (list_methods s p)
      else list_methods s q)"
  unfolding set_active_OkD(3) [OF assms] list_methods_def
  by (simp add: filter_parent_map)

lemma list_methods_add_method:
  assumes "add_method s u p l c = Ok (s', m)"
  shows "list_methods s' q = (if q = p then list_methods s p @ [m] else list_methods s q)"
    and "m = \<lparr>pm_id = next_id s, pm_label = l, pm_isActive = False,
               pm_createdAt = Some c, pm_parentId = p\<rparr>"
    and "next_id s' = next_id s + 1" and "acl s' = acl s"
  using assms by (auto simp: add_method_def list_methods_def Let_def split: if_splits)

lemma list_methods_delete_method:
  assumes "delete_method s u p i = Ok s'"
  shows "list_methods s' q =
     (if q = p then filter (\<lambda>x. pm_id x \<noteq> i) (list_methods s p) else list_methods s q)"
proof -
  from assms have "s' = s\<lparr>methods := filter (\<lambda>x. \<not> (pm_parentId x = p \<and> pm_id x = i)) (methods s)\<rparr>"
    by (auto simp: delete_method_def split: if_splits option.splits)
  then show ?thesis
    unfolding list_methods_def by (auto intro!: filter_cong)
qed

section \<open>Every operation keeps the invariant\<close>

lemma store_inv_active: "store_inv s \<Longrightarrow> at_most_one pm_isActive (list_methods s p)"
proof (cases "list_methods s p")
  case Nil
  then show ?thesis by simp
next
  case (Cons m ms)
  then have "m \<in> set (list_methods s p)" by simp
  moreover assume "store_inv s"
  ultimately show ?thesis
    by (auto simp: store_inv_def list_all_iff)
qed

lemma store_inv_alt:
  "store_inv s \<longleftrightarrow>
     distinct (map pm_id (methods s)) \<and>
     (\<forall>m \<in> set (methods s). pm_id m < next_id s \<and> pm_label m \<noteq> []) \<and>
     (\<forall>p. at_most_one pm_isActive (list_methods s p))"
  using store_inv_active [of s] by (auto simp: store_inv_def list_all_iff)

lemma store_inv_empty [simp]: "store_inv (empty_store a)"
  by (simp add: store_inv_def empty_store_def)

lemma distinct_ids_list_methods:
  "distinct (map pm_id (methods s)) \<Longrightarrow> distinct (map pm_id (list_methods s p))"
  by (simp add: list_methods_def distinct_map_filter)

lemma id_update_active [simp]:
  "pm_id \<circ> (\<lambda>x. if c x then x\<lparr>pm_isActive := b x\<rparr> else x) = pm_id"
  by (auto simp: fun_eq_iff)

lemma store_inv_set_active:
  assumes "store_inv s" and "set_active s u p i = Ok (s', m)"
  shows "store_inv s'"
proof -
  note s' = set_active_OkD(3) [OF assms(2)]
  from assms(1) have d: "distinct (map pm_id (methods s))"
    and b: "\<forall>m \<in> set (methods s). pm_id m < next_id s \<and> pm_label m \<noteq> []"
    and a: "\<And>q. at_most_one pm_isActive (list_methods s q)"
    by (simp_all add: store_inv_alt)
  have "at_most_one pm_isActive (list_methods s' q)" for q
    using a distinct_ids_list_methods [OF d, of p]
    by (simp add: list_methods_set_active [OF assms(2)] at_most_one_map at_most_one_key)
  moreover from d have "distinct (map pm_id (methods s'))"
    by (simp add: s')
  moreover from b have "\<forall>m \<in> set (methods s'). pm_id m < next_id s' \<and> pm_label m \<noteq> []"
    by (auto simp: s')
  ultimately show ?thesis
    by (simp add: store_inv_alt)
qed

lemma store_inv_add_method:
  assumes "store_inv s" and "add_method s u p l c = Ok (s', m)"
  shows "store_inv s'"
proof -
  note m = list_methods_add_method [OF assms(2)]
  from assms(2) have s': "methods s' = methods s @ [m]" and l: "l \<noteq> []"
    by (auto simp: add_method_def Let_def split: if_splits)
  from assms(1) have d: "distinct (map pm_id (methods s))"
    and b: "\<forall>m \<in> set (methods s). pm_id m < next_id s \<and> pm_label m \<noteq> []"
    and a: "\<And>q. at_most_one pm_isActive (list_methods s q)"
    by (simp_all add: store_inv_alt)
  have "at_most_one pm_isActive (list_methods s' q)" for q
    using a by (simp add: m(1)) (simp add: m(2))
  moreover from d b have "distinct (map pm_id (methods s'))"
    by (auto simp: s' m(2))
  moreover from b l have "\<forall>x \<in> set (methods s'). pm_id x < next_id s' \<and> pm_label x \<noteq> []"
    by (auto simp: s' m(3)) (simp_all add: m(2))
  ultimately show ?thesis
    by (simp add: store_inv_alt)
qed

lemma store_inv_delete_method:
  assumes "store_inv s" and "delete_method s u p i = Ok s'"
  shows "store_inv s'"
proof -
  from assms(2) have s': "s' = s\<lparr>methods := filter (\<lambda>x. \<not> (pm_parentId x = p \<and> pm_id x = i)) (methods s)\<rparr>"
    by (auto simp: delete_method_def split: if_splits option.splits)
  from assms(1) have d: "distinct (map pm_id (methods s))"
    and b: "\<forall>m \<in> set (methods s). pm_id m < next_id s \<and> pm_label m \<noteq> []"
    and a: "\<And>q. at_most_one pm_isActive (list_methods s q)"
    by (simp_all add: store_inv_alt)
  have "at_most_one pm_isActive (list_methods s' q)" for q
    using a by (simp add: list_methods_delete_method [OF assms(2)] at_most_one_filter)
  moreover from d have "distinct (map pm_id (methods s'))"
    by (simp add: s' distinct_map_filter)
  moreover from b have "\<forall>m \<in> set (methods s'). pm_id m < next_id s' \<and> pm_label m \<noteq> []"
    by (auto simp: s')
  ultimately show ?thesis
    by (simp add: store_inv_alt)
qed

section \<open>Outcomes\<close>

lemma set_active_eq:
  "set_active s u p i =
     (if (u, p) \<notin> set (acl s) then Err Forbidden
      else if i \<notin> pm_id ` set (list_methods s p) then Err NotFound
      else Ok (s\<lparr>methods :=
                  map (\<lambda>x. if pm_parentId x = p then x\<lparr>pm_isActive := (pm_id x = i)\<rparr> else x)
                    (methods s)\<rparr>,
               (the (find_method s p i))\<lparr>pm_isActive := True\<rparr>))"
  by (auto simp: set_active_def find_method_None_iff [symmetric] split: option.splits)

lemma delete_method_eq:
  "delete_method s u p i =
     (if (u, p) \<notin> set (acl s) then Err Forbidden
      else if i \<notin> pm_id ` set (list_methods s p) then Err NotFound
      else if pm_isActive (the (find_method s p i)) then Err Rejected
      else Ok (s\<lparr>methods := filter (\<lambda>x. \<not> (pm_parentId x = p \<and> pm_id x = i)) (methods s)\<rparr>))"
  by (auto simp: delete_method_def find_method_None_iff [symmetric] split: option.splits)

lemma find_method_unique:
  assumes "distinct (map pm_id (methods s))" and "m \<in> set (list_methods s p)"
  shows "find_method s p (pm_id m) = Some m"
proof -
  from assms(2) obtain m' where m': "find_method s p (pm_id m) = Some m'"
    by (cases "find_method s p (pm_id m)") (auto simp: find_method_None_iff)
  then have "m' \<in> set (methods s)" "pm_id m' = pm_id m"
    using find_method_Some [OF m'] by auto
  with assms have "m' = m"
    by (auto simp: distinct_map dest: inj_onD)
  with m' show ?thesis by simp
qed

lemma set_active_exclusive:
  assumes "store_inv s" and "set_active s u p i = Ok (s', m)"
  shows "map pm_id (filter pm_isActive (list_methods s' p)) = [i]"
proof -
  from assms(1) have d: "distinct (map pm_id (list_methods s p))"
    by (simp add: store_inv_alt distinct_ids_list_methods)
  from assms(2) have i: "i \<in> pm_id ` set (list_methods s p)"
    by (auto simp: set_active_eq split: if_splits)
  have "map pm_id (filter pm_isActive (list_methods s' p)) =
      map pm_id (filter (\<lambda>x. pm_id x = i) (list_methods s p))"
    by (simp add: list_methods_set_active [OF assms(2)] filter_map comp_def)
  with d i show ?thesis
    by (simp add: map_key_filter_key)
qed

section \<open>The API keeps the invariant\<close>

lemma reply_store_inv:
  "store_inv s \<Longrightarrow> (\<And>s' m. x = Ok (s', m) \<Longrightarrow> store_inv s') \<Longrightarrow> store_inv (fst (reply s sel x))"
  by (cases "(s, sel, x)" rule: reply.cases) auto

lemma reply_deleted_store_inv:
  "store_inv s \<Longrightarrow> (\<And>s'. x = Ok s' \<Longrightarrow> store_inv s') \<Longrightarrow> store_inv (fst (reply_deleted s x))"
  by (cases "(s, x)" rule: reply_deleted.cases) auto

lemma reply_Err [simp]: "snd (reply s sel x) = Err e \<longleftrightarrow> x = Err e"
  by (cases "(s, sel, x)" rule: reply.cases) auto

lemma reply_deleted_Err [simp]: "snd (reply_deleted s x) = Err e \<longleftrightarrow> x = Err e"
  by (cases "(s, x)" rule: reply_deleted.cases) auto

lemma serve_store_inv: "store_inv s \<Longrightarrow> store_inv (fst (serve s r))"
  by (auto simp: serve_def Let_def split: option.splits
      intro!: reply_store_inv reply_deleted_store_inv
      intro: store_inv_set_active store_inv_add_method store_inv_delete_method)

lemma serve_Err_unchanged: "snd (serve s r) = Err e \<Longrightarrow> fst (serve s r) = s"
  by (auto simp: serve_def Let_def split: option.splits if_splits)

lemma long_arg_simps [simp]:
  "map_of (arguments d) a = Some v \<Longrightarrow>
     long_arg \<lparr>req_document = d, req_variables = vs\<rparr> a =
       (case get_field vs v of JNumber n \<Rightarrow> Some n | _ \<Rightarrow> None)"
  "map_of (arguments d) a = Some v \<Longrightarrow>
     string_arg \<lparr>req_document = d, req_variables = vs\<rparr> a =
       (case get_field vs v of JString x \<Rightarrow> Some x | _ \<Rightarrow> None)"
  by (simp_all add: long_arg_def string_arg_def arg_value_def)

section \<open>The store implements the registry\<close>

lemma active_of_Some_iff:
  assumes "at_most_one pm_isActive xs"
  shows "active_of xs = Some i \<longleftrightarrow> (\<exists>m \<in> set xs. pm_id m = i \<and> pm_isActive m)"
proof
  assume "active_of xs = Some i"
  then obtain m ms where "filter pm_isActive xs = m # ms" "pm_id m = i"
    by (auto simp: active_of_def split: list.splits)
  then have "m \<in> set (filter pm_isActive xs)" by simp
  with \<open>pm_id m = i\<close> show "\<exists>m \<in> set xs. pm_id m = i \<and> pm_isActive m" by auto
next
  assume "\<exists>m \<in> set xs. pm_id m = i \<and> pm_isActive m"
  then obtain m where m: "m \<in> set xs" "pm_id m = i" "pm_isActive m" by blast
  then have "m \<in> set (filter pm_isActive xs)" by simp
  then obtain m' ms where f: "filter pm_isActive xs = m' # ms"
    by (cases "filter pm_isActive xs") auto
  then have "m' \<in> set (filter pm_isActive xs)" by simp
  then have "m' = m"
    using at_most_one_same [OF assms, of m' m] m by simp
  with f m(2) show "active_of xs = Some i"
    by (simp add: active_of_def)
qed

lemma active_of_None_iff: "active_of xs = None \<longleftrightarrow> (\<forall>m \<in> set xs. \<not> pm_isActive m)"
proof -
  have "active_of xs = None \<longleftrightarrow> filter pm_isActive xs = []"
    by (simp add: active_of_def split: list.splits)
  then show ?thesis by (simp add: filter_empty_conv)
qed

lemma refines_set_active:
  assumes "store_inv s" and "(u, p) \<in> set (acl s)"
  shows "map_sum id (\<lambda>(s', m). registry_of s' p) (set_active s u p i) =
         reg_set_active i (registry_of s p)"
proof (cases "i \<in> pm_id ` set (list_methods s p)")
  case False
  with assms(2) show ?thesis
    by (simp add: set_active_eq reg_set_active_def registry_of_def)
next
  case True
  with assms(2) obtain s' m where ok: "set_active s u p i = Ok (s', m)"
    by (simp add: set_active_eq)
  from assms(1) have "store_inv s'"
    using ok by (rule store_inv_set_active)
  then have "at_most_one pm_isActive (list_methods s' p)"
    by (rule store_inv_active)
  moreover have "\<exists>m \<in> set (list_methods s' p). pm_id m = i \<and> pm_isActive m"
  proof -
    from set_active_exclusive [OF assms(1) ok]
    obtain m where "filter pm_isActive (list_methods s' p) = [m]" "pm_id m = i"
      by (cases "filter pm_isActive (list_methods s' p)") auto
    then have "m \<in> set (filter pm_isActive (list_methods s' p))" "pm_id m = i"
      by simp_all
    then show ?thesis by auto
  qed
  ultimately have "active_of (list_methods s' p) = Some i"
    by (simp add: active_of_Some_iff)
  moreover have "map pm_id (list_methods s' p) = map pm_id (list_methods s p)"
    by (simp add: list_methods_set_active [OF ok] comp_def)
  ultimately show ?thesis
    using True by (simp add: ok reg_set_active_def registry_of_def)
qed

lemma refines_add_method:
  assumes "(u, p) \<in> set (acl s)" and "l \<noteq> []"
  shows "map_sum id (\<lambda>(s', m). registry_of s' p) (add_method s u p l c) =
         Ok (reg_add (next_id s) (registry_of s p))"
proof -
  from assms obtain s' m where ok: "add_method s u p l c = Ok (s', m)"
    by (simp add: add_method_def Let_def)
  note m = list_methods_add_method [OF ok]
  have "active_of (list_methods s' p) = active_of (list_methods s p)"
    by (simp add: m(1) active_of_def) (simp add: m(2))
  then show ?thesis
    by (simp add: ok registry_of_def reg_add_def m(1)) (simp add: m(2))
qed

lemma refines_delete_method:
  assumes "store_inv s" and "(u, p) \<in> set (acl s)"
  shows "map_sum id (\<lambda>s'. registry_of s' p) (delete_method s u p i) =
         reg_delete i (registry_of s p)"
proof (cases "i \<in> pm_id ` set (list_methods s p)")
  case False
  with assms(2) show ?thesis
    by (simp add: delete_method_eq reg_delete_def registry_of_def)
next
  case True
  from assms(1) have d: "distinct (map pm_id (methods s))"
    and a: "at_most_one pm_isActive (list_methods s p)"
    by (simp_all add: store_inv_alt)
  from True obtain m where m: "m \<in> set (list_methods s p)" "pm_id m = i" by auto
  with d have f: "find_method s p i = Some m"
    using find_method_unique by blast
  have act: "active_of (list_methods s p) = Some i \<longleftrightarrow> pm_isActive m"
  proof -
    have "(\<exists>x \<in> set (list_methods s p). pm_id x = i \<and> pm_isActive x) \<longleftrightarrow> pm_isActive m"
      using m d find_method_unique [OF d, of _ p] f by (metis option.inject)
    then show ?thesis by (simp add: active_of_Some_iff [OF a])
  qed
  show ?thesis
  proof (cases "pm_isActive m")
    case True
    with assms(2) m act f show ?thesis
      by (simp add: delete_method_eq reg_delete_def registry_of_def image_iff)
  next
    case False
    with assms(2) True f obtain s' where ok: "delete_method s u p i = Ok s'"
      by (simp add: delete_method_eq)
    have "filter pm_isActive (filter (\<lambda>x. pm_id x \<noteq> i) (list_methods s p)) =
        filter pm_isActive (list_methods s p)"
      using False m d find_method_unique [OF d, of _ p] f
      by (auto intro!: filter_cong) (metis option.inject)
    then have "active_of (list_methods s' p) = active_of (list_methods s p)"
      by (simp add: list_methods_delete_method [OF ok] active_of_def)
    with False act True show ?thesis
      by (simp add: ok reg_delete_def registry_of_def list_methods_delete_method [OF ok]
          map_filter_neq_key)
  qed
qed

lemma registry_of_other_parent:
  "q \<noteq> p \<Longrightarrow> set_active s u p i = Ok (s', m) \<Longrightarrow> registry_of s' q = registry_of s q"
  "q \<noteq> p \<Longrightarrow> add_method s u p l c = Ok (s', m) \<Longrightarrow> registry_of s' q = registry_of s q"
  "q \<noteq> p \<Longrightarrow> delete_method s u p i = Ok s' \<Longrightarrow> registry_of s' q = registry_of s q"
  by (simp_all add: registry_of_def list_methods_set_active list_methods_add_method(1)
      list_methods_delete_method)

lemma reply_registry:
  "map_sum id (\<lambda>d. registry_of (fst (reply s sel x)) p) (snd (reply s sel x)) =
   map_sum id (\<lambda>(s', m). registry_of s' p) x"
  by (cases "(s, sel, x)" rule: reply.cases) auto

lemma reply_deleted_registry:
  "map_sum id (\<lambda>d. registry_of (fst (reply_deleted s x)) p) (snd (reply_deleted s x)) =
   map_sum id (\<lambda>s'. registry_of s' p) x"
  by (cases "(s, x)" rule: reply_deleted.cases) auto

section \<open>The API on the four documents\<close>

lemma serve_GET:
  "get_field vs ''parentId'' = JNumber p \<Longrightarrow>
   serve s \<lparr>req_document = GET_PAYMENT_METHODS, req_variables = vs\<rparr> =
     (s, Ok (Rows (map (\<lambda>m. select_fields (selection GET_PAYMENT_METHODS) (to_object m))
                    (list_methods s p))))"
  by (simp add: serve_def Let_def GET_PAYMENT_METHODS_def long_arg_def arg_value_def)

lemma serve_SET_ACTIVE:
  assumes "get_field vs ''userId'' = JNumber u" and "get_field vs ''parentId'' = JNumber p"
    and "get_field vs ''methodId'' = JNumber i"
  shows "serve s \<lparr>req_document = SET_ACTIVE_PAYMENT_METHOD, req_variables = vs\<rparr> =
     reply s (selection SET_ACTIVE_PAYMENT_METHOD) (set_active s u p i)"
  using assms
  by (simp add: serve_def Let_def SET_ACTIVE_PAYMENT_METHOD_def long_arg_def arg_value_def)

lemma serve_ADD:
  assumes "get_field vs ''userId'' = JNumber u" and "get_field vs ''parentId'' = JNumber p"
    and "get_field vs ''method'' = JString l" and "get_field vs ''dateCreated'' = JString c"
  shows "serve s \<lparr>req_document = ADD_PAYMENT_METHOD, req_variables = vs\<rparr> =
     reply s (selection ADD_PAYMENT_METHOD) (add_method s u p l c)"
  using assms
  by (simp add: serve_def Let_def ADD_PAYMENT_METHOD_def long_arg_def string_arg_def
      arg_value_def)

lemma serve_DELETE:
  assumes "get_field vs ''userId'' = JNumber u" and "get_field vs ''parentId'' = JNumber p"
    and "get_field vs ''methodId'' = JNumber i"
  shows "serve s \<lparr>req_document = DELETE_PAYMENT_METHOD, req_variables = vs\<rparr> =
     reply_deleted s (delete_method s u p i)"
  using assms
  by (simp add: serve_def Let_def DELETE_PAYMENT_METHOD_def long_arg_def arg_value_def)

lemma not_InvalidInput [simp]:
  "set_active s u p i \<noteq> Err InvalidInput"
  "delete_method s u p i \<noteq> Err InvalidInput"
  "add_method s u p l c = Err InvalidInput \<longleftrightarrow> (u, p) \<in> set (acl s) \<and> l = []"
  by (auto simp: set_active_def delete_method_def add_method_def Let_def split: option.splits)

end
