(* ===== verification/Session.thy ===== *)
theory Session
  imports Payment_Methods Remote_Store
begin

text \<open>
  One mounted \<open>PaymentMethods\<close> component talking to the remote store over a
  network that delays, reorders and loses packets. The state holds the
  component's state, the result of its query, the store, and the packets in
  flight. An event is one atomic step: the user triggers a control that the
  current page offers, the store handles a request, the client receives a
  response, the network drops a request or a response, or another session
  writes to the store. \<open>fire\<close> performs one event, \<open>run\<close> a sequence, and
  \<open>reachable_by\<close> collects the states reachable with a given kind of events.

  The client side follows the hooks of the component: a fulfilled mutation
  runs its \<open>then\<close> callback and refetches the query when the hook lists it in
  \<open>refetchQueries\<close>; a failed mutation does neither; a query response is
  applied unless a response to a newer request was applied before.
\<close>

section \<open>State\<close>

datatype packet =
    MutationRequest mutation_hook variables then_callback
  | MutationResponse mutation_hook then_callback response
  | QueryRequest nat request
  | QueryResponse nat response

text \<open>
  \<open>issued\<close> numbers the query requests sent so far, \<open>applied\<close> is the number of
  the newest request whose response reached the component, and \<open>last_error\<close>
  is the error of that response, if it was one.
\<close>

record session =
  parent :: int
  component :: component_state
  query :: query_result
  remote :: store
  network :: "packet list"
  issued :: nat
  applied :: nat
  last_error :: "remote_error option"

text \<open>Mounting the component: empty input, loading, and the first query on its way.\<close>

definition mount :: "int \<Rightarrow> store \<Rightarrow> session" where
  "mount p s0 =
     \<lparr>parent = p, component = initial_state, query = \<lparr>loading = True, data = None\<rparr>,
      remote = s0, network = [QueryRequest 1 (useQuery_request p)],
      issued = 1, applied = 0, last_error = None\<rparr>"

section \<open>Steps\<close>

datatype event =
    Trigger string callback js_string js_string
  | Serve nat
  | Deliver nat
  | DropRequest nat
  | DropResponse nat
  | Foreign request

text \<open>The mutation calls among the effects of a handler become requests.\<close>

fun effect_packets :: "effect \<Rightarrow> packet list" where
  "effect_packets PreventDefault = []"
| "effect_packets (Mutate h vs k) = [MutationRequest h vs k]"

definition mutation_packets :: "effect list \<Rightarrow> packet list" where
  "mutation_packets effs = concat (map effect_packets effs)"

text \<open>The refetch after a fulfilled mutation of hook \<open>h\<close>.\<close>

definition refetch_packets :: "session \<Rightarrow> mutation_hook \<Rightarrow> packet list" where
  "refetch_packets s h =
     (if req_document (useQuery_request (parent s)) \<in> set (refetchQueries h)
      then [QueryRequest (Suc (issued s)) (useQuery_request (parent s))]
      else [])"

definition apply_query_response :: "nat \<Rightarrow> response \<Rightarrow> session \<Rightarrow> session" where
  "apply_query_response n resp s =
     (if n \<le> applied s then s
      else case resp of
        Inl e \<Rightarrow> s\<lparr>query := (query s)\<lparr>loading := False\<rparr>, applied := n, last_error := Some e\<rparr>
      | Inr d \<Rightarrow>
          s\<lparr>query := \<lparr>loading = False,
                        data = Some \<lparr>paymentMethods =
                          (case d of Rows rows \<Rightarrow> Some rows | _ \<Rightarrow> None)\<rparr>\<rparr>,
            applied := n, last_error := None\<rparr>)"

fun client_receive :: "packet \<Rightarrow> session \<Rightarrow> session option" where
  "client_receive (MutationResponse h k (Inr d)) s =
     Some (s\<lparr>component := run_then k (component s),
             network := network s @ refetch_packets s h,
             issued := issued s + length (refetch_packets s h)\<rparr>)"
| "client_receive (MutationResponse h k (Inl e)) s = Some s"
| "client_receive (QueryResponse n resp) s = Some (apply_query_response n resp s)"
| "client_receive (MutationRequest h vs k) s = None"
| "client_receive (QueryRequest n r) s = None"

fun server_receive :: "packet \<Rightarrow> store \<Rightarrow> (store \<times> packet) option" where
  "server_receive (MutationRequest h vs k) st =
     Some (fst (serve st \<lparr>req_document = mutation h, req_variables = vs\<rparr>),
           MutationResponse h k (snd (serve st \<lparr>req_document = mutation h, req_variables = vs\<rparr>)))"
| "server_receive (QueryRequest n r) st =
     Some (fst (serve st r), QueryResponse n (snd (serve st r)))"
| "server_receive (MutationResponse h k resp) st = None"
| "server_receive (QueryResponse n resp) st = None"

fun lose_request :: "packet \<Rightarrow> packet option" where
  "lose_request (MutationRequest h vs k) = Some (MutationResponse h k (Err RemoteUnavailable))"
| "lose_request (QueryRequest n r) = Some (QueryResponse n (Err RemoteUnavailable))"
| "lose_request (MutationResponse h k resp) = None"
| "lose_request (QueryResponse n resp) = None"

fun lose_response :: "packet \<Rightarrow> packet option" where
  "lose_response (MutationResponse h k (Inr d)) =
     Some (MutationResponse h k (Err RemoteUnavailable))"
| "lose_response (QueryResponse n (Inr d)) = Some (QueryResponse n (Err RemoteUnavailable))"
| "lose_response (MutationResponse h k (Inl e)) = None"
| "lose_response (QueryResponse n (Inl e)) = None"
| "lose_response (MutationRequest h vs k) = None"
| "lose_response (QueryRequest n r) = None"

fun fire :: "event \<Rightarrow> session \<Rightarrow> session option" where
  "fire (Trigger ev c input now) s =
     (if (ev, c) \<in> set (offered (component s) (query s))
      then Some (s\<lparr>component := fst (invoke (parent s) (component s) c input now),
                   network := network s @
                     mutation_packets (snd (invoke (parent s) (component s) c input now))\<rparr>)
      else None)"
| "fire (Serve i) s =
     (if i < length (network s)
      then case server_receive (network s ! i) (remote s) of
             None \<Rightarrow> None
           | Some (st, p) \<Rightarrow> Some (s\<lparr>remote := st, network := (network s)[i := p]\<rparr>)
      else None)"
| "fire (Deliver i) s =
     (if i < length (network s)
      then client_receive (network s ! i) (s\<lparr>network := remove_at i (network s)\<rparr>)
      else None)"
| "fire (DropRequest i) s =
     (if i < length (network s)
      then case lose_request (network s ! i) of
             None \<Rightarrow> None
           | Some p \<Rightarrow> Some (s\<lparr>network := (network s)[i := p]\<rparr>)
      else None)"
| "fire (DropResponse i) s =
     (if i < length (network s)
      then case lose_response (network s ! i) of
             None \<Rightarrow> None
           | Some p \<Rightarrow> Some (s\<lparr>network := (network s)[i := p]\<rparr>)
      else None)"
| "fire (Foreign r) s = Some (s\<lparr>remote := fst (serve (remote s) r)\<rparr>)"

fun run :: "event list \<Rightarrow> session \<Rightarrow> session option" where
  "run [] s = Some s"
| "run (e # es) s = (case fire e s of None \<Rightarrow> None | Some s' \<Rightarrow> run es s')"

text \<open>
  The states reachable from a mount on a store that satisfies its invariant,
  by events of the kind \<open>ok\<close>.
\<close>

inductive reachable_by :: "(event \<Rightarrow> bool) \<Rightarrow> session \<Rightarrow> bool" for ok where
  mounted: "store_inv s0 \<Longrightarrow> reachable_by ok (mount p s0)"
| step: "reachable_by ok s \<Longrightarrow> ok e \<Longrightarrow> fire e s = Some s' \<Longrightarrow> reachable_by ok s'"

abbreviation reachable :: "session \<Rightarrow> bool" where
  "reachable \<equiv> reachable_by (\<lambda>e. True)"

text \<open>Events of a network that loses no response, in a store nobody else writes to.\<close>

fun reliable :: "event \<Rightarrow> bool" where
  "reliable (DropResponse i) = False"
| "reliable (Foreign r) = False"
| "reliable (Trigger ev c input now) = True"
| "reliable (Serve i) = True"
| "reliable (Deliver i) = True"
| "reliable (DropRequest i) = True"

text \<open>The list the store would answer right now, as rows.\<close>

definition fresh_rows :: "session \<Rightarrow> js_object list" where
  "fresh_rows s =
     map (\<lambda>m. select_fields (selection GET_PAYMENT_METHODS) (to_object m))
       (list_methods (remote s) (parent s))"

section \<open>Example sessions\<close>

text \<open>
  The store of the specification's scenario: parent 7 owns Visa, which is
  active, and Amex, which is not. \<open>loaded\<close> is the session after the first
  list has arrived, \<open>clicked\<close> is the session after the first
  list has arrived and the user has clicked \<open>Activate\<close> on Amex, \<open>served\<close> the
  session after the store has handled that request, and \<open>activated\<close> the
  session after the mutation and its refetch have gone through.
\<close>

definition visa_amex_store :: store where
  "visa_amex_store =
     \<lparr>methods =
        [\<lparr>pm_id = 1, pm_label = js ''Visa'', pm_isActive = True,
          pm_createdAt = Some (js ''1/1/2024''), pm_parentId = 7\<rparr>,
         \<lparr>pm_id = 2, pm_label = js ''Amex'', pm_isActive = False,
          pm_createdAt = None, pm_parentId = 7\<rparr>],
      next_id = 3, acl = [(7, 7)]\<rparr>"

definition amex :: payment_method where
  "amex = \<lparr>pm_id = 2, pm_label = js ''Amex'', pm_isActive = False,
           pm_createdAt = None, pm_parentId = 7\<rparr>"

definition loaded :: session where
  "loaded = the (run [Serve 0, Deliver 0] (mount 7 visa_amex_store))"

definition visa :: payment_method where
  "visa = \<lparr>pm_id = 1, pm_label = js ''Visa'', pm_isActive = True,
           pm_createdAt = Some (js ''1/1/2024''), pm_parentId = 7\<rparr>"

text \<open>
  \<open>typed_discover\<close>: on an empty store, the first list has arrived and the
  user has typed a label with blanks around it. \<open>outdated\<close>: another session
  has deleted Amex after the list arrived.
\<close>

definition typed_discover :: session where
  "typed_discover =
     the (run [Serve 0, Deliver 0, Trigger ''onChange'' CallSetNewMethod (js ''  Discover '') []]
            (mount 7 (empty_store [(7, 7)])))"

definition outdated :: session where
  "outdated =
     the (run [Foreign \<lparr>req_document = DELETE_PAYMENT_METHOD,
                        req_variables = [(''userId'', JNumber 7), (''parentId'', JNumber 7),
                                         (''methodId'', JNumber 2)]\<rparr>] loaded)"

definition click_activate :: "event list" where
  "click_activate =
     [Serve 0, Deliver 0, Trigger ''onClick'' (CallHandleActivate (JNumber 2)) [] []]"

definition settle :: "event list" where
  "settle = [Serve 0, Deliver 0, Serve 0, Deliver 0]"

definition clicked :: session where
  "clicked = the (run click_activate (mount 7 visa_amex_store))"

definition served :: session where
  "served = the (run [Serve 0] clicked)"

definition activated :: session where
  "activated = the (run settle clicked)"

section \<open>The steps, case by case\<close>

lemma refetch_packets_update [simp]:
  "refetch_packets (s\<lparr>network := ns\<rparr>) h = refetch_packets s h"
  "refetch_packets (s\<lparr>component := c\<rparr>) h = refetch_packets s h"
  "refetch_packets (s\<lparr>remote := st\<rparr>) h = refetch_packets s h"
  by (simp_all add: refetch_packets_def)

lemma fireE [consumes 1, case_names Trigger ServeMutation ServeQuery Fulfilled Failed Answer
    DropMutation DropQuery LoseMutation LoseQuery Foreign]:
  assumes "fire e s = Some s'"
  obtains
    (Trigger) ev c input now where "e = Trigger ev c input now"
      and "(ev, c) \<in> set (offered (component s) (query s))"
      and "s' = s\<lparr>component := fst (invoke (parent s) (component s) c input now),
             network := network s @
               mutation_packets (snd (invoke (parent s) (component s) c input now))\<rparr>"
  | (ServeMutation) i h vs k where "e = Serve i" and "i < length (network s)"
      and "network s ! i = MutationRequest h vs k"
      and "s' = s\<lparr>remote := fst (serve (remote s) \<lparr>req_document = mutation h, req_variables = vs\<rparr>),
             network := (network s)[i := MutationResponse h k
               (snd (serve (remote s) \<lparr>req_document = mutation h, req_variables = vs\<rparr>))]\<rparr>"
  | (ServeQuery) i n r where "e = Serve i" and "i < length (network s)"
      and "network s ! i = QueryRequest n r"
      and "s' = s\<lparr>remote := fst (serve (remote s) r),
             network := (network s)[i := QueryResponse n (snd (serve (remote s) r))]\<rparr>"
  | (Fulfilled) i h k d where "e = Deliver i" and "i < length (network s)"
      and "network s ! i = MutationResponse h k (Ok d)"
      and "s' = s\<lparr>component := run_then k (component s),
             network := remove_at i (network s) @ refetch_packets s h,
             issued := issued s + length (refetch_packets s h)\<rparr>"
  | (Failed) i h k err where "e = Deliver i" and "i < length (network s)"
      and "network s ! i = MutationResponse h k (Err err)"
      and "s' = s\<lparr>network := remove_at i (network s)\<rparr>"
  | (Answer) i n resp where "e = Deliver i" and "i < length (network s)"
      and "network s ! i = QueryResponse n resp"
      and "s' = apply_query_response n resp (s\<lparr>network := remove_at i (network s)\<rparr>)"
  | (DropMutation) i h vs k where "e = DropRequest i" and "i < length (network s)"
      and "network s ! i = MutationRequest h vs k"
      and "s' = s\<lparr>network := (network s)[i := MutationResponse h k (Err RemoteUnavailable)]\<rparr>"
  | (DropQuery) i n r where "e = DropRequest i" and "i < length (network s)"
      and "network s ! i = QueryRequest n r"
      and "s' = s\<lparr>network := (network s)[i := QueryResponse n (Err RemoteUnavailable)]\<rparr>"
  | (LoseMutation) i h k d where "e = DropResponse i" and "i < length (network s)"
      and "network s ! i = MutationResponse h k (Ok d)"
      and "s' = s\<lparr>network := (network s)[i := MutationResponse h k (Err RemoteUnavailable)]\<rparr>"
  | (LoseQuery) i n d where "e = DropResponse i" and "i < length (network s)"
      and "network s ! i = QueryResponse n (Ok d)"
      and "s' = s\<lparr>network := (network s)[i := QueryResponse n (Err RemoteUnavailable)]\<rparr>"
  | (Foreign) r where "e = Foreign r" and "s' = s\<lparr>remote := fst (serve (remote s) r)\<rparr>"
proof (cases e)
  case (Trigger ev c input now)
  with assms that(1) show ?thesis by (auto split: if_splits)
next
  case (Serve i)
  with assms that(2,3) show ?thesis
    by (cases "network s ! i") (auto split: if_splits)
next
  case (Deliver i)
  with assms that(4,5,6) show ?thesis
    by (cases "(network s ! i, s)" rule: client_receive.cases) (auto split: if_splits)
next
  case (DropRequest i)
  with assms that(7,8) show ?thesis
    by (cases "network s ! i") (auto split: if_splits)
next
  case (DropResponse i)
  with assms that(9,10) show ?thesis
    by (cases "network s ! i" rule: lose_response.cases) (auto split: if_splits)
next
  case (Foreign r)
  with assms that(11) show ?thesis by auto
qed

section \<open>Runs and reachability\<close>

lemma run_append: "run (es @ es') s = (case run es s of None \<Rightarrow> None | Some s' \<Rightarrow> run es' s')"
  by (induction es arbitrary: s) (auto split: option.splits)

lemma reachable_by_mono:
  "reachable_by ok s \<Longrightarrow> (\<And>e. ok e \<Longrightarrow> ok' e) \<Longrightarrow> reachable_by ok' s"
  by (induction rule: reachable_by.induct) (auto intro: reachable_by.intros)

lemma reachable_by_run:
  "reachable_by ok s \<Longrightarrow> list_all ok es \<Longrightarrow> run es s = Some s' \<Longrightarrow> reachable_by ok s'"
proof (induction es arbitrary: s)
  case Nil
  then show ?case by simp
next
  case (Cons e es)
  then show ?case
    by (auto split: option.splits intro: reachable_by.step)
qed

lemma reachable_the_run:
  "reachable_by ok s \<Longrightarrow> list_all ok es \<Longrightarrow> run es s \<noteq> None \<Longrightarrow>
   reachable_by ok (the (run es s))"
  by (auto intro: reachable_by_run)

lemma reachable_reliable: "reachable_by reliable s \<Longrightarrow> reachable s"
  by (erule reachable_by_mono) simp

lemma store_inv_visa_amex: "store_inv visa_amex_store"
  by code_simp

lemma reachable_loaded: "reachable_by reliable loaded"
  unfolding loaded_def
  by (rule reachable_the_run [OF reachable_by.mounted [OF store_inv_visa_amex]]) (simp, code_simp)

lemma reachable_typed_discover: "reachable_by reliable typed_discover"
  unfolding typed_discover_def
  by (rule reachable_the_run [OF reachable_by.mounted [OF store_inv_empty]]) (simp, code_simp)

lemma reachable_outdated: "reachable outdated"
  unfolding outdated_def
  by (rule reachable_the_run [OF reachable_loaded [THEN reachable_reliable]]) (simp, code_simp)

lemma reachable_clicked: "reachable_by reliable clicked"
  unfolding clicked_def
  by (rule reachable_the_run [OF reachable_by.mounted [OF store_inv_visa_amex]])
    (simp add: click_activate_def, code_simp)

lemma reachable_served: "reachable_by reliable served"
  unfolding served_def
  by (rule reachable_the_run [OF reachable_clicked]) (simp, code_simp)

lemma reachable_activated: "reachable_by reliable activated"
  unfolding activated_def
  by (rule reachable_the_run [OF reachable_clicked]) (simp add: settle_def, code_simp)

lemmas reachable_examples =
  reachable_clicked [THEN reachable_reliable] reachable_served [THEN reachable_reliable]
  reachable_activated [THEN reachable_reliable] reachable_loaded [THEN reachable_reliable]

end
