(* ===== verification/Session_Safety.thy ===== *)
theory Session_Safety
  imports Session
begin

text \<open>
  Well-formedness of a session, and its preservation by every step, whatever
  the network and other sessions do. A session is well-formed when the store
  satisfies its invariant, every packet in flight has the shape its kind
  prescribes (\<open>packet_ok\<close>), and the component holds either no data or a list
  that is a well-formed snapshot (\<open>view_ok\<close>). The theorems at the end read
  off what this gives in every reachable state: the page shows at most one
  active method, rendering never raises, the requests are valid input for the
  store, and no delete request is dispatched for a row shown as active.
\<close>

section \<open>Well-formedness\<close>

text \<open>The three mutation hooks of the component.\<close>

definition hooks :: "mutation_hook list" where
  "hooks = [setActivePaymentMethod, addPaymentMethod, deletePaymentMethod]"

definition row_ok :: "js_object \<Rightarrow> bool" where
  "row_ok r \<longleftrightarrow>
     (case get_field r ''id'' of JNumber n \<Rightarrow> True | _ \<Rightarrow> False) \<and>
     (case get_field r ''isActive'' of JBool b \<Rightarrow> True | _ \<Rightarrow> False) \<and>
     (case get_field r ''method'' of JString l \<Rightarrow> l \<noteq> [] | _ \<Rightarrow> False)"

definition view_ok :: "js_object list \<Rightarrow> bool" where
  "view_ok rows \<longleftrightarrow>
     list_all row_ok rows \<and>
     distinct (map (\<lambda>r. get_field r ''id'') rows) \<and>
     at_most_one (\<lambda>r. to_boolean (get_field r ''isActive'')) rows"

definition response_ok :: "response \<Rightarrow> bool" where
  "response_ok resp \<longleftrightarrow>
     (case resp of Inl e \<Rightarrow> e \<noteq> InvalidInput
      | Inr d \<Rightarrow> (case d of Rows rows \<Rightarrow> view_ok rows | _ \<Rightarrow> False))"

fun packet_ok :: "int \<Rightarrow> packet \<Rightarrow> bool" where
  "packet_ok p (MutationRequest h vs k) \<longleftrightarrow>
     h \<in> set hooks \<and> variables_conform (mutation h) vs \<and>
     get_field vs ''userId'' = JNumber p \<and> get_field vs ''parentId'' = JNumber p \<and>
     (h \<noteq> addPaymentMethod \<or>
      (case get_field vs ''method'' of JString l \<Rightarrow> l \<noteq> [] \<and> trimmed l | _ \<Rightarrow> False))"
| "packet_ok p (MutationResponse h k resp) \<longleftrightarrow> h \<in> set hooks \<and> resp \<noteq> Err InvalidInput"
| "packet_ok p (QueryRequest n r) \<longleftrightarrow> r = useQuery_request p"
| "packet_ok p (QueryResponse n resp) \<longleftrightarrow> response_ok resp"

definition session_ok :: "session \<Rightarrow> bool" where
  "session_ok s \<longleftrightarrow>
     store_inv (remote s) \<and> list_all (packet_ok (parent s)) (network s) \<and>
     (case data (query s) of None \<Rightarrow> True
      | Some qd \<Rightarrow> (case paymentMethods qd of None \<Rightarrow> False | Some rows \<Rightarrow> view_ok rows))"

section \<open>Rows of the store\<close>

lemma select_fields_GET [simp]:
  "select_fields (selection GET_PAYMENT_METHODS) (to_object m) = to_object m"
  "select_fields [''id'', ''method'', ''isActive'', ''dateCreated''] (to_object m) = to_object m"
  by (simp_all add: select_fields_def to_object_def GET_PAYMENT_METHODS_def)

lemma get_field_to_object [simp]:
  "get_field (to_object m) ''id'' = JNumber (pm_id m)"
  "get_field (to_object m) ''method'' = JString (pm_label m)"
  "get_field (to_object m) ''isActive'' = JBool (pm_isActive m)"
  by (simp_all add: to_object_def)

lemma fresh_rows_eq: "fresh_rows s = map to_object (list_methods (remote s) (parent s))"
  by (simp add: fresh_rows_def)

lemma serve_query [simp]:
  "serve s (useQuery_request p) = (s, Ok (Rows (map to_object (list_methods s p))))"
  by (simp add: useQuery_request_def serve_GET [of _ p])

lemma view_ok_store:
  assumes "store_inv s"
  shows "view_ok (map to_object (list_methods s p))"
proof -
  from assms have d: "distinct (map pm_id (list_methods s p))"
    and l: "\<forall>m \<in> set (methods s). pm_label m \<noteq> []"
    and a: "at_most_one pm_isActive (list_methods s p)"
    by (simp_all add: store_inv_alt distinct_ids_list_methods)
  from d have "distinct (map (\<lambda>r. get_field r ''id'') (map to_object (list_methods s p)))"
    by (simp add: comp_def distinct_map inj_on_def)
  moreover from l have "list_all row_ok (map to_object (list_methods s p))"
    by (simp add: list_all_iff row_ok_def)
  ultimately show ?thesis
    using a by (simp add: view_ok_def at_most_one_map)
qed

section \<open>Requests of the component are valid input\<close>

lemma in_hooks: "h \<in> set hooks \<longleftrightarrow> h = setActivePaymentMethod \<or> h = addPaymentMethod \<or> h = deletePaymentMethod"
  by (auto simp: hooks_def)

lemma serve_hook_valid:
  assumes "packet_ok p (MutationRequest h vs k)"
  shows "snd (serve st \<lparr>req_document = mutation h, req_variables = vs\<rparr>) \<noteq> Err InvalidInput"
proof -
  from assms have c: "variables_conform (mutation h) vs"
    and u: "get_field vs ''userId'' = JNumber p" "get_field vs ''parentId'' = JNumber p"
    by simp_all
  from assms consider "h = setActivePaymentMethod" | "h = addPaymentMethod"
    | "h = deletePaymentMethod"
    by (auto simp: in_hooks)
  then show ?thesis
  proof cases
    case 1
    with c obtain i where "get_field vs ''methodId'' = JNumber i"
      using variables_conform_Long [of "mutation h" vs "''methodId''"]
      by (auto simp: doc_defs)
    with 1 u show ?thesis
      by (simp add: setActivePaymentMethod_def serve_SET_ACTIVE)
  next
    case 2
    with c obtain d where "get_field vs ''dateCreated'' = JString d"
      using variables_conform_String [of "mutation h" vs "''dateCreated''"]
      by (auto simp: doc_defs)
    moreover from 2 assms obtain l where "get_field vs ''method'' = JString l" "l \<noteq> []"
      by (auto split: js_value.splits)
    ultimately show ?thesis
      using 2 u by (simp add: addPaymentMethod_def serve_ADD)
  next
    case 3
    with c obtain i where "get_field vs ''methodId'' = JNumber i"
      using variables_conform_Long [of "mutation h" vs "''methodId''"]
      by (auto simp: doc_defs)
    with 3 u show ?thesis
      by (simp add: deletePaymentMethod_def serve_DELETE)
  qed
qed

section \<open>Requests built by the handlers\<close>

lemma in_mutation_packets:
  "pk \<in> set (mutation_packets effs) \<longleftrightarrow> (\<exists>h vs k. pk = MutationRequest h vs k \<and> Mutate h vs k \<in> set effs)"
proof (induction effs)
  case Nil
  then show ?case by (simp add: mutation_packets_def)
next
  case (Cons e effs)
  then show ?case by (cases e) (auto simp: mutation_packets_def)
qed

lemma offered_row:
  assumes "(ev, c) \<in> set (offered st q)"
    and "c = CallHandleActivate v \<or> c = CallHandleDeleteMethod v"
  shows "\<exists>m \<in> set (rows_of q). get_field m ''id'' = v \<and> \<not> to_boolean (get_field m ''isActive'')"
  using assms
  by (auto simp: offered_eq form_callbacks_def in_row_callbacks_iff js_not_def split: if_splits)

lemma row_ok_id: "row_ok m \<Longrightarrow> \<exists>n. get_field m ''id'' = JNumber n"
  by (auto simp: row_ok_def split: js_value.splits)

lemma packet_ok_invoke:
  assumes "(ev, c) \<in> set (offered st q)" and "list_all row_ok (rows_of q)"
    and "pk \<in> set (mutation_packets (snd (invoke p st c input now)))"
  shows "packet_ok p pk"
proof -
  from assms(3) obtain h vs k where pk: "pk = MutationRequest h vs k"
    and m: "Mutate h vs k \<in> set (snd (invoke p st c input now))"
    by (auto simp: in_mutation_packets)
  have n: "\<exists>n. v = JNumber n" if "c = CallHandleActivate v \<or> c = CallHandleDeleteMethod v" for v
    using offered_row [OF assms(1) that] assms(2) by (auto simp: list_all_iff dest: row_ok_id)
  show ?thesis
  proof (cases c)
    case CallHandleAddMethod
    with m show ?thesis
      by (auto simp: pk handleAddMethod_def in_hooks doc_defs variables_conform_def truthy_def
          trimmed_trim split: if_splits)
  next
    case CallSetNewMethod
    with m show ?thesis by simp
  next
    case (CallHandleActivate v)
    with m n [of v] show ?thesis
      by (auto simp: pk handleActivate_def in_hooks doc_defs variables_conform_def)
  next
    case (CallHandleDeleteMethod v)
    with m n [of v] show ?thesis
      by (auto simp: pk handleDeleteMethod_def in_hooks doc_defs variables_conform_def)
  qed
qed

section \<open>Every step keeps the session well-formed\<close>

lemma session_ok_mount: "store_inv s0 \<Longrightarrow> session_ok (mount p s0)"
  by (simp add: session_ok_def mount_def)

lemma session_ok_view: "session_ok s \<Longrightarrow> view_ok (rows_of (query s))"
  by (auto simp: session_ok_def rows_of_def view_ok_def split: option.splits)

lemma server_receive_ok:
  assumes "packet_ok p pk" and "store_inv st" and "server_receive pk st = Some (st', pk')"
  shows "packet_ok p pk' \<and> store_inv st'"
proof (cases pk)
  case (MutationRequest h vs k)
  with assms serve_hook_valid [of p h vs k st] show ?thesis
    by (auto simp: serve_store_inv)
next
  case (QueryRequest n r)
  with assms show ?thesis
    by (auto simp: response_ok_def view_ok_store)
qed (use assms in simp_all)

lemma lose_request_ok: "packet_ok p pk \<Longrightarrow> lose_request pk = Some pk' \<Longrightarrow> packet_ok p pk'"
  by (cases pk) (auto simp: response_ok_def)

lemma lose_response_ok: "packet_ok p pk \<Longrightarrow> lose_response pk = Some pk' \<Longrightarrow> packet_ok p pk'"
  by (cases pk rule: lose_response.cases) (auto simp: response_ok_def)

lemma parent_client_receive: "client_receive pk s = Some s' \<Longrightarrow> parent s' = parent s"
  by (cases "(pk, s)" rule: client_receive.cases)
    (auto simp: apply_query_response_def split: sum.splits)

lemma parent_fire: "fire e s = Some s' \<Longrightarrow> parent s' = parent s"
  by (cases e) (auto split: if_splits option.splits dest: parent_client_receive)

lemma client_receive_ok:
  assumes "session_ok s" and "packet_ok (parent s) pk" and "client_receive pk s = Some s'"
  shows "session_ok s'"
proof (cases "(pk, s)" rule: client_receive.cases)
  case (1 h k d s0)
  with assms show ?thesis
    by (auto simp: session_ok_def refetch_packets_def)
next
  case (2 h k e s0)
  with assms show ?thesis by simp
next
  case (3 n resp s0)
  with assms show ?thesis
    by (auto simp: session_ok_def apply_query_response_def response_ok_def
        split: sum.splits response_data.splits)
qed (use assms in simp_all)

lemma session_ok_nth: "session_ok s \<Longrightarrow> i < length (network s) \<Longrightarrow> packet_ok (parent s) (network s ! i)"
  by (simp add: session_ok_def list_all_nth)

lemma session_ok_update:
  "session_ok s \<Longrightarrow> packet_ok (parent s) pk \<Longrightarrow> session_ok (s\<lparr>network := (network s)[i := pk]\<rparr>)"
  by (simp add: session_ok_def list_all_update)

lemma session_ok_fire:
  assumes "session_ok s" and "fire e s = Some s'"
  shows "session_ok s'"
proof (cases e)
  case (Trigger ev c input now)
  with assms have o: "(ev, c) \<in> set (offered (component s) (query s))"
    and s': "s' = s\<lparr>component := fst (invoke (parent s) (component s) c input now),
        network := network s @
          mutation_packets (snd (invoke (parent s) (component s) c input now))\<rparr>"
    by (auto split: if_splits)
  from session_ok_view [OF assms(1)] have "list_all row_ok (rows_of (query s))"
    by (simp add: view_ok_def)
  with o have "packet_ok (parent s) pk"
    if "pk \<in> set (mutation_packets (snd (invoke (parent s) (component s) c input now)))" for pk
    using that by (rule packet_ok_invoke)
  with assms(1) show ?thesis
    by (auto simp: s' session_ok_def list_all_iff)
next
  case (Serve i)
  with assms obtain st pk where i: "i < length (network s)"
    and r: "server_receive (network s ! i) (remote s) = Some (st, pk)"
    and s': "s' = s\<lparr>remote := st, network := (network s)[i := pk]\<rparr>"
    by (auto split: if_splits option.splits)
  from assms(1) r session_ok_nth [OF assms(1) i]
  have "packet_ok (parent s) pk \<and> store_inv st"
    by (auto simp: session_ok_def dest: server_receive_ok)
  with assms(1) show ?thesis
    by (simp add: s' session_ok_def list_all_update)
next
  case (Deliver i)
  with assms have i: "i < length (network s)"
    and r: "client_receive (network s ! i) (s\<lparr>network := remove_at i (network s)\<rparr>) = Some s'"
    by (auto split: if_splits)
  from assms(1) have "session_ok (s\<lparr>network := remove_at i (network s)\<rparr>)"
    by (simp add: session_ok_def list_all_remove_at)
  from client_receive_ok [OF this _ r] session_ok_nth [OF assms(1) i] show ?thesis
    by simp
next
  case (DropRequest i)
  with assms obtain pk where i: "i < length (network s)"
    and r: "lose_request (network s ! i) = Some pk"
    and s': "s' = s\<lparr>network := (network s)[i := pk]\<rparr>"
    by (auto split: if_splits option.splits)
  from lose_request_ok [OF session_ok_nth [OF assms(1) i] r] assms(1) show ?thesis
    unfolding s' by (rule session_ok_update [rotated])
next
  case (DropResponse i)
  with assms obtain pk where i: "i < length (network s)"
    and r: "lose_response (network s ! i) = Some pk"
    and s': "s' = s\<lparr>network := (network s)[i := pk]\<rparr>"
    by (auto split: if_splits option.splits)
  from lose_response_ok [OF session_ok_nth [OF assms(1) i] r] assms(1) show ?thesis
    unfolding s' by (rule session_ok_update [rotated])
next
  case (Foreign r)
  with assms show ?thesis
    by (auto simp: session_ok_def serve_store_inv)
qed

lemma reachable_session_ok: "reachable_by ok s \<Longrightarrow> session_ok s"
  by (induction rule: reachable_by.induct) (auto intro: session_ok_mount session_ok_fire)

section \<open>What holds in every reachable state\<close>

text \<open>
  Property C4. Whatever the network and other sessions do, the store keeps
  its invariant and the list on the page is a well-formed snapshot: every row
  has a numeric identifier, a boolean \<open>isActive\<close> and a non-empty label, no
  identifier occurs twice, and at most one row is active.
\<close>

theorem reachable_view_ok:
  assumes "reachable s"
  shows "store_inv (remote s) \<and> view_ok (rows_of (query s))"
  using reachable_session_ok [OF assms] session_ok_view [of s]
  by (simp add: session_ok_def)

theorem reachable_view_ok_witness:
  "view_ok (rows_of (query activated)) \<and> length (rows_of (query activated)) = 2"
proof -
  have "length (rows_of (query activated)) = 2"
    by code_simp
  with reachable_view_ok [OF reachable_examples(3)] show ?thesis
    by simp
qed

text \<open>
  Property C19. Rendering never raises: in every reachable state the component
  returns a tree, because \<open>data\<close> is either absent or holds the
  \<open>paymentMethods\<close> array.
\<close>

theorem render_never_raises:
  assumes "reachable s"
  shows "is_ok (PaymentMethods (component s) (query s))"
  using reachable_session_ok [OF assms]
  by (auto simp: session_ok_def PaymentMethods_cases split: option.splits)

theorem render_never_raises_witness:
  "is_ok (PaymentMethods (component clicked) (query clicked)) \<and> \<not> loading (query clicked)"
proof -
  have "\<not> loading (query clicked)"
    by code_simp
  with render_never_raises [OF reachable_examples(1)] show ?thesis
    by simp
qed

text \<open>
  Property C20. Every mutation request in flight was built by one of the three
  hooks, is a valid document with variables of the declared types, and names
  the parent of the component both as \<open>userId\<close> and as \<open>parentId\<close>.
\<close>

theorem requests_valid:
  assumes "reachable s" and "MutationRequest h vs k \<in> set (network s)"
  shows "h \<in> set hooks \<and> request_ok \<lparr>req_document = mutation h, req_variables = vs\<rparr> \<and>
         get_field vs ''userId'' = JNumber (parent s) \<and>
         get_field vs ''parentId'' = JNumber (parent s)"
proof -
  from reachable_session_ok [OF assms(1)] assms(2)
  have "packet_ok (parent s) (MutationRequest h vs k)"
    by (auto simp: session_ok_def list_all_iff)
  then show ?thesis
    by (auto simp: request_ok_def in_hooks hook_defs)
qed

theorem requests_valid_witness:
  "network clicked =
     [MutationRequest setActivePaymentMethod
        [(''userId'', JNumber 7), (''parentId'', JNumber 7), (''methodId'', JNumber 2)]
        NoThen] \<and>
   request_ok \<lparr>req_document = mutation setActivePaymentMethod,
               req_variables =
                 [(''userId'', JNumber 7), (''parentId'', JNumber 7),
                  (''methodId'', JNumber 2)]\<rparr>"
proof -
  have n: "network clicked =
     [MutationRequest setActivePaymentMethod
        [(''userId'', JNumber 7), (''parentId'', JNumber 7), (''methodId'', JNumber 2)]
        NoThen]"
    by code_simp
  with requests_valid [OF reachable_examples(1), of setActivePaymentMethod
      "[(''userId'', JNumber 7), (''parentId'', JNumber 7), (''methodId'', JNumber 2)]" NoThen]
  show ?thesis by simp
qed

text \<open>
  Property C21. The store never answers the component with \<open>InvalidInput\<close>:
  empty labels are stopped by the handler, and every variable has its type.
\<close>

theorem never_invalid_input:
  assumes "reachable s"
  shows "MutationResponse h k (Err InvalidInput) \<notin> set (network s) \<and>
         QueryResponse n (Err InvalidInput) \<notin> set (network s)"
  using reachable_session_ok [OF assms]
  by (auto simp: session_ok_def list_all_iff response_ok_def)

theorem never_invalid_input_witness:
  "MutationResponse setActivePaymentMethod NoThen (Err InvalidInput) \<notin> set (network served) \<and>
   length (network served) = 1"
proof -
  have "length (network served) = 1"
    by code_simp
  with never_invalid_input [OF reachable_examples(2)] show ?thesis
    by simp
qed

text \<open>
  Property C9. Delete guard, in every reachable state: for a row that the
  page shows as active, no event calls \<open>handleDeleteMethod\<close> with its
  identifier, so no delete request for it is dispatched.
\<close>

theorem delete_active_not_dispatched:
  assumes "reachable s" and "r \<in> set (rows_of (query s))"
    and "to_boolean (get_field r ''isActive'')"
  shows "fire (Trigger ev (CallHandleDeleteMethod (get_field r ''id'')) input now) s = None"
proof (rule ccontr)
  assume "fire (Trigger ev (CallHandleDeleteMethod (get_field r ''id'')) input now) s \<noteq> None"
  then have "(ev, CallHandleDeleteMethod (get_field r ''id'')) \<in> set (offered (component s) (query s))"
    by (auto split: if_splits)
  then obtain m where m: "m \<in> set (rows_of (query s))" "get_field m ''id'' = get_field r ''id''"
    "\<not> to_boolean (get_field m ''isActive'')"
    using offered_row by blast
  from reachable_session_ok [OF assms(1)]
  have "distinct (map (\<lambda>r. get_field r ''id'') (rows_of (query s)))"
    by (auto dest: session_ok_view simp: view_ok_def)
  with m(1,2) assms(2) have "m = r"
    by (auto simp: distinct_map dest: inj_onD)
  with m(3) assms(3) show False by simp
qed

theorem delete_active_not_dispatched_witness:
  "fire (Trigger ''onClick'' (CallHandleDeleteMethod (JNumber 1)) [] []) loaded = None \<and>
   to_object visa \<in> set (rows_of (query loaded))"
proof -
  have "to_object visa \<in> set (rows_of (query loaded))"
    by code_simp
  with delete_active_not_dispatched [OF reachable_examples(4), of "to_object visa"]
  show ?thesis by (simp add: visa_def)
qed

end
