(* ===== verification/Session_Consistency.thy ===== *)
theory Session_Consistency
  imports Session_Safety
begin

text \<open>
  Refetch on write gives consistency. Two invariants carry the proof. The
  numbering (\<open>numbering\<close>) holds under every step: no packet is numbered
  beyond the newest query, and the newest query is either answered or in
  flight. Freshness (\<open>synced\<close>) holds under the steps of a reliable network
  with no other writer: unless a fulfilled mutation is still on its way back,
  every answer to the newest query carries the store's current list, and so
  does the page once that answer is applied. A session at rest therefore
  shows the store's list (\<open>quiescent_consistent\<close>).
\<close>

section \<open>Numbering of the queries\<close>

text \<open>The number a query packet carries, and the bound on it.\<close>

fun packet_number :: "packet \<Rightarrow> nat option" where
  "packet_number (QueryRequest n r) = Some n"
| "packet_number (QueryResponse n resp) = Some n"
| "packet_number (MutationRequest h vs k) = None"
| "packet_number (MutationResponse h k resp) = None"

definition number_ok :: "nat \<Rightarrow> packet \<Rightarrow> bool" where
  "number_ok m pk = (case packet_number pk of None \<Rightarrow> True | Some n \<Rightarrow> n \<le> m)"

definition numbering :: "session \<Rightarrow> bool" where
  "numbering s \<longleftrightarrow>
     applied s \<le> issued s \<and> list_all (number_ok (issued s)) (network s) \<and>
     (applied s = issued s \<or> list_ex (\<lambda>pk. packet_number pk = Some (issued s)) (network s))"

section \<open>Freshness of the answers\<close>

text \<open>
  A fulfilled mutation whose response has not reached the client yet: the
  store has changed and the refetch is still to be issued.
\<close>

fun fulfilled :: "packet \<Rightarrow> bool" where
  "fulfilled (MutationResponse h k (Inr d)) = True"
| "fulfilled (MutationResponse h k (Inl e)) = False"
| "fulfilled (MutationRequest h vs k) = False"
| "fulfilled (QueryRequest n r) = False"
| "fulfilled (QueryResponse n resp) = False"

definition pending_write :: "session \<Rightarrow> bool" where
  "pending_write s = list_ex fulfilled (network s)"

text \<open>An answer to the newest query carries the rows \<open>rows\<close>.\<close>

fun answer_fresh :: "nat \<Rightarrow> js_object list \<Rightarrow> packet \<Rightarrow> bool" where
  "answer_fresh m rows (QueryResponse n (Inr d)) \<longleftrightarrow> n < m \<or> d = Rows rows"
| "answer_fresh m rows (QueryResponse n (Inl e)) \<longleftrightarrow> True"
| "answer_fresh m rows (QueryRequest n r) \<longleftrightarrow> True"
| "answer_fresh m rows (MutationRequest h vs k) \<longleftrightarrow> True"
| "answer_fresh m rows (MutationResponse h k resp) \<longleftrightarrow> True"

definition shows_fresh :: "session \<Rightarrow> bool" where
  "shows_fresh s \<longleftrightarrow>
     query s = \<lparr>loading = False, data = Some \<lparr>paymentMethods = Some (fresh_rows s)\<rparr>\<rparr>"

definition synced :: "session \<Rightarrow> bool" where
  "synced s \<longleftrightarrow>
     pending_write s \<or>
     (list_all (answer_fresh (issued s) (fresh_rows s)) (network s) \<and>
      (applied s < issued s \<or> last_error s \<noteq> None \<or> shows_fresh s))"

section \<open>The numbering is kept\<close>

lemma number_ok_simps [simp]:
  "number_ok m (QueryRequest n r) = (n \<le> m)"
  "number_ok m (QueryResponse n resp) = (n \<le> m)"
  "number_ok m (MutationRequest h vs k)"
  "number_ok m (MutationResponse h k resp)"
  by (simp_all add: number_ok_def)

lemma number_ok_mono: "number_ok m pk \<Longrightarrow> m \<le> m' \<Longrightarrow> number_ok m' pk"
  by (auto simp: number_ok_def split: option.splits)

lemma number_ok_Suc: "number_ok m pk \<Longrightarrow> number_ok (Suc m) pk"
  by (erule number_ok_mono) simp

lemma number_ok_mutation_packets: "list_all (number_ok m) (mutation_packets effs)"
  by (auto simp: list_all_iff in_mutation_packets)

lemma numbering_mount: "numbering (mount p s0)"
  by (simp add: numbering_def mount_def)

lemma numbering_nth:
  "numbering s \<Longrightarrow> i < length (network s) \<Longrightarrow> number_ok (issued s) (network s ! i)"
  by (simp add: numbering_def list_all_nth)

lemma numbering_update:
  assumes "numbering s" and "packet_number pk = packet_number (network s ! i)"
    and "i < length (network s)"
  shows "numbering (s\<lparr>network := (network s)[i := pk]\<rparr>)"
proof -
  from assms have "number_ok (issued s) pk"
    using numbering_nth [OF assms(1,3)] by (simp add: number_ok_def)
  with assms show ?thesis
    by (auto simp: numbering_def list_all_update intro!: list_ex_update)
qed

lemma numbering_remove:
  assumes "numbering s" and "packet_number (network s ! i) \<noteq> Some (issued s)"
  shows "numbering (s\<lparr>network := remove_at i (network s)\<rparr>)"
  using assms by (auto simp: numbering_def list_all_remove_at intro!: list_ex_remove_at)

lemma numbering_fire:
  assumes "numbering s" and "fire e s = Some s'"
  shows "numbering s'"
  using assms(2)
proof (cases rule: fireE)
  case (Trigger ev c input now)
  with assms(1) show ?thesis
    by (auto simp: numbering_def number_ok_mutation_packets)
next
  case (ServeMutation i h vs k)
  with numbering_update [OF assms(1), of "network s' ! i" i] show ?thesis
    by (simp add: numbering_def)
next
  case (ServeQuery i n r)
  with numbering_update [OF assms(1), of "network s' ! i" i] show ?thesis
    by (simp add: numbering_def)
next
  case (Fulfilled i h k d)
  with numbering_remove [OF assms(1), of i] show ?thesis
    by (auto simp: numbering_def refetch_packets_def list_all_iff intro: number_ok_Suc)
next
  case (Failed i h k err)
  with numbering_remove [OF assms(1), of i] show ?thesis by simp
next
  case (Answer i n resp)
  show ?thesis
  proof (cases "n = issued s")
    case True
    with assms(1) Answer show ?thesis
      by (auto simp: numbering_def apply_query_response_def list_all_remove_at
          split: sum.splits)
  next
    case False
    with Answer numbering_remove [OF assms(1), of i] numbering_nth [OF assms(1), of i]
    show ?thesis
      by (auto simp: numbering_def apply_query_response_def split: sum.splits)
  qed
next
  case (DropMutation i h vs k)
  with numbering_update [OF assms(1), of "network s' ! i" i] show ?thesis
    by (simp add: numbering_def)
next
  case (DropQuery i n r)
  with numbering_update [OF assms(1), of "network s' ! i" i] show ?thesis
    by (simp add: numbering_def)
next
  case (LoseMutation i h k d)
  with numbering_update [OF assms(1), of "network s' ! i" i] show ?thesis
    by (simp add: numbering_def)
next
  case (LoseQuery i n d)
  with numbering_update [OF assms(1), of "network s' ! i" i] show ?thesis
    by (simp add: numbering_def)
next
  case (Foreign r)
  with assms(1) show ?thesis by (simp add: numbering_def)
qed

lemma reachable_numbering: "reachable_by ok s \<Longrightarrow> numbering s"
  by (induction rule: reachable_by.induct) (auto intro: numbering_mount numbering_fire)

section \<open>Reliable steps keep the answers fresh\<close>

lemma fresh_rows_update [simp]:
  "fresh_rows (s\<lparr>network := ns\<rparr>) = fresh_rows s"
  "fresh_rows (s\<lparr>component := c\<rparr>) = fresh_rows s"
  "fresh_rows (s\<lparr>issued := m\<rparr>) = fresh_rows s"
  by (simp_all add: fresh_rows_def)

lemma apply_query_response_frame [simp]:
  "network (apply_query_response n resp s) = network s"
  "issued (apply_query_response n resp s) = issued s"
  "remote (apply_query_response n resp s) = remote s"
  "parent (apply_query_response n resp s) = parent s"
  "fresh_rows (apply_query_response n resp s) = fresh_rows s"
  by (simp_all add: apply_query_response_def fresh_rows_def split: sum.splits)

lemma refetch_packets_hooks:
  "h \<in> set hooks \<Longrightarrow>
   refetch_packets s h = [QueryRequest (Suc (issued s)) (useQuery_request (parent s))]"
  by (auto simp: in_hooks refetch_packets_def hook_defs)

lemma answer_fresh_Suc: "number_ok m pk \<Longrightarrow> answer_fresh (Suc m) rows pk"
  by (cases "(m, rows, pk)" rule: answer_fresh.cases) auto

lemma not_fulfilled_mutation_packets: "pk \<in> set (mutation_packets effs) \<Longrightarrow> \<not> fulfilled pk"
  by (auto simp: in_mutation_packets)

lemma answer_fresh_mutation_packets:
  "pk \<in> set (mutation_packets effs) \<Longrightarrow> answer_fresh m rows pk"
  by (auto simp: in_mutation_packets)

lemma synced_update:
  assumes "synced s" and "\<not> fulfilled pk" and "\<not> fulfilled (network s ! i)"
    and "answer_fresh (issued s) (fresh_rows s) pk"
  shows "synced (s\<lparr>network := (network s)[i := pk]\<rparr>)"
proof (cases "pending_write s")
  case True
  with assms(3) show ?thesis
    by (auto simp: synced_def pending_write_def shows_fresh_def intro!: list_ex_update)
next
  case False
  with assms show ?thesis
    by (auto simp: synced_def pending_write_def shows_fresh_def list_all_update
        dest: list_ex_updateD)
qed

lemma synced_remove:
  assumes "synced s" and "\<not> fulfilled (network s ! i)"
  shows "synced (s\<lparr>network := remove_at i (network s)\<rparr>)"
proof (cases "pending_write s")
  case True
  with assms(2) show ?thesis
    by (auto simp: synced_def pending_write_def shows_fresh_def intro!: list_ex_remove_at)
next
  case False
  with assms show ?thesis
    by (auto simp: synced_def pending_write_def shows_fresh_def list_all_remove_at
        dest: list_ex_remove_atD)
qed

lemma synced_mount: "synced (mount p s0)"
  by (simp add: synced_def mount_def pending_write_def)

lemma synced_serve:
  assumes "synced s" and "i < length (network s)" and "\<not> fulfilled (network s ! i)"
    and "\<not> fulfilled pk \<Longrightarrow> st = remote s \<and> answer_fresh (issued s) (fresh_rows s) pk"
  shows "synced (s\<lparr>remote := st, network := (network s)[i := pk]\<rparr>)"
proof (cases "fulfilled pk")
  case True
  with assms(2) have "list_ex fulfilled ((network s)[i := pk])"
    by (auto simp: list_ex_iff intro: set_update_memI)
  then show ?thesis
    by (simp add: synced_def pending_write_def)
next
  case False
  with assms(4) have st: "st = remote s" and a: "answer_fresh (issued s) (fresh_rows s) pk"
    by simp_all
  from synced_update [OF assms(1) False assms(3) a] show ?thesis
    by (simp add: st)
qed

lemma fulfilled_serve:
  "\<not> fulfilled (MutationResponse h k (snd (serve st r))) \<Longrightarrow> fst (serve st r) = st"
  by (cases "snd (serve st r)") (auto dest: serve_Err_unchanged)

lemma synced_answer:
  assumes "synced s" and "numbering s" and "i < length (network s)"
    and "network s ! i = QueryResponse n resp"
  shows "synced (apply_query_response n resp (s\<lparr>network := remove_at i (network s)\<rparr>))"
proof -
  let ?s = "s\<lparr>network := remove_at i (network s)\<rparr>"
  from assms(1,4) have r: "synced ?s"
    by (auto intro: synced_remove)
  show ?thesis
  proof (cases "pending_write ?s")
    case True
    then show ?thesis
      by (simp add: synced_def pending_write_def)
  next
    case False
    with r have all: "list_all (answer_fresh (issued s) (fresh_rows s)) (remove_at i (network s))"
      and last: "applied s < issued s \<or> last_error s \<noteq> None \<or> shows_fresh ?s"
      by (simp_all add: synced_def)
    from False assms(4) have "\<not> pending_write s"
      using list_ex_remove_at [of fulfilled "network s" i] by (auto simp: pending_write_def)
    with assms(1,3,4) have a: "answer_fresh (issued s) (fresh_rows s) (QueryResponse n resp)"
      by (auto simp: synced_def dest: list_all_nth)
    from assms(2,3,4) have n: "n \<le> issued s"
      using numbering_nth [of s i] by simp
    have "applied (apply_query_response n resp ?s) < issued s \<or>
        last_error (apply_query_response n resp ?s) \<noteq> None \<or>
        shows_fresh (apply_query_response n resp ?s)"
      using last a n
      by (auto simp: apply_query_response_def shows_fresh_def fresh_rows_def split: sum.splits)
    with all show ?thesis
      by (simp add: synced_def)
  qed
qed

lemma synced_fire:
  assumes "synced s" and "session_ok s" and "numbering s" and "reliable e"
    and "fire e s = Some s'"
  shows "synced s'"
  using assms(5)
proof (cases rule: fireE)
  case (Trigger ev c input now)
  with assms(1) show ?thesis
    by (auto simp: synced_def pending_write_def shows_fresh_def list_all_iff list_ex_iff
        fresh_rows_def dest: not_fulfilled_mutation_packets answer_fresh_mutation_packets)
next
  case (ServeMutation i h vs k)
  with synced_serve [OF assms(1), of i "network s' ! i" "remote s'"] show ?thesis
    by (auto dest: fulfilled_serve)
next
  case (ServeQuery i n r)
  with session_ok_nth [OF assms(2), of i] have "r = useQuery_request (parent s)"
    by simp
  with ServeQuery synced_serve [OF assms(1), of i "network s' ! i" "remote s'"] show ?thesis
    by (simp add: fresh_rows_eq)
next
  case (Fulfilled i h k d)
  with session_ok_nth [OF assms(2), of i] have h: "h \<in> set hooks"
    by simp
  from assms(3) have "list_all (answer_fresh (Suc (issued s)) (fresh_rows s)) (remove_at i (network s))"
    by (auto simp: numbering_def list_all_iff dest!: in_set_remove_atD intro: answer_fresh_Suc)
  with assms(3) show ?thesis
    by (simp add: Fulfilled(4) refetch_packets_hooks [OF h] synced_def numbering_def
        fresh_rows_def)
next
  case (Failed i h k err)
  with synced_remove [OF assms(1), of i] show ?thesis by simp
next
  case (Answer i n resp)
  with synced_answer [OF assms(1,3)] show ?thesis by simp
next
  case (DropMutation i h vs k)
  with synced_update [OF assms(1), of "network s' ! i" i] show ?thesis by simp
next
  case (DropQuery i n r)
  with synced_update [OF assms(1), of "network s' ! i" i] show ?thesis by simp
qed (use assms(4) in simp_all)

lemma reachable_synced: "reachable_by reliable s \<Longrightarrow> synced s"
proof (induction rule: reachable_by.induct)
  case (mounted s0 p)
  show ?case by (rule synced_mount)
next
  case (step s e s')
  from step(1) have "session_ok s" and "numbering s"
    by (rule reachable_session_ok, rule reachable_numbering)
  with step(4) show ?case
    using step(2,3) by (rule synced_fire)
qed

lemma quiescent_shows_fresh:
  assumes "reachable_by reliable s" and "network s = []" and "last_error s = None"
  shows "shows_fresh s"
proof -
  from assms(1) have "numbering s" and "synced s"
    by (rule reachable_numbering, rule reachable_synced)
  with assms(2,3) show ?thesis
    by (simp add: numbering_def synced_def pending_write_def)
qed

text \<open>
  Property C1. Post-mutation consistency. On a network that loses no
  response, with no other session writing, a session with nothing in flight
  whose last query did not fail shows exactly the list the store holds for
  the parent, in the store's order.
\<close>

theorem quiescent_consistent:
  assumes "reachable_by reliable s" and "network s = []" and "last_error s = None"
  shows "query s = \<lparr>loading = False, data = Some \<lparr>paymentMethods = Some (fresh_rows s)\<rparr>\<rparr>"
  using quiescent_shows_fresh [OF assms] by (simp add: shows_fresh_def)

theorem quiescent_consistent_witness:
  "network activated = [] \<and> last_error activated = None \<and>
   query activated =
     \<lparr>loading = False, data = Some \<lparr>paymentMethods = Some (fresh_rows activated)\<rparr>\<rparr> \<and>
   map (\<lambda>r. get_field r ''isActive'') (fresh_rows activated) = [JBool False, JBool True]"
proof -
  have a: "network activated = []" and b: "last_error activated = None"
    and c: "map (\<lambda>r. get_field r ''isActive'') (fresh_rows activated) = [JBool False, JBool True]"
    by code_simp+
  from quiescent_consistent [OF reachable_activated a b] a b c show ?thesis
    by simp
qed

end
