(* ===== verification/Workflows.thy ===== *)
theory Workflows
  imports Session_Consistency
begin

text \<open>
  The three workflows of the component, end to end: a click or submit on a
  settled page, the request, the store's answer, the refetch and the new
  page. A fulfilled mutation takes five steps (\<open>round_trip\<close>), a failed one
  three (\<open>failed_trip\<close>), after which nothing is in flight. The last section
  holds what the component does not prevent, for every state in which it can
  happen: a response lost on its way back (\<open>lost_trip\<close>), repeated submits,
  and a query that fails before any list has arrived.
\<close>

section \<open>Definitions\<close>

definition round_trip :: "string \<Rightarrow> callback \<Rightarrow> js_string \<Rightarrow> js_string \<Rightarrow> event list" where
  "round_trip ev c input now = [Trigger ev c input now, Serve 0, Deliver 0, Serve 0, Deliver 0]"

definition failed_trip :: "string \<Rightarrow> callback \<Rightarrow> js_string \<Rightarrow> js_string \<Rightarrow> event list" where
  "failed_trip ev c input now = [Trigger ev c input now, Serve 0, Deliver 0]"

text \<open>A settled session: reachable on a reliable network, nothing in flight, no error.\<close>

definition settled :: "session \<Rightarrow> bool" where
  "settled s \<longleftrightarrow> reachable_by reliable s \<and> network s = [] \<and> last_error s = None"

text \<open>
  A fulfilled mutation whose response is lost on its way back: the client
  receives an error instead.
\<close>

definition lost_trip :: "string \<Rightarrow> callback \<Rightarrow> js_string \<Rightarrow> js_string \<Rightarrow> event list" where
  "lost_trip ev c input now = [Trigger ev c input now, Serve 0, DropResponse 0, Deliver 0]"

text \<open>
  Submits of the form in a row, one per clock value, and the request each of
  them is expected to dispatch in the session \<open>s\<close>.
\<close>

definition submits :: "js_string \<Rightarrow> js_string list \<Rightarrow> event list" where
  "submits input nows = map (\<lambda>now. Trigger ''onSubmit'' CallHandleAddMethod input now) nows"

definition add_request :: "session \<Rightarrow> js_string \<Rightarrow> packet" where
  "add_request s now =
     MutationRequest addPaymentMethod
       [(''userId'', JNumber (parent s)), (''parentId'', JNumber (parent s)),
        (''method'', JString (trim (newMethod (component s)))), (''dateCreated'', JString now)]
       (ThenSetNewMethod [])"

text \<open>A session that is not loading and has never received a list.\<close>

definition unanswered :: "session \<Rightarrow> bool" where
  "unanswered s \<longleftrightarrow> \<not> loading (query s) \<and> data (query s) = None"

text \<open>The session of the example store after its first query was lost.\<close>

definition first_fetch_lost :: session where
  "first_fetch_lost = the (run [DropRequest 0, Deliver 0] (mount 7 visa_amex_store))"

section \<open>One mutation and its refetch\<close>

lemma run_round_trip:
  assumes "network s = []" and "applied s \<le> issued s"
    and "(ev, c) \<in> set (offered (component s) (query s))"
    and "fst (invoke (parent s) (component s) c input now) = st"
    and "mutation_packets (snd (invoke (parent s) (component s) c input now)) =
      [MutationRequest h vs k]"
    and "h \<in> set hooks"
    and "serve (remote s) \<lparr>req_document = mutation h, req_variables = vs\<rparr> = (r, Ok d)"
  shows "run (round_trip ev c input now) s =
     Some (s\<lparr>component := run_then k st,
             query := \<lparr>loading = False,
                       data = Some \<lparr>paymentMethods =
                         Some (map to_object (list_methods r (parent s)))\<rparr>\<rparr>,
             remote := r, network := [], issued := Suc (issued s),
             applied := Suc (issued s), last_error := None\<rparr>)"
  using assms
  by (simp add: round_trip_def refetch_packets_hooks apply_query_response_def)

lemma invoke_keeps_state:
  "mutation_packets (snd (invoke p st c input now)) \<noteq> [] \<Longrightarrow>
   fst (invoke p st c input now) = st"
  by (cases c) (simp_all add: mutation_packets_def)

lemma run_lost_trip:
  assumes "network s = []"
    and "(ev, c) \<in> set (offered (component s) (query s))"
    and "mutation_packets (snd (invoke (parent s) (component s) c input now)) =
      [MutationRequest h vs k]"
    and "serve (remote s) \<lparr>req_document = mutation h, req_variables = vs\<rparr> = (r, Ok d)"
  shows "run (lost_trip ev c input now) s = Some (s\<lparr>remote := r\<rparr>)"
  using assms invoke_keeps_state [of "parent s" "component s" c input now]
  by (simp add: lost_trip_def)

section \<open>A settled page\<close>

lemma settledD:
  assumes "settled s"
  shows "query s = \<lparr>loading = False, data = Some \<lparr>paymentMethods = Some (fresh_rows s)\<rparr>\<rparr>"
    and "store_inv (remote s)" and "applied s \<le> issued s" and "network s = []"
  using assms quiescent_shows_fresh [of s] reachable_session_ok [of reliable s]
    reachable_numbering [of reliable s]
  by (simp_all add: settled_def session_ok_def numbering_def shows_fresh_def)

lemma settled_run:
  assumes "settled s" and "list_all reliable es" and "run es s = Some s'"
    and "network s' = []" and "last_error s' = None"
  shows "settled s'"
  using assms by (auto simp: settled_def intro: reachable_by_run)

lemma row_callbacks_to_object:
  "row_callbacks (to_object m) =
     (if pm_isActive m then []
      else [(''onClick'', CallHandleActivate (JNumber (pm_id m))),
            (''onClick'', CallHandleDeleteMethod (JNumber (pm_id m)))])"
  by (simp add: row_callbacks_def)

lemma offered_settled:
  assumes "settled s"
  shows "set (offered (component s) (query s)) =
     set form_callbacks \<union>
     (\<Union>m \<in> {m \<in> set (list_methods (remote s) (parent s)). \<not> pm_isActive m}.
        {(''onClick'', CallHandleActivate (JNumber (pm_id m))),
         (''onClick'', CallHandleDeleteMethod (JNumber (pm_id m)))})"
  by (auto simp: offered_eq settledD(1) [OF assms] fresh_rows_eq row_callbacks_to_object
      split: if_splits)

lemma reliable_trips [simp]:
  "list_all reliable (round_trip ev c input now)" "list_all reliable (failed_trip ev c input now)"
  by (simp_all add: round_trip_def failed_trip_def)

lemma settled_loaded: "settled loaded"
proof -
  have "network loaded = []" and "last_error loaded = None"
    by code_simp+
  with reachable_loaded show ?thesis
    by (simp add: settled_def)
qed

lemma settled_typed_discover: "settled typed_discover"
proof -
  have "network typed_discover = []" and "last_error typed_discover = None"
    by code_simp+
  with reachable_typed_discover show ?thesis
    by (simp add: settled_def)
qed

section \<open>Activate\<close>

text \<open>
  Property C6. Exclusivity. On a settled page, a click on \<open>Activate\<close> of an
  inactive method that the user may change runs to a settled page again; the
  new page shows the same methods in the same order with exactly the clicked
  one active, the component's own state is untouched, and the store has moved
  as the registry's activation prescribes.
\<close>

theorem activate_workflow:
  assumes "settled s" and "(parent s, parent s) \<in> set (acl (remote s))"
    and "m \<in> set (list_methods (remote s) (parent s))" and "\<not> pm_isActive m"
  shows "\<exists>s'. run (round_trip ''onClick'' (CallHandleActivate (JNumber (pm_id m))) input now) s
           = Some s' \<and>
      settled s' \<and> component s' = component s \<and>
      rows_of (query s') =
        map (\<lambda>x. to_object (x\<lparr>pm_isActive := (pm_id x = pm_id m)\<rparr>))
          (list_methods (remote s) (parent s)) \<and>
      registry_of (remote s') (parent s') =
        (registry_of (remote s) (parent s))\<lparr>active := Some (pm_id m)\<rparr>"
proof -
  let ?vs = "[(''userId'', JNumber (parent s)), (''parentId'', JNumber (parent s)),
    (''methodId'', JNumber (pm_id m))]"
  from assms(2,3) obtain r m' where ok: "set_active (remote s) (parent s) (parent s) (pm_id m) = Ok (r, m')"
    by (auto simp: set_active_eq)
  then have "serve (remote s) \<lparr>req_document = mutation setActivePaymentMethod, req_variables = ?vs\<rparr> =
      (r, Ok (Row (select_fields (selection SET_ACTIVE_PAYMENT_METHOD) (to_object m'))))"
    by (simp add: setActivePaymentMethod_def serve_SET_ACTIVE)
  moreover from assms(3,4)
  have "(''onClick'', CallHandleActivate (JNumber (pm_id m))) \<in> set (offered (component s) (query s))"
    by (auto simp: offered_settled [OF assms(1)])
  ultimately obtain s' where run: "run (round_trip ''onClick'' (CallHandleActivate (JNumber (pm_id m))) input now) s = Some s'"
    and s': "component s' = component s" "rows_of (query s') = map to_object (list_methods r (parent s))"
      "remote s' = r" "parent s' = parent s" "network s' = []" "last_error s' = None"
    using run_round_trip [OF settledD(4,3) [OF assms(1)], of "''onClick''"
        "CallHandleActivate (JNumber (pm_id m))" input now "component s" setActivePaymentMethod ?vs NoThen r]
    by (simp add: handleActivate_def in_hooks mutation_packets_def)
  from refines_set_active [OF settledD(2) [OF assms(1)] assms(2), of "pm_id m"] assms(3)
  have "registry_of r (parent s) = (registry_of (remote s) (parent s))\<lparr>active := Some (pm_id m)\<rparr>"
    by (auto simp: ok reg_set_active_def registry_of_def)
  with run s' settled_run [OF assms(1) _ run] show ?thesis
    by (simp add: list_methods_set_active [OF ok] comp_def)
qed

theorem activate_workflow_witness:
  "\<exists>s'. run (round_trip ''onClick'' (CallHandleActivate (JNumber 2)) [] []) loaded = Some s' \<and>
     map (\<lambda>r. (get_field r ''id'', get_field r ''isActive'')) (rows_of (query s')) =
       [(JNumber 1, JBool False), (JNumber 2, JBool True)]"
proof -
  have "(parent loaded, parent loaded) \<in> set (acl (remote loaded))"
    and "amex \<in> set (list_methods (remote loaded) (parent loaded))"
    and "list_methods (remote loaded) (parent loaded) = methods visa_amex_store"
    by code_simp+
  with activate_workflow [OF settled_loaded, of amex "[]" "[]"] show ?thesis
    by (auto simp: amex_def visa_amex_store_def comp_def)
qed

section \<open>Add\<close>

text \<open>
  Property C8. On a settled page, submitting the form with a label that is
  not blank runs to a settled page that shows the old rows followed by one
  new inactive row: its label is the trimmed input, its identifier the
  store's next one, its creation time the clock at the submit. The input
  field is empty afterwards.
\<close>

theorem add_workflow:
  assumes "settled s" and "(parent s, parent s) \<in> set (acl (remote s))"
    and "trim (newMethod (component s)) \<noteq> []"
  shows "\<exists>s'. run (round_trip ''onSubmit'' CallHandleAddMethod input now) s = Some s' \<and>
      settled s' \<and> newMethod (component s') = [] \<and>
      rows_of (query s') =
        rows_of (query s) @
        [to_object \<lparr>pm_id = next_id (remote s), pm_label = trim (newMethod (component s)),
                    pm_isActive = False, pm_createdAt = Some now, pm_parentId = parent s\<rparr>]"
proof -
  let ?l = "trim (newMethod (component s))"
  let ?vs = "[(''userId'', JNumber (parent s)), (''parentId'', JNumber (parent s)),
    (''method'', JString ?l), (''dateCreated'', JString now)]"
  from assms(2,3) obtain r m where ok: "add_method (remote s) (parent s) (parent s) ?l now = Ok (r, m)"
    by (simp add: add_method_def Let_def)
  then have "serve (remote s) \<lparr>req_document = mutation addPaymentMethod, req_variables = ?vs\<rparr> =
      (r, Ok (Row (select_fields (selection ADD_PAYMENT_METHOD) (to_object m))))"
    by (simp add: addPaymentMethod_def serve_ADD)
  moreover have "(''onSubmit'', CallHandleAddMethod) \<in> set (offered (component s) (query s))"
    by (simp add: offered_settled [OF assms(1)] form_callbacks_def)
  ultimately obtain s' where run: "run (round_trip ''onSubmit'' CallHandleAddMethod input now) s = Some s'"
    and s': "newMethod (component s') = []" "rows_of (query s') = map to_object (list_methods r (parent s))"
      "network s' = []" "last_error s' = None"
    using run_round_trip [OF settledD(4,3) [OF assms(1)], of "''onSubmit''" CallHandleAddMethod
        input now "component s" addPaymentMethod ?vs "ThenSetNewMethod []" r] assms(3)
    by (simp add: handleAddMethod_def in_hooks mutation_packets_def truthy_def setNewMethod_def)
  with settled_run [OF assms(1) _ run] show ?thesis
    by (simp add: list_methods_add_method(1,2) [OF ok] settledD(1) [OF assms(1)] fresh_rows_eq)
qed

theorem add_workflow_witness:
  "\<exists>s'. run (round_trip ''onSubmit'' CallHandleAddMethod [] (js ''now'')) typed_discover = Some s' \<and>
     newMethod (component s') = [] \<and>
     map (\<lambda>r. (get_field r ''method'', get_field r ''isActive'')) (rows_of (query s')) =
       [(JString (js ''Discover''), JBool False)]"
proof -
  have "(parent typed_discover, parent typed_discover) \<in> set (acl (remote typed_discover))"
    and "trim (newMethod (component typed_discover)) = js ''Discover''"
    and "rows_of (query typed_discover) = []"
    by code_simp+
  with add_workflow [OF settled_typed_discover, of "[]" "js ''now''"] show ?thesis
    by auto
qed

section \<open>Delete\<close>

text \<open>
  Property C10. On a settled page, a click on \<open>Delete\<close> of an inactive method
  that the user may change runs to a settled page that shows the other
  methods, in the same order.
\<close>

theorem delete_workflow:
  assumes "settled s" and "(parent s, parent s) \<in> set (acl (remote s))"
    and "m \<in> set (list_methods (remote s) (parent s))" and "\<not> pm_isActive m"
  shows "\<exists>s'. run (round_trip ''onClick'' (CallHandleDeleteMethod (JNumber (pm_id m))) input now) s
           = Some s' \<and>
      settled s' \<and> component s' = component s \<and>
      rows_of (query s') =
        map to_object (filter (\<lambda>x. pm_id x \<noteq> pm_id m) (list_methods (remote s) (parent s)))"
proof -
  let ?vs = "[(''userId'', JNumber (parent s)), (''parentId'', JNumber (parent s)),
    (''methodId'', JNumber (pm_id m))]"
  from settledD(2) [OF assms(1)] assms(3)
  have "find_method (remote s) (parent s) (pm_id m) = Some m"
    by (simp add: store_inv_alt find_method_unique)
  with assms(2,4) obtain r where ok: "delete_method (remote s) (parent s) (parent s) (pm_id m) = Ok r"
    by (simp add: delete_method_def)
  then have "serve (remote s) \<lparr>req_document = mutation deletePaymentMethod, req_variables = ?vs\<rparr> =
      (r, Ok Deleted)"
    by (simp add: deletePaymentMethod_def serve_DELETE)
  moreover from assms(3,4)
  have "(''onClick'', CallHandleDeleteMethod (JNumber (pm_id m))) \<in> set (offered (component s) (query s))"
    by (auto simp: offered_settled [OF assms(1)])
  ultimately obtain s' where run: "run (round_trip ''onClick'' (CallHandleDeleteMethod (JNumber (pm_id m))) input now) s = Some s'"
    and s': "component s' = component s" "rows_of (query s') = map to_object (list_methods r (parent s))"
      "network s' = []" "last_error s' = None"
    using run_round_trip [OF settledD(4,3) [OF assms(1)], of "''onClick''"
        "CallHandleDeleteMethod (JNumber (pm_id m))" input now "component s" deletePaymentMethod ?vs NoThen r]
    by (simp add: handleDeleteMethod_def in_hooks mutation_packets_def)
  with settled_run [OF assms(1) _ run] show ?thesis
    by (simp add: list_methods_delete_method [OF ok])
qed

theorem delete_workflow_witness:
  "\<exists>s'. run (round_trip ''onClick'' (CallHandleDeleteMethod (JNumber 2)) [] []) loaded = Some s' \<and>
     map (\<lambda>r. get_field r ''id'') (rows_of (query s')) = [JNumber 1]"
proof -
  have "(parent loaded, parent loaded) \<in> set (acl (remote loaded))"
    and "amex \<in> set (list_methods (remote loaded) (parent loaded))"
    and "list_methods (remote loaded) (parent loaded) = methods visa_amex_store"
    by code_simp+
  with delete_workflow [OF settled_loaded, of amex "[]" "[]"] show ?thesis
    by (auto simp: amex_def visa_amex_store_def comp_def)
qed

section \<open>Failure\<close>

text \<open>
  Property C22. When the store refuses a mutation, or the request is answered
  with an error, the session is afterwards exactly as before the click: the
  input field keeps its text, the page keeps its rows, and no refetch is
  issued, also when the error says that the page is out of date.
\<close>

theorem failed_mutation_keeps_state:
  assumes "network s = []"
    and "(ev, c) \<in> set (offered (component s) (query s))"
    and "mutation_packets (snd (invoke (parent s) (component s) c input now)) =
      [MutationRequest h vs k]"
    and "snd (serve (remote s) \<lparr>req_document = mutation h, req_variables = vs\<rparr>) = Err e"
  shows "run (failed_trip ev c input now) s = Some s"
  using assms serve_Err_unchanged [OF assms(4)]
    invoke_keeps_state [of "parent s" "component s" c input now]
  by (simp add: failed_trip_def)

theorem failed_mutation_keeps_state_witness:
  "run (failed_trip ''onClick'' (CallHandleActivate (JNumber 2)) [] []) outdated = Some outdated \<and>
   length (rows_of (query outdated)) = 2 \<and> length (fresh_rows outdated) = 1"
proof -
  have "network outdated = []"
    and "(''onClick'', CallHandleActivate (JNumber 2))
      \<in> set (offered (component outdated) (query outdated))"
    and "mutation_packets (snd (invoke (parent outdated) (component outdated)
        (CallHandleActivate (JNumber 2)) [] [])) =
      [MutationRequest setActivePaymentMethod
         [(''userId'', JNumber 7), (''parentId'', JNumber 7), (''methodId'', JNumber 2)] NoThen]"
    and "snd (serve (remote outdated)
        \<lparr>req_document = mutation setActivePaymentMethod,
          req_variables = [(''userId'', JNumber 7), (''parentId'', JNumber 7),
                           (''methodId'', JNumber 2)]\<rparr>) = Err NotFound"
    and "length (rows_of (query outdated)) = 2 \<and> length (fresh_rows outdated) = 1"
    by code_simp+
  with failed_mutation_keeps_state [of outdated "''onClick''" "CallHandleActivate (JNumber 2)"
      "[]" "[]" setActivePaymentMethod _ NoThen NotFound]
  show ?thesis by simp
qed

section \<open>What the component does not prevent\<close>

subsection \<open>A lost response\<close>

text \<open>
  Property C24. The assumption of a reliable network is needed. On every
  settled page and for every inactive method the user may change: when the
  response to the activation is lost on its way back, the session comes to
  rest without an error and with the page it had before, which still shows
  the method as inactive while the store holds it as active. Nothing
  refetches after a failure, so the page differs from the store's list.
\<close>

theorem lost_response_stale:
  assumes "settled s" and "(parent s, parent s) \<in> set (acl (remote s))"
    and "m \<in> set (list_methods (remote s) (parent s))" and "\<not> pm_isActive m"
  shows "\<exists>s'. run (lost_trip ''onClick'' (CallHandleActivate (JNumber (pm_id m))) input now) s
           = Some s' \<and>
      network s' = [] \<and> last_error s' = None \<and> query s' = query s \<and>
      to_object m \<in> set (rows_of (query s')) \<and>
      to_object (m\<lparr>pm_isActive := True\<rparr>) \<in> set (fresh_rows s') \<and>
      rows_of (query s') \<noteq> fresh_rows s'"
proof -
  let ?vs = "[(''userId'', JNumber (parent s)), (''parentId'', JNumber (parent s)),
    (''methodId'', JNumber (pm_id m))]"
  from assms(2,3) obtain r m' where ok: "set_active (remote s) (parent s) (parent s) (pm_id m) = Ok (r, m')"
    by (auto simp: set_active_eq)
  then have "serve (remote s) \<lparr>req_document = mutation setActivePaymentMethod, req_variables = ?vs\<rparr> =
      (r, Ok (Row (select_fields (selection SET_ACTIVE_PAYMENT_METHOD) (to_object m'))))"
    by (simp add: setActivePaymentMethod_def serve_SET_ACTIVE)
  moreover from assms(3,4)
  have "(''onClick'', CallHandleActivate (JNumber (pm_id m))) \<in> set (offered (component s) (query s))"
    by (auto simp: offered_settled [OF assms(1)])
  ultimately have run: "run (lost_trip ''onClick'' (CallHandleActivate (JNumber (pm_id m))) input now) s =
      Some (s\<lparr>remote := r\<rparr>)"
    by (intro run_lost_trip [OF settledD(4) [OF assms(1)]])
      (simp_all add: handleActivate_def mutation_packets_def)
  have fresh: "fresh_rows (s\<lparr>remote := r\<rparr>) =
      map (\<lambda>x. to_object (x\<lparr>pm_isActive := (pm_id x = pm_id m)\<rparr>)) (list_methods (remote s) (parent s))"
    by (simp add: fresh_rows_eq list_methods_set_active [OF ok] comp_def)
  have rows: "rows_of (query s) = map to_object (list_methods (remote s) (parent s))"
    by (simp add: settledD(1) [OF assms(1)] fresh_rows_eq)
  with assms(3,4) have "rows_of (query s) \<noteq> fresh_rows (s\<lparr>remote := r\<rparr>)"
    unfolding fresh by (auto intro!: map_neqI [of m] simp: to_object_def)
  moreover from assms(3) have "to_object (m\<lparr>pm_isActive := True\<rparr>) \<in> set (fresh_rows (s\<lparr>remote := r\<rparr>))"
    unfolding fresh by (auto simp: image_iff intro!: bexI [of _ m])
  ultimately show ?thesis
    using run rows assms(1,3) by (simp add: settled_def)
qed

theorem lost_response_stale_witness:
  "\<exists>s'. run (lost_trip ''onClick'' (CallHandleActivate (JNumber 2)) [] []) loaded = Some s' \<and>
     network s' = [] \<and> last_error s' = None \<and>
     to_object amex \<in> set (rows_of (query s')) \<and>
     to_object (amex\<lparr>pm_isActive := True\<rparr>) \<in> set (fresh_rows s')"
proof -
  have "(parent loaded, parent loaded) \<in> set (acl (remote loaded))"
    and "amex \<in> set (list_methods (remote loaded) (parent loaded))"
    by code_simp+
  with lost_response_stale [OF settled_loaded, of amex "[]" "[]"] show ?thesis
    by (auto simp: amex_def)
qed

subsection \<open>Repeated submits\<close>

lemma offered_form:
  assumes "reachable s" and "\<not> loading (query s)"
  shows "set form_callbacks \<subseteq> set (offered (component s) (query s))"
  using reachable_session_ok [OF assms(1)] assms(2)
  by (auto simp: offered_eq session_ok_def split: option.splits)

lemma fire_submit:
  assumes "reachable s" and "\<not> loading (query s)" and "trim (newMethod (component s)) \<noteq> []"
  shows "fire (Trigger ''onSubmit'' CallHandleAddMethod input now) s =
     Some (s\<lparr>network := network s @ [add_request s now]\<rparr>)"
  using offered_form [OF assms(1,2)] assms(3)
  by (simp add: form_callbacks_def handleAddMethod_def mutation_packets_def truthy_def
      add_request_def)

text \<open>
  Property C27. Nothing disables the form while adds are under way. In every
  reachable state that shows the form with a label that is not blank,
  whatever is in flight, any number of submits in a row is accepted, and each
  dispatches its own add request with the same label; the state of the
  component does not change. The store creates one method per request.
\<close>

theorem submit_never_disabled:
  assumes "reachable s" and "\<not> loading (query s)" and "trim (newMethod (component s)) \<noteq> []"
  shows "run (submits input nows) s =
     Some (s\<lparr>network := network s @ map (add_request s) nows\<rparr>)"
  using assms
proof (induction nows arbitrary: s)
  case Nil
  then show ?case by (simp add: submits_def)
next
  case (Cons now nows)
  let ?s = "s\<lparr>network := network s @ [add_request s now]\<rparr>"
  from Cons.prems have f: "fire (Trigger ''onSubmit'' CallHandleAddMethod input now) s = Some ?s"
    by (rule fire_submit)
  have "reachable ?s"
    by (rule reachable_by.step [OF Cons.prems(1) _ f]) simp
  with Cons.prems(2,3) have "run (submits input nows) ?s =
      Some (?s\<lparr>network := network ?s @ map (add_request ?s) nows\<rparr>)"
    by (intro Cons.IH) simp_all
  moreover have "add_request ?s = add_request s"
    by (simp add: add_request_def fun_eq_iff)
  ultimately show ?case
    using f by (simp add: submits_def)
qed

theorem submit_never_disabled_witness:
  "run (submits [] [js ''t1'', js ''t2'']) typed_discover =
     Some (typed_discover\<lparr>network := map (add_request typed_discover) [js ''t1'', js ''t2'']\<rparr>) \<and>
   map (\<lambda>r. get_field r ''method'')
     (rows_of (query (the (run (submits [] [js ''t1'', js ''t2''] @
        [Serve 0, Serve 1, Deliver 0, Deliver 0, Serve 0, Serve 1, Deliver 0, Deliver 0])
        typed_discover)))) =
     [JString (js ''Discover''), JString (js ''Discover'')]"
proof -
  have "\<not> loading (query typed_discover)"
    and "trim (newMethod (component typed_discover)) \<noteq> []"
    and "network typed_discover = []"
    and "map (\<lambda>r. get_field r ''method'')
      (rows_of (query (the (run (submits [] [js ''t1'', js ''t2''] @
         [Serve 0, Serve 1, Deliver 0, Deliver 0, Serve 0, Serve 1, Deliver 0, Deliver 0])
         typed_discover)))) =
      [JString (js ''Discover''), JString (js ''Discover'')]"
    by code_simp+
  with submit_never_disabled [OF reachable_typed_discover [THEN reachable_reliable],
      of "[]" "[js ''t1'', js ''t2'']"]
  show ?thesis by simp
qed

subsection \<open>A query that fails before any list has arrived\<close>

lemma rendered_no_data:
  "map_sum id rendered (PaymentMethods st \<lparr>loading = False, data = None\<rparr>) =
   map_sum id rendered
     (PaymentMethods st \<lparr>loading = False, data = Some \<lparr>paymentMethods = Some []\<rparr>\<rparr>)"
  by (simp add: PaymentMethods_cases)

lemma error_kept_fire:
  assumes "unanswered s \<longrightarrow> last_error s \<noteq> None" and "fire e s = Some s'"
  shows "unanswered s' \<longrightarrow> last_error s' \<noteq> None"
  using assms(2)
proof (cases rule: fireE)
  case (Answer i n resp)
  with assms(1) show ?thesis
    by (auto simp: unanswered_def apply_query_response_def split: sum.splits if_splits)
qed (use assms(1) in \<open>auto simp: unanswered_def\<close>)

lemma reachable_error_kept:
  "reachable_by ok s \<Longrightarrow> unanswered s \<longrightarrow> last_error s \<noteq> None"
  by (induction rule: reachable_by.induct)
    (simp add: mount_def unanswered_def, rule error_kept_fire)

lemma reachable_first_fetch_lost: "reachable first_fetch_lost"
  unfolding first_fetch_lost_def
  by (rule reachable_the_run [OF reachable_by.mounted [OF store_inv_visa_amex]]) (simp, code_simp)

text \<open>
  Property C30. The component does not read the error of its query. In every
  reachable state that is not loading and has never received a list, the
  query has failed, and the page is, element for element and prop for prop,
  the page of a parent without methods, whatever the store holds: the only
  difference between the two trees is a child \<open>undefined\<close>, which does not
  reach the page.
\<close>

theorem failed_fetch_shows_empty_list:
  assumes "reachable s" and "\<not> loading (query s)" and "data (query s) = None"
  shows "last_error s \<noteq> None \<and>
     map_sum id rendered (PaymentMethods (component s) (query s)) =
     map_sum id rendered
       (PaymentMethods (component s)
          \<lparr>loading = False, data = Some \<lparr>paymentMethods = Some []\<rparr>\<rparr>)"
proof -
  from assms(2,3) have "query s = \<lparr>loading = False, data = None\<rparr>"
    by (cases "query s") simp
  with reachable_error_kept [OF assms(1)] assms(2,3) show ?thesis
    by (simp add: rendered_no_data unanswered_def)
qed

theorem failed_fetch_shows_empty_list_witness:
  "last_error first_fetch_lost = Some RemoteUnavailable \<and>
   map_sum id rendered (PaymentMethods (component first_fetch_lost) (query first_fetch_lost)) =
     map_sum id rendered (PaymentMethods initial_state
       \<lparr>loading = False, data = Some \<lparr>paymentMethods = Some []\<rparr>\<rparr>) \<and>
   length (fresh_rows first_fetch_lost) = 2"
proof -
  have "\<not> loading (query first_fetch_lost)" and "data (query first_fetch_lost) = None"
    and "component first_fetch_lost = initial_state"
    and "last_error first_fetch_lost = Some RemoteUnavailable"
    and "length (fresh_rows first_fetch_lost) = 2"
    by code_simp+
  with failed_fetch_shows_empty_list [OF reachable_first_fetch_lost] show ?thesis
    by simp
qed

end
