(* ===== verification/Session_Liveness.thy ===== *)
theory Session_Liveness
  imports Session_Consistency
begin

text \<open>
  Progress of a session. \<open>schedule\<close> serves the requests and delivers the
  responses in the order of the network until nothing is in flight; it
  terminates because every such step lowers the \<open>load\<close>, a weighted count of
  the packets in which a request weighs more than its response and a mutation
  more than the refetch it causes. \<open>drain\<close> is the state it ends in. A
  session is \<open>healthy\<close> when the invariants of consistency hold in it; steps
  that lose nothing keep it healthy, a healthy session at rest shows the
  store's list, and the delivery of a fulfilled mutation makes any reachable
  session healthy. So the component is eventually consistent, and it recovers
  from losses and foreign writes with its next write.
\<close>

section \<open>Draining the network\<close>

fun weight :: "packet \<Rightarrow> nat" where
  "weight (MutationRequest h vs k) = 4"
| "weight (MutationResponse h k resp) = 3"
| "weight (QueryRequest n r) = 2"
| "weight (QueryResponse n resp) = 1"

definition load :: "session \<Rightarrow> nat" where
  "load s = sum_list (map weight (network s))"

fun next_event :: "packet \<Rightarrow> event" where
  "next_event (MutationRequest h vs k) = Serve 0"
| "next_event (QueryRequest n r) = Serve 0"
| "next_event (MutationResponse h k resp) = Deliver 0"
| "next_event (QueryResponse n resp) = Deliver 0"

lemma fire_next_event:
  assumes "network s = pk # pks"
  shows "\<exists>s'. fire (next_event pk) s = Some s' \<and> load s' < load s"
proof (cases pk)
  case (MutationRequest h vs k)
  with assms show ?thesis by (simp add: load_def)
next
  case (QueryRequest n r)
  with assms show ?thesis by (simp add: load_def)
next
  case (MutationResponse h k resp)
  with assms show ?thesis
    by (cases resp) (simp_all add: load_def refetch_packets_def)
next
  case (QueryResponse n resp)
  with assms show ?thesis by (simp add: load_def)
qed

function schedule :: "session \<Rightarrow> event list" where
  "schedule s =
     (case network s of
        [] \<Rightarrow> []
      | pk # pks \<Rightarrow>
          (case fire (next_event pk) s of
             None \<Rightarrow> []
           | Some s' \<Rightarrow> next_event pk # schedule s'))"
  by pat_completeness auto

termination
proof (relation "measure load")
  fix s pk pks s'
  assume "network s = pk # pks" and "fire (next_event pk) s = Some s'"
  with fire_next_event [of s pk pks] show "(s', s) \<in> measure load"
    by auto
qed simp

declare schedule.simps [simp del]

definition drain :: "session \<Rightarrow> session" where
  "drain s = the (run (schedule s) s)"

text \<open>Events of a network that loses nothing, in a store nobody else writes to.\<close>

fun lossless :: "event \<Rightarrow> bool" where
  "lossless (Trigger ev c input now) = True"
| "lossless (Serve i) = True"
| "lossless (Deliver i) = True"
| "lossless (DropRequest i) = False"
| "lossless (DropResponse i) = False"
| "lossless (Foreign r) = False"

text \<open>
  A session is healthy when it is well-formed, its queries are numbered as
  they should be, its answers are fresh, and no answer to the newest query is
  an error, nor the answer applied last if it was to the newest query.
\<close>

fun newest_answered :: "nat \<Rightarrow> packet \<Rightarrow> bool" where
  "newest_answered m (QueryResponse n (Inl e)) = (n < m)"
| "newest_answered m (QueryResponse n (Inr d)) = True"
| "newest_answered m (QueryRequest n r) = True"
| "newest_answered m (MutationRequest h vs k) = True"
| "newest_answered m (MutationResponse h k resp) = True"

definition newest_ok :: "session \<Rightarrow> bool" where
  "newest_ok s \<longleftrightarrow>
     list_all (newest_answered (issued s)) (network s) \<and>
     (applied s < issued s \<or> last_error s = None)"

definition healthy :: "session \<Rightarrow> bool" where
  "healthy s \<longleftrightarrow> session_ok s \<and> numbering s \<and> synced s \<and> newest_ok s"

text \<open>
  A busy session: on the loaded page the user submits a new label, clicks
  \<open>Activate\<close> on Amex and then \<open>Delete\<close> on Amex, before any answer arrives.
\<close>

definition busy :: session where
  "busy =
     the (run [Trigger ''onChange'' CallSetNewMethod (js ''Discover'') [],
               Trigger ''onSubmit'' CallHandleAddMethod [] (js ''now''),
               Trigger ''onClick'' (CallHandleActivate (JNumber 2)) [] [],
               Trigger ''onClick'' (CallHandleDeleteMethod (JNumber 2)) [] []] loaded)"

text \<open>
  A session that recovers: the page is out of date because another session
  deleted Amex; the user adds a method, and the store has answered.
\<close>

definition recovering :: session where
  "recovering =
     the (run [Trigger ''onChange'' CallSetNewMethod (js ''Discover'') [],
               Trigger ''onSubmit'' CallHandleAddMethod [] (js ''now''), Serve 0] outdated)"

section \<open>The schedule runs and empties the network\<close>

lemma schedule_Nil: "network s = [] \<Longrightarrow> schedule s = []"
  by (subst schedule.simps) simp

lemma schedule_Cons:
  "network s = pk # pks \<Longrightarrow> fire (next_event pk) s = Some s' \<Longrightarrow>
   schedule s = next_event pk # schedule s'"
  by (subst schedule.simps) simp

lemma run_schedule: "\<exists>s'. run (schedule s) s = Some s' \<and> network s' = []"
proof (induction s rule: schedule.induct)
  case (1 s)
  show ?case
  proof (cases "network s")
    case Nil
    then show ?thesis by (simp add: schedule_Nil)
  next
    case (Cons pk pks)
    with fire_next_event obtain s' where f: "fire (next_event pk) s = Some s'"
      by blast
    from 1 [OF Cons f] f show ?thesis
      by (simp add: schedule_Cons [OF Cons f])
  qed
qed

lemma run_schedule_drain: "run (schedule s) s = Some (drain s)"
  using run_schedule [of s] by (auto simp: drain_def)

lemma length_schedule: "length (schedule s) \<le> load s"
proof (induction s rule: schedule.induct)
  case (1 s)
  show ?case
  proof (cases "network s")
    case Nil
    then show ?thesis by (simp add: schedule_Nil)
  next
    case (Cons pk pks)
    with fire_next_event obtain s' where f: "fire (next_event pk) s = Some s'"
      and l: "load s' < load s"
      by blast
    from 1 [OF Cons f] l show ?thesis
      by (simp add: schedule_Cons [OF Cons f])
  qed
qed

lemma lossless_next_event [simp]: "lossless (next_event pk)"
  by (cases pk) simp_all

lemma lossless_schedule: "list_all lossless (schedule s)"
proof (induction s rule: schedule.induct)
  case (1 s)
  show ?case
  proof (cases "network s")
    case Nil
    then show ?thesis by (simp add: schedule_Nil)
  next
    case (Cons pk pks)
    with fire_next_event obtain s' where f: "fire (next_event pk) s = Some s'"
      by blast
    from 1 [OF Cons f] show ?thesis
      by (simp add: schedule_Cons [OF Cons f])
  qed
qed

lemma lossless_reliable: "lossless e \<Longrightarrow> reliable e"
  by (cases e) simp_all

section \<open>Healthy sessions\<close>

lemma newest_answered_Suc: "number_ok m pk \<Longrightarrow> newest_answered (Suc m) pk"
  by (cases "(m, pk)" rule: newest_answered.cases) auto

lemma newest_ok_fire:
  assumes "newest_ok s" and "session_ok s" and "numbering s" and "lossless e"
    and "fire e s = Some s'"
  shows "newest_ok s'"
  using assms(5)
proof (cases rule: fireE)
  case (Trigger ev c input now)
  with assms(1) show ?thesis
    by (auto simp: newest_ok_def list_all_iff in_mutation_packets)
next
  case (ServeMutation i h vs k)
  with assms(1) show ?thesis
    by (simp add: newest_ok_def list_all_update)
next
  case (ServeQuery i n r)
  with session_ok_nth [OF assms(2), of i] have "r = useQuery_request (parent s)"
    by simp
  with ServeQuery assms(1) show ?thesis
    by (simp add: newest_ok_def list_all_update)
next
  case (Fulfilled i h k d)
  from assms(3) have "list_all (newest_answered (Suc (issued s))) (remove_at i (network s))"
    by (auto simp: numbering_def list_all_iff dest!: in_set_remove_atD intro: newest_answered_Suc)
  with Fulfilled assms(1,3) show ?thesis
    by (auto simp: newest_ok_def numbering_def refetch_packets_def list_all_remove_at)
next
  case (Failed i h k err)
  with assms(1) show ?thesis
    by (simp add: newest_ok_def list_all_remove_at)
next
  case (Answer i n resp)
  with assms(1) have "newest_answered (issued s) (QueryResponse n resp)"
    by (auto simp: newest_ok_def dest: list_all_nth)
  with Answer assms(1) show ?thesis
    by (cases resp) (auto simp: newest_ok_def list_all_remove_at apply_query_response_def)
qed (use assms(4) in simp_all)

lemma healthy_mount: "store_inv s0 \<Longrightarrow> healthy (mount p s0)"
  by (simp add: healthy_def session_ok_mount numbering_mount synced_mount)
    (simp add: newest_ok_def mount_def)

lemma healthy_fire:
  assumes "healthy s" and "lossless e" and "fire e s = Some s'"
  shows "healthy s'"
  using assms
  by (auto simp: healthy_def intro: session_ok_fire numbering_fire
      synced_fire [OF _ _ _ lossless_reliable] newest_ok_fire)

lemma healthy_run: "healthy s \<Longrightarrow> list_all lossless es \<Longrightarrow> run es s = Some s' \<Longrightarrow> healthy s'"
proof (induction es arbitrary: s)
  case Nil
  then show ?case by simp
next
  case (Cons e es)
  then show ?case
    by (auto split: option.splits intro: healthy_fire)
qed

lemma healthy_drain: "healthy s \<Longrightarrow> healthy (drain s) \<and> network (drain s) = []"
  using healthy_run [OF _ lossless_schedule run_schedule_drain] run_schedule [of s]
  by (auto simp: drain_def)

lemma healthy_quiescent: "healthy s \<Longrightarrow> network s = [] \<Longrightarrow> shows_fresh s"
  by (auto simp: healthy_def numbering_def synced_def newest_ok_def pending_write_def)

lemma reachable_healthy: "reachable_by lossless s \<Longrightarrow> healthy s"
  by (induction rule: reachable_by.induct) (auto intro: healthy_mount healthy_fire)

text \<open>The delivery of a fulfilled mutation makes any reachable session healthy.\<close>

lemma healthy_after_fulfilled:
  assumes "reachable s" and "i < length (network s)"
    and "network s ! i = MutationResponse h k (Ok d)" and "fire (Deliver i) s = Some s'"
  shows "healthy s'"
proof -
  from assms(1) have ok: "session_ok s" and n: "numbering s"
    by (rule reachable_session_ok, rule reachable_numbering)
  with assms(2,3) have h: "h \<in> set hooks"
    using session_ok_nth [of s i] by simp
  from assms(2-4) have s': "s' = s\<lparr>component := run_then k (component s),
      network := remove_at i (network s) @ refetch_packets s h,
      issued := issued s + length (refetch_packets s h)\<rparr>"
    by simp
  from n have "list_all (answer_fresh (Suc (issued s)) (fresh_rows s)) (remove_at i (network s))"
    and "list_all (newest_answered (Suc (issued s))) (remove_at i (network s))"
    by (auto simp: numbering_def list_all_iff dest!: in_set_remove_atD
        intro: answer_fresh_Suc newest_answered_Suc)
  with n have "synced s'" and "newest_ok s'"
    by (simp_all add: s' refetch_packets_hooks [OF h] synced_def newest_ok_def numbering_def
        fresh_rows_def)
  moreover from ok assms(4) have "session_ok s'"
    by (rule session_ok_fire)
  moreover from n assms(4) have "numbering s'"
    by (rule numbering_fire)
  ultimately show ?thesis
    by (simp add: healthy_def)
qed

section \<open>Eventual consistency\<close>

text \<open>
  Property C17. The component cannot be kept busy: from any state, serving
  the requests and delivering the responses in the order of the network comes
  to an end after at most \<open>load s\<close> steps, with nothing left in flight. Every
  refetch that a delivery issues is counted in.
\<close>

theorem drain_terminates:
  "run (schedule s) s = Some (drain s) \<and> network (drain s) = [] \<and>
   length (schedule s) \<le> load s"
  using run_schedule [of s] length_schedule [of s] by (auto simp: drain_def)

text \<open>
  Property C2. Eventual consistency. When nothing is lost and nobody else
  writes, then from every reachable state, however many mutations are in
  flight and in whatever order they were answered so far, letting the network
  drain leads to a page that shows exactly the store's list.
\<close>

theorem eventually_consistent:
  assumes "reachable_by lossless s"
  shows "query (drain s) =
     \<lparr>loading = False, data = Some \<lparr>paymentMethods = Some (fresh_rows (drain s))\<rparr>\<rparr>"
  using healthy_drain [OF reachable_healthy [OF assms]] healthy_quiescent [of "drain s"]
  by (simp add: shows_fresh_def)

lemma reachable_busy: "reachable_by lossless busy"
proof -
  have "reachable_by lossless loaded"
    unfolding loaded_def
    by (rule reachable_the_run [OF reachable_by.mounted [OF store_inv_visa_amex]])
      (simp, code_simp)
  then show ?thesis
    unfolding busy_def by (rule reachable_the_run) (simp, code_simp)
qed

theorem eventually_consistent_witness:
  "query (drain busy) =
     \<lparr>loading = False, data = Some \<lparr>paymentMethods = Some (fresh_rows (drain busy))\<rparr>\<rparr> \<and>
   length (network busy) = 3 \<and>
   map (\<lambda>r. (get_field r ''method'', get_field r ''isActive'')) (fresh_rows (drain busy)) =
     [(JString (js ''Visa''), JBool False), (JString (js ''Amex''), JBool True),
      (JString (js ''Discover''), JBool False)]"
proof -
  have "length (network busy) = 3"
    and "map (\<lambda>r. (get_field r ''method'', get_field r ''isActive'')) (fresh_rows (drain busy)) =
     [(JString (js ''Visa''), JBool False), (JString (js ''Amex''), JBool True),
      (JString (js ''Discover''), JBool False)]"
    by code_simp+
  with eventually_consistent [OF reachable_busy] show ?thesis
    by simp
qed

text \<open>
  Property C3. Recovery. Whatever happened before (lost packets, writes of
  other sessions, a page that is out of date), once a fulfilled mutation of
  this session is delivered, letting the network drain without further loss
  leads to a page that shows exactly the store's list: the refetch after the
  write repairs the view.
\<close>

theorem recovers_after_fulfilled:
  assumes "reachable s" and "i < length (network s)"
    and "network s ! i = MutationResponse h k (Ok d)" and "fire (Deliver i) s = Some s'"
  shows "query (drain s') =
     \<lparr>loading = False, data = Some \<lparr>paymentMethods = Some (fresh_rows (drain s'))\<rparr>\<rparr>"
  using healthy_drain [OF healthy_after_fulfilled [OF assms]] healthy_quiescent [of "drain s'"]
  by (simp add: shows_fresh_def)

theorem recovers_after_fulfilled_witness:
  "rows_of (query recovering) \<noteq> fresh_rows recovering \<and>
   query (drain (the (fire (Deliver 0) recovering))) =
     \<lparr>loading = False,
      data = Some \<lparr>paymentMethods = Some (fresh_rows (drain (the (fire (Deliver 0) recovering))))\<rparr>\<rparr> \<and>
   map (\<lambda>r. get_field r ''method'') (fresh_rows (drain (the (fire (Deliver 0) recovering)))) =
     [JString (js ''Visa''), JString (js ''Discover'')]"
proof -
  have r: "reachable recovering"
    unfolding recovering_def by (rule reachable_the_run [OF reachable_outdated]) (simp, code_simp)
  have "fire (Deliver 0) recovering \<noteq> None"
    by code_simp
  then have f: "fire (Deliver 0) recovering = Some (the (fire (Deliver 0) recovering))"
    by simp
  have "0 < length (network recovering)" and "is_ok (case network recovering ! 0 of
      MutationResponse h k resp \<Rightarrow> resp | _ \<Rightarrow> Err NotFound)"
    and "rows_of (query recovering) \<noteq> fresh_rows recovering"
    and "map (\<lambda>r. get_field r ''method'') (fresh_rows (drain (the (fire (Deliver 0) recovering)))) =
     [JString (js ''Visa''), JString (js ''Discover'')]"
    by code_simp+
  then obtain h k d where "network recovering ! 0 = MutationResponse h k (Ok d)"
    by (cases "network recovering ! 0") (auto simp: is_ok_iff)
  from recovers_after_fulfilled [OF r \<open>0 < length (network recovering)\<close> this f]
    \<open>rows_of (query recovering) \<noteq> fresh_rows recovering\<close>
    \<open>map (\<lambda>r. get_field r ''method'') (fresh_rows (drain (the (fire (Deliver 0) recovering)))) =
     [JString (js ''Visa''), JString (js ''Discover'')]\<close>
  show ?thesis by simp
qed

end
