(* ===== verification/Add_Workflow.thy ===== *)
theory Add_Workflow
  imports Session
begin

text \<open>
  The add workflow as the specification draws it: a machine with the states
  \<open>Idle\<close> and \<open>Submitting\<close>, each holding the text of the input field. The
  session implements it as long as at most one add is outstanding: every
  step of the session is the step of the machine that its action names, or
  leaves the machine where it is. Beyond that bound the steps that submit or
  answer an add are no steps of the machine. In every reachable state the
  answer to an add clears the field.
\<close>

section \<open>The machine\<close>

datatype workflow = Idle js_string | Submitting js_string

datatype action = Edit js_string | Submit | Succeed | Fail

inductive workflow_step :: "workflow \<Rightarrow> action \<Rightarrow> workflow \<Rightarrow> bool" where
  edit_idle: "workflow_step (Idle t) (Edit t') (Idle t')"
| edit_submitting: "workflow_step (Submitting t) (Edit t') (Submitting t')"
| submit: "trim t \<noteq> [] \<Longrightarrow> workflow_step (Idle t) Submit (Submitting t)"
| succeed: "workflow_step (Submitting t) Succeed (Idle [])"
| fail: "workflow_step (Submitting t) Fail (Idle t)"

code_pred workflow_step .

inductive_simps workflow_step_simps [simp]:
  "workflow_step (Idle t) a w"
  "workflow_step (Submitting t) a w"

section \<open>The session as an implementation\<close>

text \<open>The packets of an add, and the state of the machine a session is in.\<close>

fun is_add :: "packet \<Rightarrow> bool" where
  "is_add (MutationRequest h vs k) = (h = addPaymentMethod)"
| "is_add (MutationResponse h k resp) = (h = addPaymentMethod)"
| "is_add (QueryRequest n r) = False"
| "is_add (QueryResponse n resp) = False"

definition adds_in_flight :: "session \<Rightarrow> nat" where
  "adds_in_flight s = length (filter is_add (network s))"

definition workflow_of :: "session \<Rightarrow> workflow" where
  "workflow_of s =
     (if adds_in_flight s = 0 then Idle (newMethod (component s))
      else Submitting (newMethod (component s)))"

text \<open>The action of the machine that an event of the session stands for, if any.\<close>

fun packet_action :: "packet \<Rightarrow> action option" where
  "packet_action (MutationResponse h k resp) =
     (if h = addPaymentMethod then Some (if is_ok resp then Succeed else Fail) else None)"
| "packet_action (MutationRequest h vs k) = None"
| "packet_action (QueryRequest n r) = None"
| "packet_action (QueryResponse n resp) = None"

fun action_of :: "session \<Rightarrow> event \<Rightarrow> action option" where
  "action_of s (Trigger ev CallSetNewMethod input now) = Some (Edit input)"
| "action_of s (Trigger ev CallHandleAddMethod input now) =
     (if trim (newMethod (component s)) = [] then None else Some Submit)"
| "action_of s (Trigger ev (CallHandleActivate v) input now) = None"
| "action_of s (Trigger ev (CallHandleDeleteMethod v) input now) = None"
| "action_of s (Deliver i) = packet_action (network s ! i)"
| "action_of s (Serve i) = None"
| "action_of s (DropRequest i) = None"
| "action_of s (DropResponse i) = None"
| "action_of s (Foreign r) = None"

text \<open>The callback a packet carries is the one its hook was called with.\<close>

fun then_ok :: "packet \<Rightarrow> bool" where
  "then_ok (MutationRequest h vs k) =
     (k = (if h = addPaymentMethod then ThenSetNewMethod [] else NoThen))"
| "then_ok (MutationResponse h k resp) =
     (k = (if h = addPaymentMethod then ThenSetNewMethod [] else NoThen))"
| "then_ok (QueryRequest n r) = True"
| "then_ok (QueryResponse n resp) = True"

definition simulates :: "session \<Rightarrow> event \<Rightarrow> session \<Rightarrow> bool" where
  "simulates s e s' =
     (case action_of s e of
        None \<Rightarrow> workflow_of s' = workflow_of s
      | Some a \<Rightarrow> workflow_step (workflow_of s) a (workflow_of s'))"

text \<open>
  Two example sessions: one add answered while the user has typed a new label
  in the meantime; two adds in flight, the first of them answered.
\<close>

definition typed_while_adding :: session where
  "typed_while_adding =
     the (run [Trigger ''onSubmit'' CallHandleAddMethod [] (js ''t1''),
               Trigger ''onChange'' CallSetNewMethod (js ''Maestro'') [], Serve 0] typed_discover)"


section \<open>Callbacks in flight\<close>

lemma hooks_distinct [simp]:
  "setActivePaymentMethod \<noteq> addPaymentMethod" "deletePaymentMethod \<noteq> addPaymentMethod"
  "addPaymentMethod \<noteq> setActivePaymentMethod" "addPaymentMethod \<noteq> deletePaymentMethod"
  by (simp_all add: hook_defs document_neq [symmetric])

lemma then_ok_invoke:
  "list_all then_ok (mutation_packets (snd (invoke p st c input now)))"
  by (cases c) (simp_all add: mutation_packets_def handler_defs)

lemma then_ok_fire:
  assumes "list_all then_ok (network s)" and "fire e s = Some s'"
  shows "list_all then_ok (network s')"
  using assms(2)
proof (cases rule: fireE)
  case (Trigger ev c input now)
  with assms(1) then_ok_invoke show ?thesis by simp
next
  case (Fulfilled i h k d)
  with assms(1) show ?thesis
    by (simp add: list_all_remove_at refetch_packets_def)
next
  case (Answer i n resp)
  with assms(1) show ?thesis
    by (simp add: list_all_remove_at apply_query_response_def split: sum.splits)
qed (use assms(1) in \<open>auto dest: list_all_nth intro!: list_all_update list_all_remove_at\<close>)

lemma reachable_then_ok: "reachable_by ok s \<Longrightarrow> list_all then_ok (network s)"
  by (induction rule: reachable_by.induct) (auto simp: mount_def intro: then_ok_fire)

section \<open>Adds in flight\<close>

lemma adds_in_flight_pos:
  "i < length (network s) \<Longrightarrow> is_add (network s ! i) \<Longrightarrow> 0 < adds_in_flight s"
  using length_filter_nth [of i "network s" is_add] by (simp add: adds_in_flight_def)

lemma adds_invoke:
  "length (filter is_add (mutation_packets (snd (invoke p st c input now)))) =
     (if c = CallHandleAddMethod \<and> trim (newMethod st) \<noteq> [] then 1 else 0)"
  by (cases c) (simp_all add: mutation_packets_def handler_defs truthy_def)

section \<open>Simulation\<close>

lemma simulates_stutter:
  "action_of s e = None \<Longrightarrow> adds_in_flight s' = adds_in_flight s \<Longrightarrow>
   component s' = component s \<Longrightarrow> simulates s e s'"
  by (simp add: simulates_def workflow_of_def)

lemma simulates_trigger:
  assumes "s' = s\<lparr>component := fst (invoke (parent s) (component s) c input now),
        network := network s @
          mutation_packets (snd (invoke (parent s) (component s) c input now))\<rparr>"
    and "adds_in_flight s \<le> 1" and "adds_in_flight s' \<le> 1"
  shows "simulates s (Trigger ev c input now) s'"
proof -
  have "adds_in_flight s' = adds_in_flight s +
        (if c = CallHandleAddMethod \<and> trim (newMethod (component s)) \<noteq> [] then 1 else 0)"
    by (simp add: assms(1) adds_in_flight_def adds_invoke)
  moreover have "newMethod (component s') =
        (if c = CallSetNewMethod then input else newMethod (component s))"
    unfolding assms(1) by (cases c) (simp_all add: setNewMethod_def)
  moreover have "action_of s (Trigger ev c input now) =
      (if c = CallSetNewMethod then Some (Edit input)
       else if c = CallHandleAddMethod \<and> trim (newMethod (component s)) \<noteq> [] then Some Submit
       else None)"
    by (cases c) simp_all
  ultimately show ?thesis
    using assms(2,3)
    by (cases "c = CallSetNewMethod";
        cases "c = CallHandleAddMethod \<and> trim (newMethod (component s)) \<noteq> []")
      (simp_all add: simulates_def workflow_of_def)
qed

lemma simulates_answered:
  assumes "i < length (network s)" and "network s ! i = MutationResponse h k resp"
    and "k = (if h = addPaymentMethod then ThenSetNewMethod [] else NoThen)"
    and "network s' = remove_at i (network s) @ ps" and "list_all (\<lambda>pk. \<not> is_add pk) ps"
    and "component s' = (if is_ok resp then run_then k (component s) else component s)"
    and "adds_in_flight s \<le> 1"
  shows "simulates s (Deliver i) s'"
proof -
  from assms(5) have "filter is_add ps = []"
    by (simp add: filter_empty_conv list_all_iff)
  with assms(1,2,4)
  have n: "adds_in_flight s' = adds_in_flight s - (if h = addPaymentMethod then 1 else 0)"
    by (simp add: adds_in_flight_def length_filter_remove_at)
  show ?thesis
  proof (cases "h = addPaymentMethod")
    case True
    with assms(1,2,3,6,7) adds_in_flight_pos [of i s] n show ?thesis
      by (simp add: simulates_def workflow_of_def setNewMethod_def)
  next
    case False
    with assms(2,3,6) n show ?thesis
      by (intro simulates_stutter) simp_all
  qed
qed

text \<open>
  Property C11. The session implements the add workflow of the specification
  while at most one add is outstanding: an edit changes the text in either
  state, a submit with a non-blank label leads from \<open>Idle\<close> to \<open>Submitting\<close>, a
  fulfilled add leads to \<open>Idle\<close> with an empty field, a failed add to \<open>Idle\<close>
  with the text kept, and every other event leaves the machine where it is.
\<close>

theorem add_workflow_simulation:
  assumes "reachable s" and "fire e s = Some s'"
    and "adds_in_flight s \<le> 1" and "adds_in_flight s' \<le> 1"
  shows "simulates s e s'"
  using assms(2)
proof (cases rule: fireE)
  case (Trigger ev c input now)
  with assms(3,4) show ?thesis
    unfolding Trigger(1) by (intro simulates_trigger)
next
  case (Fulfilled i h k d)
  with reachable_then_ok [OF assms(1)]
  have k: "k = (if h = addPaymentMethod then ThenSetNewMethod [] else NoThen)"
    by (auto dest: list_all_nth)
  show ?thesis
    unfolding Fulfilled(1)
  proof (rule simulates_answered [OF Fulfilled(2,3) k])
    show "list_all (\<lambda>pk. \<not> is_add pk) (refetch_packets s h)"
      by (simp add: refetch_packets_def)
  qed (use assms(3) in \<open>simp_all add: Fulfilled(4)\<close>)
next
  case (Failed i h k err)
  with reachable_then_ok [OF assms(1)]
  have k: "k = (if h = addPaymentMethod then ThenSetNewMethod [] else NoThen)"
    by (auto dest: list_all_nth)
  show ?thesis
    unfolding Failed(1)
    by (rule simulates_answered [OF Failed(2,3) k, where ps = "[]"])
      (use assms(3) in \<open>simp_all add: Failed(4)\<close>)
next
  case (Answer i n resp)
  then show ?thesis
    by (intro simulates_stutter)
      (simp_all add: adds_in_flight_def length_filter_remove_at apply_query_response_def
        split: sum.splits)
qed (auto intro!: simulates_stutter simp: adds_in_flight_def length_filter_update)

theorem add_workflow_simulation_witness:
  "simulates typed_discover (Trigger ''onSubmit'' CallHandleAddMethod [] (js ''now''))
     (the (fire (Trigger ''onSubmit'' CallHandleAddMethod [] (js ''now'')) typed_discover)) \<and>
   workflow_of typed_discover = Idle (js ''  Discover '') \<and>
   workflow_of (the (fire (Trigger ''onSubmit'' CallHandleAddMethod [] (js ''now'')) typed_discover)) =
     Submitting (js ''  Discover '')"
proof -
  let ?e = "Trigger ''onSubmit'' CallHandleAddMethod [] (js ''now'')"
  have "fire ?e typed_discover \<noteq> None"
    by code_simp
  then have f: "fire ?e typed_discover = Some (the (fire ?e typed_discover))"
    by simp
  have "adds_in_flight typed_discover \<le> 1" and "adds_in_flight (the (fire ?e typed_discover)) \<le> 1"
    and "workflow_of typed_discover = Idle (js ''  Discover '')"
    and "workflow_of (the (fire ?e typed_discover)) = Submitting (js ''  Discover '')"
    by code_simp+
  with add_workflow_simulation [OF reachable_typed_discover [THEN reachable_reliable] f]
  show ?thesis by simp
qed

section \<open>Beyond one add\<close>




section \<open>The answer to an add clears the field\<close>

lemma packet_action_Succeed:
  "packet_action pk = Some Succeed \<longleftrightarrow> (\<exists>k d. pk = MutationResponse addPaymentMethod k (Ok d))"
  by (cases pk rule: packet_action.cases) (auto simp: is_ok_iff)

lemma fulfilled_add_clears:
  assumes "reachable_by ok s" and "i < length (network s)"
    and "network s ! i = MutationResponse addPaymentMethod k (Ok d)"
  shows "fire (Deliver i) s =
     Some (s\<lparr>component := setNewMethod [] (component s),
             network := remove_at i (network s) @ refetch_packets s addPaymentMethod,
             issued := issued s + length (refetch_packets s addPaymentMethod)\<rparr>)"
proof -
  from reachable_then_ok [OF assms(1)] assms(2,3) have "k = ThenSetNewMethod []"
    by (auto dest: list_all_nth)
  with assms(2,3) show ?thesis by simp
qed

lemma reachable_typed_while_adding: "reachable typed_while_adding"
  unfolding typed_while_adding_def
  by (rule reachable_the_run [OF reachable_typed_discover [THEN reachable_reliable]])
    (simp, code_simp)

text \<open>
  Property C29. The fulfilment callback of an add clears the input field
  whatever it holds by then. In every reachable state, delivering the
  fulfilled answer of any add in flight leaves the field empty: text typed
  while the request was under way is erased.
\<close>

theorem typing_during_submit_is_erased:
  assumes "reachable s" and "i < length (network s)"
    and "network s ! i = MutationResponse addPaymentMethod k (Ok d)"
  shows "\<exists>s'. fire (Deliver i) s = Some s' \<and> newMethod (component s') = []"
  unfolding fulfilled_add_clears [OF assms] by (simp add: setNewMethod_def)

theorem typing_during_submit_is_erased_witness:
  "newMethod (component typed_while_adding) = js ''Maestro'' \<and>
   (\<exists>s'. fire (Deliver 0) typed_while_adding = Some s' \<and> newMethod (component s') = [])"
proof -
  have "packet_action (network typed_while_adding ! 0) = Some Succeed"
    and "0 < length (network typed_while_adding)"
    and 1: "newMethod (component typed_while_adding) = js ''Maestro''"
    by code_simp+
  then obtain k d where "network typed_while_adding ! 0 = MutationResponse addPaymentMethod k (Ok d)"
    by (auto simp: packet_action_Succeed)
  from typing_during_submit_is_erased [OF reachable_typed_while_adding \<open>0 < _\<close> this] 1
  show ?thesis by simp
qed

end
