(* ===== verification/Style_Sheet.thy ===== *)
theory Style_Sheet
  imports Payment_Methods
begin

text \<open>
  The style sheet of the component, \<open>useStyles\<close> (lines 18 to 79 of the
  source), as data: for each class the CSS declarations that \<open>makeStyles\<close> is
  given, with the values taken from the theme as look-ups in it. The tree
  refers to a class by its key; \<open>class_names\<close> collects the keys a tree uses.
  The lemmas show that every class of every page is defined, and which class
  is defined without being used.
\<close>

section \<open>Definitions\<close>

datatype css_value = CssText string | CssNumber int | CssRules "(string \<times> css_value) list"

text \<open>A theme, read along a path such as \<open>theme.palette.primary.main\<close>.\<close>

type_synonym theme = "string list \<Rightarrow> string"

definition useStyles :: "theme \<Rightarrow> (string \<times> (string \<times> css_value) list) list" where
  "useStyles theme =
     [(''container'',
         [(''width'', CssText ''100%''), (''maxWidth'', CssText ''none'')]),
      (''header'',
         [(''display'', CssText ''flex''), (''alignItems'', CssText ''center''),
          (''marginBottom'', CssText ''20px'')]),
      (''listItem'',
         [(''display'', CssText ''flex''), (''justifyContent'', CssText ''space-between''),
          (''alignItems'', CssText ''center''), (''backgroundColor'', CssText ''white''),
          (''borderRadius'', CssText ''8px''), (''margin'', CssText ''12px 0''),
          (''padding'', CssText ''16px''),
          (''boxShadow'', CssText ''0 2px 4px rgba(0,0,0,0.1)'')]),
      (''icon'',
         [(''marginRight'', CssText ''20px''), (''fontSize'', CssText ''28px''),
          (''color'', CssText (theme [''palette'', ''primary'', ''main'']))]),
      (''primaryText'',
         [(''fontWeight'', CssText ''bold''),
          (''color'', CssText (theme [''palette'', ''text'', ''primary'']))]),
      (''activeText'',
         [(''color'', CssText (theme [''palette'', ''success'', ''main'']))]),
      (''inactiveText'',
         [(''color'', CssText (theme [''palette'', ''error'', ''main'']))]),
      (''infoText'',
         [(''color'', CssText (theme [''palette'', ''text'', ''secondary''])),
          (''fontSize'', CssText ''90%'')]),
      (''button'',
         [(''backgroundColor'', CssText (theme [''palette'', ''action'', ''hover''])),
          (''color'', CssText (theme [''palette'', ''text'', ''primary''])),
          (''padding'', CssText ''6px 12px''),
          (''boxShadow'', CssText ''0 1px 2px rgba(0,0,0,0.1)''),
          (''transition'', CssText ''all 0.3s ease''),
          (''&:hover'',
             CssRules [(''backgroundColor'', CssText (theme [''palette'', ''action'', ''selected'']))])]),
      (''addMethodForm'',
         [(''display'', CssText ''flex''), (''marginBottom'', CssText ''20px'')]),
      (''addMethodInput'',
         [(''flexGrow'', CssNumber 1), (''marginRight'', CssText ''10px''),
          (''backgroundColor'', CssText ''white'')]),
      (''deleteButton'',
         [(''color'', CssText (theme [''palette'', ''error'', ''main'']))])]"

text \<open>The classes of the style sheet, as \<open>const classes = useStyles()\<close> offers them.\<close>

definition classes :: "theme \<Rightarrow> string list" where
  "classes theme = map fst (useStyles theme)"

text \<open>The classes a tree refers to, in document order.\<close>

fun class_names :: "'h element \<Rightarrow> string list"
  and prop_class_names :: "string \<times> 'h prop_value \<Rightarrow> string list" where
  "class_names (Element t ps cs) =
     concat (map prop_class_names ps) @ concat (map class_names cs)"
| "class_names (Text s) = []"
| "class_names (Expr v) = []"
| "prop_class_names (n, PString c) = (if n = ''className'' then [c] else [])"
| "prop_class_names (n, PElement e) = class_names e"
| "prop_class_names (n, PProps ps) = concat (map prop_class_names ps)"
| "prop_class_names (n, PValue v) = []"
| "prop_class_names (n, PTrue) = []"
| "prop_class_names (n, PHandler h) = []"

section \<open>Classes of the parts\<close>

lemma classes_eq:
  "classes theme =
     [''container'', ''header'', ''listItem'', ''icon'', ''primaryText'', ''activeText'',
      ''inactiveText'', ''infoText'', ''button'', ''addMethodForm'', ''addMethodInput'',
      ''deleteButton'']"
  by (simp add: classes_def useStyles_def)

lemma class_names_header [simp]: "class_names header_view = [''header'']"
  by (simp add: header_view_def)

lemma class_names_add_form [simp]:
  "class_names (add_form t) = [''addMethodForm'', ''addMethodInput'', ''button'']"
  by (simp add: add_form_def)

lemma class_names_method_item [simp]:
  "class_names (method_item m) =
     (if to_boolean (get_field m ''isActive'')
      then [''listItem'', ''activeText'', ''infoText'', ''primaryText'', ''deleteButton'']
      else [''listItem'', ''inactiveText'', ''infoText'', ''primaryText'', ''button'',
            ''deleteButton''])"
  by (simp add: item_defs js_not_def)

lemma class_names_page:
  "map_sum id class_names (PaymentMethods st q) =
     (if loading q then Ok []
      else case data q of
        None \<Rightarrow> Ok [''container'', ''header'', ''addMethodForm'', ''addMethodInput'', ''button'']
      | Some qd \<Rightarrow>
          (case paymentMethods qd of
             None \<Rightarrow> Err TypeError
           | Some rows \<Rightarrow>
               Ok ([''container'', ''header'', ''addMethodForm'', ''addMethodInput'', ''button''] @
                   concat (map (\<lambda>m. class_names (method_item m)) rows))))"
  by (simp add: PaymentMethods_cases comp_def split: option.splits)

lemma class_names_items_subset:
  "set (concat (map (\<lambda>m. class_names (method_item m)) rows)) \<subseteq> set (classes theme) - {''icon''}"
  by (induction rows) (simp_all add: classes_eq)

section \<open>Every class is defined\<close>

text \<open>
  Property C34. Every class that a page refers to is a key of the style sheet,
  so no \<open>className\<close> is \<open>undefined\<close>; and the class \<open>icon\<close> is defined but no
  page uses it.
\<close>

theorem classes_defined:
  assumes "PaymentMethods st q = Ok page"
  shows "set (class_names page) \<subseteq> set (classes theme) - {''icon''}"
proof -
  let ?fixed = "[''container'', ''header'', ''addMethodForm'', ''addMethodInput'', ''button'']"
  from assms have "map_sum id class_names (PaymentMethods st q) = Ok (class_names page)"
    by simp
  then consider "class_names page = []" | "class_names page = ?fixed"
    | rows where "class_names page = ?fixed @ concat (map (\<lambda>m. class_names (method_item m)) rows)"
    unfolding class_names_page
    by (cases "loading q"; cases "data q"; cases "paymentMethods (the (data q))")
      (simp_all del: class_names_method_item, metis+)
  then show ?thesis
  proof cases
    case 3
    with class_names_items_subset [of rows theme] show ?thesis
      by (simp add: classes_eq del: class_names_method_item)
  qed (simp_all add: classes_eq)
qed

theorem classes_defined_witness:
  "\<exists>page. PaymentMethods initial_state
       \<lparr>loading = False, data = Some \<lparr>paymentMethods = Some visa_amex\<rparr>\<rparr> = Ok page \<and>
     set (class_names page) = set (classes (\<lambda>p. [])) - {''icon''}"
proof -
  let ?q = "\<lparr>loading = False, data = Some \<lparr>paymentMethods = Some visa_amex\<rparr>\<rparr>"
  obtain page where p: "PaymentMethods initial_state ?q = Ok page"
    by (simp add: PaymentMethods_cases)
  with class_names_page [of initial_state ?q]
  have "class_names page =
      [''container'', ''header'', ''addMethodForm'', ''addMethodInput'', ''button'',
       ''listItem'', ''activeText'', ''infoText'', ''primaryText'', ''deleteButton'',
       ''listItem'', ''inactiveText'', ''infoText'', ''primaryText'', ''button'',
       ''deleteButton'']"
    by (simp add: visa_amex_def)
  then have "set (classes (\<lambda>p. [])) - {''icon''} \<subseteq> set (class_names page)"
    by (auto simp: classes_eq)
  with classes_defined [OF p, of "\<lambda>p. []"] p show ?thesis
    by blast
qed

end
