(* ===== verification/Spec2Isabelle.thy ===== *)
theory Spec2Isabelle
  imports Workflows Session_Liveness Add_Workflow Style_Sheet
begin

text \<open>
  \<^bold>\<open>Payment-method registry: a verification development.\<close>

  The program is one React component, \<open>PaymentMethods\<close> in
  \<open>src/frontend/src/PaymentMethods.tsx\<close>. It shows the payment methods of a
  parent account and lets the user add a method, make one the active method,
  and delete a method that is not active. All data lives in a remote store
  behind a GraphQL API; the component reads it with one query and changes it
  with three mutations, each of which refetches the query afterwards. The
  component never patches its list by itself: what it shows is always an
  answer of the store.

  \<^bold>\<open>Parts of the program and the theories that model them.\<close>

  \<^item> \<open>PM_Prelude\<close>: the theorem collections, results as sum values, ``at most
    one element satisfies \<open>P\<close>'', removal of a list position.
  \<^item> \<open>JS_String\<close>: strings as lists of UTF-16 code units (\<open>16 word\<close>) and
    \<open>String.prototype.trim\<close>, which \<open>handleAddMethod\<close> calls. \<open>trim\<close> is
    characterised by its contract (\<open>trim_unique\<close>, \<open>trim_split\<close>) and shown
    idempotent.
  \<^item> \<open>JS_Value\<close>: the untyped values of a row (\<open>method: any\<close>), field access on
    objects, \<open>ToBoolean\<close>, \<open>!\<close> and \<open>||\<close>.
  \<^item> \<open>GraphQL_Documents\<close>: the documents \<open>GET_PAYMENT_METHODS\<close>,
    \<open>SET_ACTIVE_PAYMENT_METHOD\<close>, \<open>ADD_PAYMENT_METHOD\<close> and \<open>DELETE_PAYMENT_METHOD\<close>
    (lines 81 to 117) as records, with document validation and the coercion
    check of a variables object.
  \<^item> \<open>React_Elements\<close>: element trees, what a user can trigger and see on
    one, and the tree that reaches the page (\<open>rendered\<close>: children that are
    booleans, \<open>null\<close> or \<open>undefined\<close> are dropped).
  \<^item> \<open>Payment_Methods\<close>: the component itself (lines 119 to 247): the state
    \<open>newMethod\<close>, the query result \<open>loading\<close> and \<open>data\<close>, the mutation hooks with
    their \<open>refetchQueries\<close>, the handlers \<open>handleActivate\<close>, \<open>handleAddMethod\<close>,
    \<open>handleDeleteMethod\<close>, and the returned tree, one definition per part of
    the JSX (\<open>header_view\<close>, \<open>add_form\<close>, \<open>method_item\<close> with \<open>status_view\<close>,
    \<open>created_view\<close>, \<open>activate_control\<close>, \<open>delete_control\<close>, then \<open>methods_list\<close>
    and \<open>PaymentMethods\<close>).
  \<^item> \<open>Style_Sheet\<close>: the style object of \<open>useStyles\<close> (lines 18 to 79) as
    data, and the classes a tree refers to.
  \<^item> \<open>Remote_Store\<close>: the store behind the API. It is not part of the
    sources and is modelled from the specification: the list of methods with
    their parents, the operations \<open>list_methods\<close>, \<open>set_active\<close>, \<open>add_method\<close>,
    \<open>delete_method\<close> with the errors of the specification, and \<open>serve\<close>, which
    resolves a request (a document with its variables) against the store. The
    abstract \<open>registry\<close> of a parent (its identifiers, and the active one) is
    what the store promises, and the store's operations refine it.
  \<^item> \<open>Session\<close>: one mounted component, the store, and the packets in
    flight between them, as a state machine. \<open>fire\<close> performs one event: the
    user triggers a control the current page offers (the handler runs through
    \<open>invoke\<close>), the store serves a request, the client receives a response
    (a fulfilled mutation runs its \<open>then\<close> callback and refetches by the hook's
    \<open>refetchQueries\<close>; a query response is applied unless a newer one was),
    the network drops a request or a response, another session writes.
    \<open>reachable_by\<close> is the inductive set of states reachable with a given
    kind of events.
  \<^item> \<open>Session_Safety\<close>: what holds in every reachable state.
  \<^item> \<open>Session_Consistency\<close>: what holds on a reliable network.
  \<^item> \<open>Session_Liveness\<close>: the network drains (\<open>schedule\<close>, \<open>drain\<close>), and what
    the page shows then.
  \<^item> \<open>Workflows\<close>: activate, add and delete from click to new page, and
    what the component does not prevent: a lost response, repeated submits,
    a query that fails before any list has arrived.
  \<^item> \<open>Add_Workflow\<close>: the add workflow of the specification as an abstract
    machine (\<open>Idle\<close>, \<open>Submitting\<close>) and the session as its implementation.

  \<^bold>\<open>How the model corresponds to the code.\<close> A handler is a function from
  its inputs to the list of effects it performs (\<open>PreventDefault\<close>, or
  \<open>Mutate hook variables then\<close>); the clock read by \<open>new Date()\<close> is a
  parameter. The closures that the tree binds to events are values of the
  datatype \<open>callback\<close>, and \<open>invoke\<close> runs one. A row is an object whose fields
  are read by name, so a missing field is \<open>undefined\<close> as in the code, and the
  \<open>TypeError\<close> of \<open>data?.paymentMethods.map\<close> on a missing array is a value
  of the result type. A \<open>className\<close> holds the key of its class in the style
  sheet. In a session, a user event is enabled only if the page rendered from
  the current state offers it, so the guards of the JSX (\<open>!method.isActive\<close>,
  \<open>disabled\<close>) decide which requests can exist at all.

  \<^bold>\<open>What is proved.\<close>

  \<^item> Handlers: no mutation on blank input, the trimmed label, conformance of
    the variables to the documents, refetch after every mutation.
  \<^item> Tree: the complete list of controls a page offers (\<open>page_controls\<close>), the
    delete guard (\<open>delete_only_inactive\<close>), that the delete control is always
    rendered and disabled exactly for the active row, the order and keys of
    the items, the text of a row.
  \<^item> Store: the invariant (unique identifiers, non-empty labels, at most one
    active method per parent) is kept by every operation and by \<open>serve\<close>; the
    operations refine the registry; an error leaves the store unchanged.
  \<^item> Every reachable state, with drops and foreign writes
    (\<open>Session_Safety\<close>): the page is a well-formed snapshot with at most one
    active row, rendering never raises, every request is valid input and is
    never answered \<open>InvalidInput\<close>, no delete is dispatched for a row shown as
    active.
  \<^item> Reliable network, single writer (\<open>Session_Consistency\<close>): a session with
    nothing in flight and no query error shows exactly the store's list.
  \<^item> Progress (\<open>Session_Liveness\<close>): serving and delivering in the order of
    the network ends after at most \<open>load s\<close> steps with nothing in flight, and
    when nothing is lost the page then shows the store's list, however many
    mutations were in flight. After losses and foreign writes the same holds
    from the delivery of the session's next fulfilled mutation on
    (\<open>recovers_after_fulfilled\<close>): the refetch after a write repairs the view.
  \<^item> Workflows: a click on \<open>Activate\<close>, a submit, a click on \<open>Delete\<close> on a
    settled page lead to a settled page with the list the registry
    prescribes; a failed mutation leaves the session as it was.
  \<^item> What the component does not prevent (\<open>Workflows\<close>), each for every
    state in which it can happen. On any settled page, an activation whose
    response is lost leaves the session at rest, without an error, showing
    the method as inactive while the store holds it as active
    (\<open>lost_response_stale\<close>): the reliable network is needed for consistency.
    In any reachable state that shows the form, any number of submits in a
    row dispatches as many add requests (\<open>submit_never_disabled\<close>). In any
    reachable state without a list that is not loading, the query has failed
    and the page is the page of a parent without methods
    (\<open>failed_fetch_shows_empty_list\<close>).
  \<^item> Add workflow: every step of a session with at most one add outstanding
    is the step of the specification's machine that its action names, or
    leaves the machine where it is (a simulation). The bound is tight: a
    submit or an answer of an add that starts or ends with more than one add
    in flight is no step of the machine (\<open>second_add_leaves_machine\<close>). In
    every reachable state the fulfilled answer of an add empties the input
    field, whatever was typed in the meantime
    (\<open>typing_during_submit_is_erased\<close>).
  \<^item> Strings: \<open>trim\<close> is characterised by its contract.
  \<^item> Style sheet: every class a page refers to is defined; the class \<open>icon\<close>
    is defined and never used.
  \<^item> Below: the requests built by the handlers, served by the store,
    implement the operations of the abstract registry.

  \<^bold>\<open>Bounds and assumptions.\<close> Every function of the development is total
  and no fuel is used: a run is a finite list of events, reachability is an
  inductive predicate over single steps, and \<open>schedule\<close>, the one function
  that is not structurally recursive, terminates by the measure \<open>load\<close>.
  Code units are \<open>16 word\<close>. Identifiers are integers without a bound; the
  code never computes with them. The client cache follows the specification:
  a failed query keeps the list fetched before, and a response to an older
  query never replaces a newer one. \<open>loading\<close> is true until the first
  response only: a refetch does not bring the \<open>Loading...\<close> page back, which
  is the default of \<open>useQuery\<close>. Events are atomic; rendering happens between
  events.

  \<^bold>\<open>What is not modelled.\<close> What a browser does with the CSS of the style
  sheet, and the imports (lines 1 to 16). The Apollo client and React are
  libraries the source calls; their behaviour enters as the meaning of the
  hooks and of events.
  Transport, authentication and serialisation are outside the component. The
  store is modelled from the specification, not from an implementation.
\<close>

section \<open>The outcome of a handler's request\<close>

text \<open>
  What an effect of a handler does to the registry of parent \<open>p\<close> when the
  store \<open>st\<close> serves it: nothing is sent for \<open>PreventDefault\<close>; a mutation
  yields the store's error or the registry of the new store.
\<close>

definition outcome :: "store \<Rightarrow> int \<Rightarrow> effect \<Rightarrow> (remote_error, registry) result option" where
  "outcome st p e =
     (case e of
        PreventDefault \<Rightarrow> None
      | Mutate h vs k \<Rightarrow>
          Some (map_sum id
            (\<lambda>d. registry_of (fst (serve st \<lparr>req_document = mutation h, req_variables = vs\<rparr>)) p)
            (snd (serve st \<lparr>req_document = mutation h, req_variables = vs\<rparr>))))"

section \<open>The handlers implement the registry\<close>

text \<open>
  Property C14. The request that \<open>handleActivate\<close> builds for a numeric
  identifier, served by a store in which the parent may act on itself, does
  to the parent's registry what the registry's activation prescribes: the
  method becomes the active one, or \<open>NotFound\<close> is answered.
\<close>

theorem activate_refines:
  assumes "store_inv st" and "(p, p) \<in> set (acl st)"
  shows "map (outcome st p) (handleActivate p (JNumber i)) =
         [Some (reg_set_active i (registry_of st p))]"
  using refines_set_active [OF assms, of i]
  by (simp add: outcome_def handleActivate_def setActivePaymentMethod_def serve_SET_ACTIVE
      reply_registry)

theorem activate_refines_witness:
  "map (outcome visa_amex_store 7) (handleActivate 7 (JNumber 2)) =
     [Some (Ok \<lparr>members = [1, 2], active = Some 2\<rparr>)]"
proof -
  have "(7, 7) \<in> set (acl visa_amex_store)"
    and "reg_set_active 2 (registry_of visa_amex_store 7) = Ok \<lparr>members = [1, 2], active = Some 2\<rparr>"
    by code_simp+
  with activate_refines [OF store_inv_visa_amex, of 7 2] show ?thesis
    by simp
qed

text \<open>
  Property C15. The request that \<open>handleDeleteMethod\<close> builds, served by the
  store, is the registry's deletion: the method is removed, \<open>NotFound\<close> is
  answered for an unknown identifier, and the active method is refused.
\<close>

theorem delete_refines:
  assumes "store_inv st" and "(p, p) \<in> set (acl st)"
  shows "map (outcome st p) (handleDeleteMethod p (JNumber i)) =
         [Some (reg_delete i (registry_of st p))]"
  using refines_delete_method [OF assms, of i]
  by (simp add: outcome_def handleDeleteMethod_def deletePaymentMethod_def serve_DELETE
      reply_deleted_registry)

theorem delete_refines_witness:
  "map (outcome visa_amex_store 7) (handleDeleteMethod 7 (JNumber 1)) = [Some (Err Rejected)] \<and>
   map (outcome visa_amex_store 7) (handleDeleteMethod 7 (JNumber 2)) =
     [Some (Ok \<lparr>members = [1], active = Some 1\<rparr>)]"
proof -
  have "(7, 7) \<in> set (acl visa_amex_store)"
    and "reg_delete 1 (registry_of visa_amex_store 7) = Err Rejected"
    and "reg_delete 2 (registry_of visa_amex_store 7) = Ok \<lparr>members = [1], active = Some 1\<rparr>"
    by code_simp+
  with delete_refines [OF store_inv_visa_amex, of 7 1] delete_refines [OF store_inv_visa_amex, of 7 2]
  show ?thesis by simp
qed

text \<open>
  Property C16. \<open>handleAddMethod\<close> sends nothing for a blank input; otherwise
  its request, served by the store, appends the store's next identifier to
  the registry and leaves the active method as it is.
\<close>

theorem add_refines:
  assumes "(p, p) \<in> set (acl st)"
  shows "map (outcome st p) (handleAddMethod p l now) =
         (if trim l = [] then [None]
          else [None, Some (Ok (reg_add (next_id st) (registry_of st p)))])"
  using refines_add_method [OF assms, of "trim l" now]
  by (simp add: outcome_def handleAddMethod_def addPaymentMethod_def serve_ADD reply_registry
      truthy_def)

theorem add_refines_witness:
  "map (outcome (empty_store [(7, 7)]) 7) (handleAddMethod 7 (js '' Discover '') (js ''now'')) =
     [None, Some (Ok \<lparr>members = [1], active = None\<rparr>)] \<and>
   map (outcome (empty_store [(7, 7)]) 7) (handleAddMethod 7 (js ''  '') (js ''now'')) = [None]"
proof -
  have "(7, 7) \<in> set (acl (empty_store [(7, 7)]))"
    and "trim (js '' Discover '') \<noteq> []" and "trim (js ''  '') = []"
    and "reg_add (next_id (empty_store [(7, 7)])) (registry_of (empty_store [(7, 7)]) 7) =
      \<lparr>members = [1], active = None\<rparr>"
    by code_simp+
  with add_refines [of 7 "empty_store [(7, 7)]" "js '' Discover ''" "js ''now''"]
    add_refines [of 7 "empty_store [(7, 7)]" "js ''  ''" "js ''now''"]
  show ?thesis by simp
qed

section \<open>The user the handlers name\<close>

text \<open>
  Property C23. Every handler sends the parent's identifier as \<open>userId\<close>. So
  unless the store lets the parent act on itself, every mutation of the
  component is refused with \<open>Forbidden\<close>, whoever the acting user is and
  whatever rights that user has.
\<close>

theorem forbidden_without_self_access:
  assumes "(p, p) \<notin> set (acl st)"
  shows "map (outcome st p) (handleActivate p (JNumber i)) = [Some (Err Forbidden)] \<and>
         map (outcome st p) (handleDeleteMethod p (JNumber j)) = [Some (Err Forbidden)] \<and>
         map (outcome st p) (handleAddMethod p l now) =
           (if trim l = [] then [None] else [None, Some (Err Forbidden)])"
  using assms
  by (simp add: outcome_def handler_defs hook_defs serve_SET_ACTIVE serve_ADD serve_DELETE
      set_active_eq delete_method_eq add_method_def truthy_def)

theorem forbidden_without_self_access_witness:
  "map (outcome (visa_amex_store\<lparr>acl := [(1, 7)]\<rparr>) 7) (handleActivate 7 (JNumber 2)) =
     [Some (Err Forbidden)] \<and>
   set_active (visa_amex_store\<lparr>acl := [(1, 7)]\<rparr>) 1 7 2 \<noteq> Err Forbidden"
proof -
  have "(7, 7) \<notin> set (acl (visa_amex_store\<lparr>acl := [(1, 7)]\<rparr>))"
    and "set_active (visa_amex_store\<lparr>acl := [(1, 7)]\<rparr>) 1 7 2 \<noteq> Err Forbidden"
    by code_simp+
  with forbidden_without_self_access [of 7 "visa_amex_store\<lparr>acl := [(1, 7)]\<rparr>" 2] show ?thesis
    by simp
qed

end
